theory Spec2Isabelle
  imports Complex_Main "HOL-Library.Product_Lexorder"
begin

section \<open>The generic finite-volume domain of \<^verbatim>\<open>generic_domain.py\<close>\<close>

text \<open>
  A shallow embedding of class \<^verbatim>\<open>Generic_Domain\<close>. The attributes of the object are the
  fields of the record \<open>domain\<close>; a method takes the domain and returns the domain it leaves
  behind. A method that can raise returns an \<open>outcome\<close>: \<open>Returns d\<close> for a normal return
  with the attributes \<open>d\<close>, \<open>Raises e d\<close> for the exception \<open>e\<close> raised with the attributes
  as they stand at the \<^verbatim>\<open>raise\<close> (Python keeps every assignment made before it).

  Python floats are modelled as real numbers: comparisons, \<open>min\<close> and \<open>max\<close> are exact on
  both, sums and differences are rounded in the program and exact here. Cell, edge and
  vertex numbers are natural numbers, as the mesh hands them out.
\<close>

subsection \<open>Exceptions and log lines\<close>

datatype selector = Str string | Num int

datatype message =
    Both_vertex_and_edge
  | Incorrect_timestepping_type selector
  | Default_order_must_be_1_or_2 nat
  | Tag_not_bound string "string list"
  | Boundary_tags_must_be_bound "string list"
  | Only_one_of_finaltime_and_duration
  | Time_overshot_finaltime
  | Too_small_timestep real nat
  | Statistics string
  | Must_override_conserved_values_to_evolved_values
  | Boundary_must_return_conserved_or_evolved
  | Ignored_boundary_segment
  | Must_override_compute_fluxes
  | Unknown_order

datatype key = Quantity_name string | Boundary_edge nat nat | Processor nat

datatype exn =
    Exception message
  | AssertionError message
  | KeyError key
  | IndexError
  | ValueError
  | AttributeError string

datatype 's outcome = Returns 's | Raises exn 's

fun and_then :: "'s outcome \<Rightarrow> ('s \<Rightarrow> 's outcome) \<Rightarrow> 's outcome" where
  "and_then (Returns s) f = f s"
| "and_then (Raises e s) f = Raises e s"

text \<open>Statements run one after the other; the first exception ends the run.\<close>

fun in_sequence :: "('s \<Rightarrow> 's outcome) list \<Rightarrow> 's \<Rightarrow> 's outcome" where
  "in_sequence [] s = Returns s"
| "in_sequence (f # fs) s = and_then (f s) (in_sequence fs)"

fun returns_normally :: "'s outcome \<Rightarrow> bool" where
  "returns_normally (Returns s) = True"
| "returns_normally (Raises e s) = False"

fun state_of :: "'s outcome \<Rightarrow> 's" where
  "state_of (Returns s) = s"
| "state_of (Raises e s) = s"

subsection \<open>Indexing\<close>

text \<open>
  Reading and writing an array at a natural-number index; out of range raises
  \<^verbatim>\<open>IndexError\<close>, as numpy and Python lists do.
\<close>

definition item :: "'a list \<Rightarrow> nat \<Rightarrow> exn + 'a" where
  "item xs i = (if i < length xs then Inr (xs ! i) else Inl IndexError)"

definition item2 :: "'a list list \<Rightarrow> nat \<Rightarrow> nat \<Rightarrow> exn + 'a" where
  "item2 xss i j =
     (if i < length xss \<and> j < length (xss ! i) then Inr (xss ! i ! j) else Inl IndexError)"

definition set_item :: "'a list \<Rightarrow> nat \<Rightarrow> 'a \<Rightarrow> exn + 'a list" where
  "set_item xs i v = (if i < length xs then Inr (xs[i := v]) else Inl IndexError)"

definition set_item2 :: "'a list list \<Rightarrow> nat \<Rightarrow> nat \<Rightarrow> 'a \<Rightarrow> exn + 'a list list" where
  "set_item2 xss i j v =
     (if i < length xss \<and> j < length (xss ! i)
      then Inr (xss[i := (xss ! i)[j := v]]) else Inl IndexError)"

subsection \<open>Quantities and the domain\<close>

text \<open>
  Class \<^verbatim>\<open>Quantity\<close> is not part of this file of the repository; the record holds the
  arrays of a quantity that \<^verbatim>\<open>generic_domain.py\<close> reads and writes.
\<close>

record quantity =
  centroid_values :: "real list"
  vertex_values :: "real list list"
  edge_values :: "real list list"
  boundary_values :: "real list"
  explicit_update :: "real list"
  semi_implicit_update :: "real list"
  centroid_backup_values :: "real list"

record info_block =
  info_min :: "real option"
  info_max :: "real option"
  info_min_location :: "(real \<times> real) option"
  info_max_location :: "(real \<times> real) option"
  info_min_time :: "real option"
  info_max_time :: "real option"

text \<open>
  Boundary objects and forcing terms are objects of classes defined elsewhere; the domain
  holds them by reference, here a number.

  A call of one of the methods an evolution step is made of is recorded in \<open>calls\<close>, with
  the model time at the call: a ghost field, written and never read by the model.
\<close>

type_synonym object_ref = nat

datatype call =
    Backup_conserved_quantities
  | Compute_fluxes
  | Compute_forcing_terms
  | Update_timestep
  | Update_conserved_quantities real
  | Update_ghosts
  | Distribute_to_vertices_and_edges
  | Update_boundary
  | Saxpy_conserved_quantities real real
  | Update_extrema

record domain =
  conserved_quantities :: "string list"
  evolved_quantities :: "string list"
  quantities :: "string \<rightharpoonup> quantity"
  forcing_terms :: "object_ref list"
  number_of_triangles :: nat
  number_of_full_triangles :: nat
  boundary :: "((nat \<times> nat) \<times> string) list"
  neighbours :: "int list list"
  boundary_map :: "(string \<rightharpoonup> object_ref option) option"
  boundary_objects :: "((nat \<times> nat) \<times> object_ref option) list option"
  full_send_dict :: "nat \<rightharpoonup> nat list"
  ghost_recv_dict :: "nat \<rightharpoonup> nat list"
  processor :: nat
  protect_against_isolated_degenerate_timesteps :: bool
  default_order :: nat
  order :: nat
  smallsteps :: nat
  max_smallsteps :: nat
  number_of_steps :: nat
  number_of_first_order_steps :: nat
  CFL :: real
  timestepping_method :: "string option"
  timetepping_method :: "string option"
  evolve_max_timestep :: real
  evolve_min_timestep :: real
  time :: real
  finaltime :: "real option"
  yieldtime :: real
  recorded_min_timestep :: real
  recorded_max_timestep :: real
  starttime :: real
  timestep :: real
  flux_timestep :: real
  quantities_to_be_monitored :: "(string \<times> info_block) list option"
  monitor_time_interval :: "(real \<times> real) option"
  monitor_indices :: "nat list option"
  checkpoint :: bool
  max_speed :: "real list"
  log :: "message list"
  calls :: "(call \<times> real) list"

subsection \<open>Accessors\<close>

text \<open>
  \<^verbatim>\<open>get_conserved_quantities(vol_id, vertex=None, edge=None)\<close> and its twin for the evolved
  quantities. The loop over the names fills \<^verbatim>\<open>q[i]\<close> from the quantity named at position
  \<open>i\<close>; a name with no quantity raises \<^verbatim>\<open>KeyError\<close>, an index outside an array
  \<^verbatim>\<open>IndexError\<close>.
\<close>

definition value_at :: "quantity \<Rightarrow> nat \<Rightarrow> nat option \<Rightarrow> nat option \<Rightarrow> exn + real" where
  "value_at Q vol_id vertex edge =
     (case vertex of
        Some v \<Rightarrow> item2 (vertex_values Q) vol_id v
      | None \<Rightarrow>
         (case edge of
            Some e \<Rightarrow> item2 (edge_values Q) vol_id e
          | None \<Rightarrow> item (centroid_values Q) vol_id))"

fun values_of_names ::
  "(string \<rightharpoonup> quantity) \<Rightarrow> string list \<Rightarrow> nat \<Rightarrow> nat option \<Rightarrow> nat option \<Rightarrow> exn + real list"
where
  "values_of_names qs [] vol_id vertex edge = Inr []"
| "values_of_names qs (name # names) vol_id vertex edge =
     (case qs name of
        None \<Rightarrow> Inl (KeyError (Quantity_name name))
      | Some Q \<Rightarrow>
         (case value_at Q vol_id vertex edge of
            Inl e \<Rightarrow> Inl e
          | Inr x \<Rightarrow>
             (case values_of_names qs names vol_id vertex edge of
                Inl e \<Rightarrow> Inl e
              | Inr xs \<Rightarrow> Inr (x # xs))))"

definition get_conserved_quantities ::
  "domain \<Rightarrow> nat \<Rightarrow> nat option \<Rightarrow> nat option \<Rightarrow> exn + real list" where
  "get_conserved_quantities d vol_id vertex edge =
     (if \<not> (vertex = None \<or> edge = None) then Inl (Exception Both_vertex_and_edge)
      else values_of_names (quantities d) (conserved_quantities d) vol_id vertex edge)"

definition get_evolved_quantities ::
  "domain \<Rightarrow> nat \<Rightarrow> nat option \<Rightarrow> nat option \<Rightarrow> exn + real list" where
  "get_evolved_quantities d vol_id vertex edge =
     (if \<not> (vertex = None \<or> edge = None) then Inl (Exception Both_vertex_and_edge)
      else values_of_names (quantities d) (evolved_quantities d) vol_id vertex edge)"

definition set_time :: "real \<Rightarrow> domain \<Rightarrow> domain" where
  "set_time t d = d\<lparr>time := t\<rparr>"

definition get_time :: "domain \<Rightarrow> real" where
  "get_time d = time d + starttime d"


definition set_default_order :: "nat \<Rightarrow> domain \<Rightarrow> domain outcome" where
  "set_default_order n d =
     (if n \<in> {1, 2} then Returns (d\<lparr>default_order := n, order := n\<rparr>)
      else Raises (AssertionError (Default_order_must_be_1_or_2 n)) d)"

text \<open>
  \<^verbatim>\<open>get_timestepping_method\<close> reads the attribute \<^verbatim>\<open>timestepping_method\<close>;
  \<^verbatim>\<open>set_timestepping_method\<close> writes it for a name, and for a number writes the attribute
  \<^verbatim>\<open>timetepping_method\<close>, as the source spells it.
\<close>

definition get_timestepping_method :: "domain \<Rightarrow> exn + string" where
  "get_timestepping_method d =
     (case timestepping_method d of
        None \<Rightarrow> Inl (AttributeError ''timestepping_method'')
      | Some m \<Rightarrow> Inr m)"

definition methods :: "string list" where
  "methods = [''euler'', ''rk2'', ''rk3'']"

fun set_timestepping_method :: "selector \<Rightarrow> domain \<Rightarrow> domain outcome" where
  "set_timestepping_method (Str s) d =
     (if s \<in> set methods then Returns (d\<lparr>timestepping_method := Some s\<rparr>)
      else Raises (Exception (Incorrect_timestepping_type (Str s))) d)"
| "set_timestepping_method (Num n) d =
     (if n \<in> {1, 2, 3} then Returns (d\<lparr>timetepping_method := Some (methods ! nat (n - 1))\<rparr>)
      else Raises (Exception (Incorrect_timestepping_type (Num n))) d)"

subsection \<open>Collaborators\<close>

text \<open>
  What the methods of the file call and the file does not define: constants of
  \<^verbatim>\<open>anuga.config\<close>, methods of class \<^verbatim>\<open>Quantity\<close>, the histogram helpers of
  \<^verbatim>\<open>anuga.utilities.numerical_tools\<close>, boundary objects, forcing terms, checkpointing, and the
  methods a subclass overrides. They are parameters of the model, collected in one record.

  Modelled from the spec: a flux kernel writes \<^verbatim>\<open>flux_timestep\<close>, \<^verbatim>\<open>max_speed\<close> and the
  quantities; a forcing term writes the quantities and may tighten \<^verbatim>\<open>flux_timestep\<close>; a
  boundary object reads the domain and returns a vector; none of them writes another
  attribute of the domain. An override that is \<open>None\<close> stands for the method of
  \<^verbatim>\<open>Generic_Domain\<close> itself.

  \<^verbatim>\<open>timestepping_statistics\<close> builds a text from wall-clock time and formatted floats;
  the text is a parameter, too.
\<close>

record collaborators =
  epsilon :: real
  single_precision :: real
  compute_fluxes_override ::
    "(domain \<Rightarrow> exn + real \<times> real list \<times> (string \<rightharpoonup> quantity)) option"
  conserved_values_to_evolved_values_override ::
    "(domain \<Rightarrow> real list \<Rightarrow> real list \<Rightarrow> exn + real list) option"
  forcing_term :: "object_ref \<Rightarrow> domain \<Rightarrow> exn + real \<times> (string \<rightharpoonup> quantity)"
  evaluate :: "object_ref \<Rightarrow> domain \<Rightarrow> nat \<Rightarrow> nat \<Rightarrow> exn + real list"
  quantity_update :: "domain \<Rightarrow> real \<Rightarrow> quantity \<Rightarrow> quantity"
  extrapolate_first_order :: "domain \<Rightarrow> quantity \<Rightarrow> quantity"
  extrapolate_second_order :: "domain \<Rightarrow> quantity \<Rightarrow> quantity"
  set_values :: "real \<Rightarrow> nat list \<Rightarrow> quantity \<Rightarrow> quantity"
  create_bins :: "real list \<Rightarrow> nat \<Rightarrow> real list"
  histogram :: "real list \<Rightarrow> real list \<Rightarrow> nat list"
  timestepping_statistics :: "domain \<Rightarrow> string"
  create_quantity_from_expression :: "domain \<Rightarrow> string \<Rightarrow> exn + quantity"
  get_maximum_value :: "quantity \<Rightarrow> nat list option \<Rightarrow> real"
  get_maximum_location :: "quantity \<Rightarrow> real \<times> real"
  get_minimum_value :: "quantity \<Rightarrow> nat list option \<Rightarrow> real"
  get_minimum_location :: "quantity \<Rightarrow> real \<times> real"
  goto_latest_checkpoint :: "domain \<Rightarrow> domain outcome"
  store_checkpoint :: "domain \<Rightarrow> domain outcome"
  delete_old_checkpoints :: "domain \<Rightarrow> domain outcome"

definition called :: "call \<Rightarrow> domain \<Rightarrow> domain" where
  "called c d = d\<lparr>calls := calls d @ [(c, time d)]\<rparr>"

subsection \<open>Boundary binding\<close>

text \<open>
  Modelled from the spec: \<^verbatim>\<open>get_boundary_tags\<close> is the mesh's accessor for the tags of
  the boundary-edge map.
\<close>

definition get_boundary_tags :: "domain \<Rightarrow> string list" where
  "get_boundary_tags d = remdups (map snd (boundary d))"

text \<open>
  The dictionary \<^verbatim>\<open>self.boundary\<close> is an association list read with \<open>map_of\<close>; its keys
  are \<open>remdups (map fst (boundary d))\<close>. The loop of \<^verbatim>\<open>set_boundary\<close> runs over the sorted
  keys and appends to \<^verbatim>\<open>self.boundary_objects\<close>.
\<close>

fun set_boundary_loop :: "(nat \<times> nat) list \<Rightarrow> domain \<Rightarrow> domain outcome" where
  "set_boundary_loop [] d = Returns d"
| "set_boundary_loop ((vol_id, edge_id) # x) d =
     (case map_of (boundary d) (vol_id, edge_id) of
        None \<Rightarrow> Raises (KeyError (Boundary_edge vol_id edge_id)) d
      | Some tag \<Rightarrow>
         (case boundary_map d of
            None \<Rightarrow> Raises (AttributeError ''has_key'') d
          | Some bm \<Rightarrow>
             (case bm tag of
                None \<Rightarrow> Raises (Exception (Tag_not_bound tag (get_boundary_tags d))) d
              | Some None \<Rightarrow> set_boundary_loop x d
              | Some (Some B) \<Rightarrow>
                 (case boundary_objects d of
                    None \<Rightarrow> Raises (AttributeError ''boundary_objects'') d
                  | Some objs \<Rightarrow>
                     (let d1 = d\<lparr>boundary_objects := Some (objs @ [((vol_id, edge_id), Some B)])\<rparr>
                      in case set_item2 (neighbours d1) vol_id edge_id (- int (length objs + 1)) of
                           Inl e \<Rightarrow> Raises e d1
                         | Inr ns \<Rightarrow> set_boundary_loop x (d1\<lparr>neighbours := ns\<rparr>))))))"

definition set_boundary :: "(string \<rightharpoonup> object_ref option) \<Rightarrow> domain \<Rightarrow> domain outcome" where
  "set_boundary new_map d =
     (let d1 = (case boundary_map d of
                  None \<Rightarrow> d\<lparr>boundary_map := Some new_map\<rparr>
                | Some old_map \<Rightarrow> d\<lparr>boundary_map := Some (old_map ++ new_map)\<rparr>);
          x = sort (remdups (map fst (boundary d1)))
      in set_boundary_loop x (d1\<lparr>boundary_objects := Some []\<rparr>))"

text \<open>
  For stating what \<^verbatim>\<open>set_boundary\<close> builds: the map in force after the merge, the object
  it binds to a boundary edge (\<open>None\<close> for an edge whose tag is bound to \<^verbatim>\<open>None\<close> or not
  bound at all), the boundary edges in the order of the loop, and the condition on the mesh
  that every boundary edge is an entry of \<^verbatim>\<open>neighbours\<close>.
\<close>

definition merged_boundary_map ::
  "(string \<rightharpoonup> object_ref option) \<Rightarrow> domain \<Rightarrow> (string \<rightharpoonup> object_ref option)" where
  "merged_boundary_map new_map d =
     (case boundary_map d of None \<Rightarrow> new_map | Some old_map \<Rightarrow> old_map ++ new_map)"

definition bound_object ::
  "(string \<rightharpoonup> object_ref option) \<Rightarrow> domain \<Rightarrow> nat \<times> nat \<Rightarrow> object_ref option" where
  "bound_object bm d k =
     (case map_of (boundary d) k of
        None \<Rightarrow> None
      | Some tag \<Rightarrow> (case bm tag of None \<Rightarrow> None | Some B \<Rightarrow> B))"

definition tag_bound :: "(string \<rightharpoonup> object_ref option) \<Rightarrow> domain \<Rightarrow> nat \<times> nat \<Rightarrow> bool" where
  "tag_bound bm d k =
     (case map_of (boundary d) k of None \<Rightarrow> False | Some tag \<Rightarrow> bm tag \<noteq> None)"

definition boundary_edges :: "domain \<Rightarrow> (nat \<times> nat) list" where
  "boundary_edges d = sort (remdups (map fst (boundary d)))"

definition edges_in_mesh :: "domain \<Rightarrow> bool" where
  "edges_in_mesh d =
     list_all (\<lambda>k. fst k < length (neighbours d) \<and> snd k < length (neighbours d ! fst k))
       (map fst (boundary d))"

subsection \<open>Boundary values\<close>

definition conserved_values_to_evolved_values :: "real list \<Rightarrow> real list \<Rightarrow> exn + real list" where
  "conserved_values_to_evolved_values q_cons q_evol =
     (if length q_cons = length q_evol then Inr q_cons
      else Inl (Exception Must_override_conserved_values_to_evolved_values))"

definition conserved_to_evolved ::
  "collaborators \<Rightarrow> domain \<Rightarrow> real list \<Rightarrow> real list \<Rightarrow> exn + real list" where
  "conserved_to_evolved X d q_cons q_evol =
     (case conserved_values_to_evolved_values_override X of
        None \<Rightarrow> conserved_values_to_evolved_values q_cons q_evol
      | Some f \<Rightarrow> f d q_cons q_evol)"

text \<open>
  The inner loop of \<^verbatim>\<open>update_boundary\<close>:
  \<^verbatim>\<open>for j, name in enumerate(self.evolved_quantities): Q.boundary_values[i] = q_evol[j]\<close>.
\<close>

fun write_boundary_values :: "nat \<Rightarrow> real list \<Rightarrow> nat \<Rightarrow> string list \<Rightarrow> domain \<Rightarrow> domain outcome"
where
  "write_boundary_values i q_evol j [] d = Returns d"
| "write_boundary_values i q_evol j (name # names) d =
     (case quantities d name of
        None \<Rightarrow> Raises (KeyError (Quantity_name name)) d
      | Some Q \<Rightarrow>
         (case item q_evol j of
            Inl e \<Rightarrow> Raises e d
          | Inr x \<Rightarrow>
             (case set_item (boundary_values Q) i x of
                Inl e \<Rightarrow> Raises e d
              | Inr bv \<Rightarrow>
                 write_boundary_values i q_evol (Suc j) names
                   (d\<lparr>quantities := (quantities d)(name \<mapsto> Q\<lparr>boundary_values := bv\<rparr>)\<rparr>))))"

definition update_boundary_entry ::
  "collaborators \<Rightarrow> nat \<Rightarrow> (nat \<times> nat) \<times> object_ref option \<Rightarrow> domain \<Rightarrow> domain outcome" where
  "update_boundary_entry X i entry d =
     (case entry of
        ((vol_id, edge_id), None) \<Rightarrow> Returns (d\<lparr>log := log d @ [Ignored_boundary_segment]\<rparr>)
      | ((vol_id, edge_id), Some B) \<Rightarrow>
         (case evaluate X B d vol_id edge_id of
            Inl e \<Rightarrow> Raises e d
          | Inr q_bdry \<Rightarrow>
             if length q_bdry = length (evolved_quantities d)
             then write_boundary_values i q_bdry 0 (evolved_quantities d) d
             else if length q_bdry = length (conserved_quantities d)
             then (case get_evolved_quantities d vol_id None (Some edge_id) of
                     Inl e \<Rightarrow> Raises e d
                   | Inr q_evol \<Rightarrow>
                      (case conserved_to_evolved X d q_bdry q_evol of
                         Inl e \<Rightarrow> Raises e d
                       | Inr q_evol' \<Rightarrow>
                          write_boundary_values i q_evol' 0 (evolved_quantities d) d))
             else Raises (Exception Boundary_must_return_conserved_or_evolved) d))"

fun update_boundary_loop ::
  "collaborators \<Rightarrow> nat \<Rightarrow> ((nat \<times> nat) \<times> object_ref option) list \<Rightarrow> domain \<Rightarrow> domain outcome"
where
  "update_boundary_loop X i [] d = Returns d"
| "update_boundary_loop X i (entry # entries) d =
     (case update_boundary_entry X i entry d of
        Raises e d' \<Rightarrow> Raises e d'
      | Returns d' \<Rightarrow> update_boundary_loop X (Suc i) entries d')"

definition update_boundary :: "collaborators \<Rightarrow> domain \<Rightarrow> domain outcome" where
  "update_boundary X d =
     (let d0 = called Update_boundary d
      in case boundary_objects d0 of
           None \<Rightarrow> Raises (AttributeError ''boundary_objects'') d0
         | Some objs \<Rightarrow> update_boundary_loop X 0 objs d0)"

subsection \<open>Centroid values: backup, combination, update, ghosts, reconstruction\<close>

text \<open>
  Modelled from the spec: the two methods of \<^verbatim>\<open>Quantity\<close> that save the centroid values
  and combine them with the saved ones, \<open>centroid \<leftarrow> a \<cdot> centroid + b \<cdot> backup\<close>.
\<close>

definition backup_centroid_values :: "quantity \<Rightarrow> quantity" where
  "backup_centroid_values Q = Q\<lparr>centroid_backup_values := centroid_values Q\<rparr>"

definition saxpy_centroid_values :: "real \<Rightarrow> real \<Rightarrow> quantity \<Rightarrow> quantity" where
  "saxpy_centroid_values a b Q =
     Q\<lparr>centroid_values :=
         map (\<lambda>(c, s). a * c + b * s) (zip (centroid_values Q) (centroid_backup_values Q))\<rparr>"

text \<open>
  \<^verbatim>\<open>for name in self.conserved_quantities: Q = self.quantities[name]; Q.f()\<close>, for a method
  \<open>f\<close> of the quantity.
\<close>

fun for_each_quantity :: "(quantity \<Rightarrow> quantity) \<Rightarrow> string list \<Rightarrow> domain \<Rightarrow> domain outcome" where
  "for_each_quantity f [] d = Returns d"
| "for_each_quantity f (name # names) d =
     (case quantities d name of
        None \<Rightarrow> Raises (KeyError (Quantity_name name)) d
      | Some Q \<Rightarrow> for_each_quantity f names (d\<lparr>quantities := (quantities d)(name \<mapsto> f Q)\<rparr>))"

definition backup_conserved_quantities :: "domain \<Rightarrow> domain outcome" where
  "backup_conserved_quantities d =
     (let d0 = called Backup_conserved_quantities d
      in for_each_quantity backup_centroid_values (conserved_quantities d0) d0)"

definition saxpy_conserved_quantities :: "real \<Rightarrow> real \<Rightarrow> domain \<Rightarrow> domain outcome" where
  "saxpy_conserved_quantities a b d =
     (let d0 = called (Saxpy_conserved_quantities a b) d
      in for_each_quantity (saxpy_centroid_values a b) (conserved_quantities d0) d0)"

definition update_conserved_quantities :: "collaborators \<Rightarrow> domain \<Rightarrow> domain outcome" where
  "update_conserved_quantities X d =
     (let d0 = called (Update_conserved_quantities (timestep d)) d
      in for_each_quantity (quantity_update X d0 (timestep d0)) (conserved_quantities d0) d0)"

text \<open>
  \<^verbatim>\<open>num.take(a, ind)\<close> reads \<open>a\<close> at the indices and \<^verbatim>\<open>num.put(a, ind, v)\<close> writes the values
  \<open>v\<close>, repeated as often as needed, at the indices; both raise \<^verbatim>\<open>IndexError\<close> for an
  index outside \<open>a\<close>.
\<close>

definition take_values :: "real list \<Rightarrow> nat list \<Rightarrow> exn + real list" where
  "take_values a ind =
     (if list_all (\<lambda>i. i < length a) ind then Inr (map (\<lambda>i. a ! i) ind)
      else Inl IndexError)"

definition put_values :: "real list \<Rightarrow> nat list \<Rightarrow> real list \<Rightarrow> exn + real list" where
  "put_values a ind v =
     (if \<not> list_all (\<lambda>i. i < length a) ind then Inl IndexError
      else if v = [] then Inr a
      else Inr (fold (\<lambda>k b. b[ind ! k := v ! (k mod length v)]) [0 ..< length ind] a))"

fun update_ghosts_loop :: "nat list \<Rightarrow> nat list \<Rightarrow> string list \<Rightarrow> domain \<Rightarrow> domain outcome" where
  "update_ghosts_loop Idf Idg [] d = Returns d"
| "update_ghosts_loop Idf Idg (q # qs) d =
     (case quantities d q of
        None \<Rightarrow> Raises (KeyError (Quantity_name q)) d
      | Some Q \<Rightarrow>
         (case take_values (centroid_values Q) Idf of
            Inl e \<Rightarrow> Raises e d
          | Inr v \<Rightarrow>
             (case put_values (centroid_values Q) Idg v of
                Inl e \<Rightarrow> Raises e d
              | Inr Q_cv \<Rightarrow>
                 update_ghosts_loop Idf Idg qs
                   (d\<lparr>quantities := (quantities d)(q \<mapsto> Q\<lparr>centroid_values := Q_cv\<rparr>)\<rparr>))))"

definition update_ghosts :: "domain \<Rightarrow> domain outcome" where
  "update_ghosts d =
     (let d0 = called Update_ghosts d; iproc = processor d0
      in case full_send_dict d0 iproc of
           None \<Rightarrow> Returns d0
         | Some Idf \<Rightarrow>
            (case ghost_recv_dict d0 iproc of
               None \<Rightarrow> Raises (KeyError (Processor iproc)) d0
             | Some Idg \<Rightarrow> update_ghosts_loop Idf Idg (conserved_quantities d0) d0))"

fun distribute_loop :: "collaborators \<Rightarrow> string list \<Rightarrow> domain \<Rightarrow> domain outcome" where
  "distribute_loop X [] d = Returns d"
| "distribute_loop X (name # names) d =
     (case quantities d name of
        None \<Rightarrow> Raises (KeyError (Quantity_name name)) d
      | Some Q \<Rightarrow>
         if order d = 1
         then distribute_loop X names
                (d\<lparr>quantities := (quantities d)(name \<mapsto> extrapolate_first_order X d Q)\<rparr>)
         else if order d = 2
         then distribute_loop X names
                (d\<lparr>quantities := (quantities d)(name \<mapsto> extrapolate_second_order X d Q)\<rparr>)
         else Raises (Exception Unknown_order) d)"

definition distribute_to_vertices_and_edges :: "collaborators \<Rightarrow> domain \<Rightarrow> domain outcome" where
  "distribute_to_vertices_and_edges X d =
     (let d0 = called Distribute_to_vertices_and_edges d
      in distribute_loop X (conserved_quantities d0) d0)"

subsection \<open>Fluxes and forcing terms\<close>

definition compute_fluxes :: "collaborators \<Rightarrow> domain \<Rightarrow> domain outcome" where
  "compute_fluxes X d =
     (let d0 = called Compute_fluxes d
      in case compute_fluxes_override X of
           None \<Rightarrow> Raises (Exception Must_override_compute_fluxes) d0
         | Some flux_kernel \<Rightarrow>
            (case flux_kernel d0 of
               Inl e \<Rightarrow> Raises e d0
             | Inr (dt, speeds, qs) \<Rightarrow>
                Returns (d0\<lparr>flux_timestep := dt, max_speed := speeds, quantities := qs\<rparr>)))"

fun compute_forcing_terms_loop :: "collaborators \<Rightarrow> object_ref list \<Rightarrow> domain \<Rightarrow> domain outcome"
where
  "compute_forcing_terms_loop X [] d = Returns d"
| "compute_forcing_terms_loop X (f # fs) d =
     (case forcing_term X f d of
        Inl e \<Rightarrow> Raises e d
      | Inr (dt, qs) \<Rightarrow>
         compute_forcing_terms_loop X fs (d\<lparr>flux_timestep := dt, quantities := qs\<rparr>))"

definition compute_forcing_terms :: "collaborators \<Rightarrow> domain \<Rightarrow> domain outcome" where
  "compute_forcing_terms X d =
     (let d0 = called Compute_forcing_terms d
      in compute_forcing_terms_loop X (forcing_terms d0) d0)"

subsection \<open>Protection against isolated degenerate timesteps\<close>

definition maximum :: "real list \<Rightarrow> real" where
  "maximum xs = fold max (tl xs) (hd xs)"

text \<open>
  The chained comparison \<^verbatim>\<open>hist[4] == hist[5] == hist[6] == hist[7] == hist[8] == 0\<close>: each
  element is read once, from the left, and the chain stops at the first comparison that
  fails; \<open>previous\<close> is the element read last.
\<close>

fun chain_equal :: "nat list \<Rightarrow> nat \<Rightarrow> nat list \<Rightarrow> exn + bool" where
  "chain_equal hist previous [] = Inr (previous = 0)"
| "chain_equal hist previous (i # is) =
     (case item hist i of
        Inl e \<Rightarrow> Inl e
      | Inr h \<Rightarrow> if previous = h then chain_equal hist h is else Inr False)"

definition characteristic_signature :: "nat list \<Rightarrow> exn + bool" where
  "characteristic_signature hist =
     (if \<not> length hist > 1 then Inr False
      else if \<not> last hist > 0 then Inr False
      else (case item hist 4 of
              Inl e \<Rightarrow> Inl e
            | Inr h \<Rightarrow> chain_equal hist h [5, 6, 7, 8]))"

text \<open>
  The loop \<^verbatim>\<open>for i in range(self.number_of_full_triangles)\<close>, as a recursion over the
  triangle numbers still to visit.
\<close>

fun ignore_triangles :: "collaborators \<Rightarrow> real list \<Rightarrow> nat list \<Rightarrow> domain \<Rightarrow> domain outcome" where
  "ignore_triangles X bins [] d = Returns d"
| "ignore_triangles X bins (i # is) d =
     (case item (max_speed d) i of
        Inl e \<Rightarrow> Raises e d
      | Inr speed \<Rightarrow>
         if bins = [] then Raises IndexError d
         else if speed > last bins
         then (case quantities d ''xmomentum'' of
                 None \<Rightarrow> Raises (KeyError (Quantity_name ''xmomentum'')) d
               | Some Qx \<Rightarrow>
                  (let d1 = d\<lparr>quantities := (quantities d)(''xmomentum'' \<mapsto> set_values X 0 [i] Qx)\<rparr>
                   in case quantities d1 ''ymomentum'' of
                        None \<Rightarrow> Raises (KeyError (Quantity_name ''ymomentum'')) d1
                      | Some Qy \<Rightarrow>
                         ignore_triangles X bins is
                           (d1\<lparr>quantities := (quantities d1)(''ymomentum'' \<mapsto> set_values X 0 [i] Qy),
                               max_speed := (max_speed d1)[i := 0]\<rparr>)))
         else ignore_triangles X bins is d)"

definition apply_protection_against_isolated_degenerate_timesteps ::
  "collaborators \<Rightarrow> domain \<Rightarrow> domain outcome" where
  "apply_protection_against_isolated_degenerate_timesteps X d =
     (if \<not> protect_against_isolated_degenerate_timesteps d then Returns d
      else if max_speed d = [] then Raises ValueError d
      else if maximum (max_speed d) < 10 then Returns d
      else (let bins = create_bins X (max_speed d) 10;
                hist = histogram X (max_speed d) bins
            in case characteristic_signature hist of
                 Inl e \<Rightarrow> Raises e d
               | Inr False \<Rightarrow> Returns d
               | Inr True \<Rightarrow> ignore_triangles X bins [0 ..< number_of_full_triangles d] d))"

subsection \<open>The timestep controller\<close>

text \<open>
  The block of \<^verbatim>\<open>update_timestep\<close> headed \<^verbatim>\<open>Protect against degenerate time steps\<close>. It
  works on the local variable \<^verbatim>\<open>timestep\<close> and on the domain, so its state is the pair of
  both: a raise shows the value the local variable has at that point.
\<close>

definition protect_against_degenerate_time_steps ::
  "collaborators \<Rightarrow> real \<times> domain \<Rightarrow> (real \<times> domain) outcome" where
  "protect_against_degenerate_time_steps X s =
     (case s of (dt, d) \<Rightarrow>
        if dt < evolve_min_timestep d
        then (let d1 = d\<lparr>smallsteps := smallsteps d + 1\<rparr>
              in if smallsteps d1 > max_smallsteps d1
                 then (let d2 = d1\<lparr>smallsteps := 0\<rparr>
                       in if order d2 = 1
                          then (let msg = Too_small_timestep dt (max_smallsteps d2);
                                    d3 = d2\<lparr>log := log d2 @ [msg]\<rparr>;
                                    dt' = evolve_min_timestep d3;
                                    stats = timestepping_statistics X d3;
                                    d4 = d3\<lparr>log := log d3 @ [Statistics stats]\<rparr>
                                in Raises (Exception msg) (dt', d4))
                          else Returns (dt, d2\<lparr>order := 1\<rparr>))
                 else Returns (dt, d1))
        else (let d1 = d\<lparr>smallsteps := 0\<rparr>
              in if order d1 = 1 \<and> default_order d1 = 2
                 then Returns (dt, d1\<lparr>order := 2\<rparr>)
                 else Returns (dt, d1)))"

definition cfl_timestep :: "domain \<Rightarrow> real" where
  "cfl_timestep d = min (CFL d * flux_timestep d) (evolve_max_timestep d)"

definition fit_finaltime :: "real option \<Rightarrow> domain \<Rightarrow> real \<Rightarrow> real" where
  "fit_finaltime tfinal d dt =
     (case tfinal of
        None \<Rightarrow> dt
      | Some T \<Rightarrow> if time d + dt > T then T - time d else dt)"

definition fit_yieldtime :: "domain \<Rightarrow> real \<Rightarrow> real" where
  "fit_yieldtime d dt =
     (if time d + dt > yieldtime d then yieldtime d - time d else dt)"

definition update_timestep ::
  "collaborators \<Rightarrow> real \<Rightarrow> real option \<Rightarrow> domain \<Rightarrow> domain outcome" where
  "update_timestep X yieldstep tfinal d =
     (case apply_protection_against_isolated_degenerate_timesteps X (called Update_timestep d) of
        Raises e d' \<Rightarrow> Raises e d'
      | Returns d0 \<Rightarrow>
         (let dt = cfl_timestep d0;
              d1 = d0\<lparr>recorded_max_timestep := max dt (recorded_max_timestep d0)\<rparr>;
              d2 = d1\<lparr>recorded_min_timestep := min dt (recorded_min_timestep d1)\<rparr>
          in case protect_against_degenerate_time_steps X (dt, d2) of
               Raises e (dt', d') \<Rightarrow> Raises e d'
             | Returns (dt', d') \<Rightarrow>
                Returns (d'\<lparr>timestep := fit_yieldtime d' (fit_finaltime tfinal d' dt')\<rparr>)))"

subsection \<open>Extrema\<close>




subsection \<open>Evolution steps\<close>

definition update_time :: "domain \<Rightarrow> domain outcome" where
  "update_time d = Returns (d\<lparr>time := time d + timestep d\<rparr>)"

definition set_substep_time :: "real \<Rightarrow> domain \<Rightarrow> domain outcome" where
  "set_substep_time t d = Returns (d\<lparr>time := t\<rparr>)"

definition evolve_one_euler_step ::
  "collaborators \<Rightarrow> real \<Rightarrow> real option \<Rightarrow> domain \<Rightarrow> domain outcome" where
  "evolve_one_euler_step X yieldstep tfinal =
     in_sequence
       [compute_fluxes X,
        compute_forcing_terms X,
        update_timestep X yieldstep tfinal,
        update_conserved_quantities X,
        update_ghosts,
        update_time,
        distribute_to_vertices_and_edges X,
        update_boundary X]"

definition evolve_one_rk2_step ::
  "collaborators \<Rightarrow> real \<Rightarrow> real option \<Rightarrow> domain \<Rightarrow> domain outcome" where
  "evolve_one_rk2_step X yieldstep tfinal =
     in_sequence
       [backup_conserved_quantities,
        compute_fluxes X,
        compute_forcing_terms X,
        update_timestep X yieldstep tfinal,
        update_conserved_quantities X,
        update_ghosts,
        update_time,
        distribute_to_vertices_and_edges X,
        update_boundary X,
        compute_fluxes X,
        compute_forcing_terms X,
        update_conserved_quantities X,
        saxpy_conserved_quantities (1 / 2) (1 / 2),
        update_ghosts,
        distribute_to_vertices_and_edges X,
        update_boundary X]"

text \<open>
  In \<^verbatim>\<open>evolve_one_rk3_step\<close> the local variable \<^verbatim>\<open>initial_time\<close> is read from
  \<^verbatim>\<open>self.time\<close> after the backup and used in the two later assignments to
  \<^verbatim>\<open>self.time\<close>.
\<close>

definition evolve_one_rk3_step ::
  "collaborators \<Rightarrow> real \<Rightarrow> real option \<Rightarrow> domain \<Rightarrow> domain outcome" where
  "evolve_one_rk3_step X yieldstep tfinal d =
     and_then (backup_conserved_quantities d)
       (\<lambda>d0. let initial_time = time d0
             in in_sequence
                  [compute_fluxes X,
                   compute_forcing_terms X,
                   update_timestep X yieldstep tfinal,
                   update_conserved_quantities X,
                   update_ghosts,
                   update_time,
                   distribute_to_vertices_and_edges X,
                   update_boundary X,
                   compute_fluxes X,
                   compute_forcing_terms X,
                   update_conserved_quantities X,
                   saxpy_conserved_quantities (1 / 4) (3 / 4),
                   update_ghosts,
                   (\<lambda>d1. set_substep_time (initial_time + timestep d1 * (1 / 2)) d1),
                   distribute_to_vertices_and_edges X,
                   update_boundary X,
                   compute_fluxes X,
                   compute_forcing_terms X,
                   update_conserved_quantities X,
                   saxpy_conserved_quantities (2 / 3) (1 / 3),
                   update_ghosts,
                   (\<lambda>d1. set_substep_time (initial_time + timestep d1) d1),
                   distribute_to_vertices_and_edges X,
                   update_boundary X] d0)"

subsection \<open>The evolve loop\<close>

text \<open>
  \<^verbatim>\<open>evolve\<close> is a generator. A run of it is modelled with the consumer taking every value
  it yields: the result is the list of the yielded times and the domain at the end, which
  is the normal end of the generator (\<open>Finished\<close>), an exception (\<open>Failed\<close>), or the
  state after as many passes through \<^verbatim>\<open>while True\<close> as the fuel allows (\<open>Suspended\<close>).
\<close>

datatype run =
    Finished "real list" domain
  | Failed exn "real list" domain
  | Suspended "real list" domain











subsection \<open>The clock of a domain\<close>

text \<open>
  For stating what an evolution step does to the time state: the model time, the timestep,
  the next yield time, the checkpoint flag and the recorded calls, taken together. The
  methods that neither choose the timestep nor set the time change the clock by recording
  their call.
\<close>

definition clock :: "domain \<Rightarrow> real \<times> real \<times> real \<times> bool \<times> (call \<times> real) list" where
  "clock d = (time d, timestep d, yieldtime d, checkpoint d, calls d)"

definition recorded ::
  "call \<Rightarrow> real \<times> real \<times> real \<times> bool \<times> (call \<times> real) list
    \<Rightarrow> real \<times> real \<times> real \<times> bool \<times> (call \<times> real) list" where
  "recorded c k = (case k of (t, dt, yt, cp, cs) \<Rightarrow> (t, dt, yt, cp, cs @ [(c, t)]))"

subsection \<open>The saved centroid values\<close>

text \<open>
  For stating what a step does with the values saved by the backup: the saved values of the
  quantities, by name. The methods of \<^verbatim>\<open>Quantity\<close> other than the backup and the
  combination, the flux kernel and the forcing terms are parameters; \<open>keeps_backup\<close> says of
  them that they leave the saved values alone.
\<close>

definition saved_values :: "domain \<Rightarrow> string \<Rightarrow> real list option" where
  "saved_values d name = map_option centroid_backup_values (quantities d name)"

definition keeps_backup :: "collaborators \<Rightarrow> bool" where
  "keeps_backup X \<longleftrightarrow>
     (\<forall>d dt Q. centroid_backup_values (quantity_update X d dt Q) = centroid_backup_values Q) \<and>
     (\<forall>d Q. centroid_backup_values (extrapolate_first_order X d Q) = centroid_backup_values Q) \<and>
     (\<forall>d Q. centroid_backup_values (extrapolate_second_order X d Q) = centroid_backup_values Q) \<and>
     (\<forall>v indices Q. centroid_backup_values (set_values X v indices Q) = centroid_backup_values Q) \<and>
     (\<forall>f d dt qs. forcing_term X f d = Inr (dt, qs) \<longrightarrow>
        (\<forall>name. map_option centroid_backup_values (qs name) = saved_values d name)) \<and>
     (\<forall>flux_kernel d dt speeds qs.
        compute_fluxes_override X = Some flux_kernel \<and> flux_kernel d = Inr (dt, speeds, qs) \<longrightarrow>
        (\<forall>name. map_option centroid_backup_values (qs name) = saved_values d name))"

subsection \<open>A small domain\<close>

text \<open>
  Two triangles that share the edge \<open>(0, 2)\<close> / \<open>(1, 1)\<close>, four boundary edges with three
  tags, and the three quantities of a shallow-water model, used to run the definitions on.
  The collaborators are the simplest ones: a flux kernel that asks for a timestep of 1 and
  changes nothing else, quantity methods that change nothing, boundary objects that return
  a vector of ones with as many entries as their number says.
\<close>

definition example_quantity :: "real \<Rightarrow> quantity" where
  "example_quantity c =
     \<lparr>centroid_values = [c, c],
      vertex_values = [[c, c, c], [c, c, c]],
      edge_values = [[c, c, c], [c, c, c]],
      boundary_values = [0, 0, 0, 0],
      explicit_update = [0, 0],
      semi_implicit_update = [0, 0],
      centroid_backup_values = [0, 0]\<rparr>"

definition example_domain :: domain where
  "example_domain =
     \<lparr>conserved_quantities = [''stage'', ''xmomentum'', ''ymomentum''],
      evolved_quantities = [''stage'', ''xmomentum'', ''ymomentum''],
      quantities = [''stage'' \<mapsto> example_quantity 10,
                    ''xmomentum'' \<mapsto> example_quantity 0,
                    ''ymomentum'' \<mapsto> example_quantity 0],
      forcing_terms = [],
      number_of_triangles = 2,
      number_of_full_triangles = 2,
      boundary = [((1, 2), ''wall''), ((0, 0), ''wall''), ((1, 0), ''open''), ((0, 1), ''ocean'')],
      neighbours = [[- 1, - 1, 1], [- 1, 0, - 1]],
      boundary_map = None,
      boundary_objects = None,
      full_send_dict = Map.empty,
      ghost_recv_dict = Map.empty,
      processor = 0,
      protect_against_isolated_degenerate_timesteps = False,
      default_order = 1,
      order = 1,
      smallsteps = 0,
      max_smallsteps = 50,
      number_of_steps = 0,
      number_of_first_order_steps = 0,
      CFL = 1,
      timestepping_method = Some ''euler'',
      timetepping_method = None,
      evolve_max_timestep = 1000,
      evolve_min_timestep = 1 / 1000000,
      time = 0,
      finaltime = None,
      yieldtime = 0,
      recorded_min_timestep = 0,
      recorded_max_timestep = 0,
      starttime = 0,
      timestep = 0,
      flux_timestep = 0,
      quantities_to_be_monitored = None,
      monitor_time_interval = None,
      monitor_indices = None,
      checkpoint = False,
      max_speed = [0, 0],
      log = [],
      calls = []\<rparr>"

definition example_collaborators :: collaborators where
  "example_collaborators =
     \<lparr>epsilon = 1 / 1000000000000,
      single_precision = 1 / 1000000,
      compute_fluxes_override = Some (\<lambda>d. Inr (1, max_speed d, quantities d)),
      conserved_values_to_evolved_values_override = None,
      forcing_term = (\<lambda>f d. Inr (flux_timestep d, quantities d)),
      evaluate = (\<lambda>B d vol_id edge_id. Inr (replicate B 1)),
      quantity_update = (\<lambda>d dt Q. Q),
      extrapolate_first_order = (\<lambda>d Q. Q),
      extrapolate_second_order = (\<lambda>d Q. Q),
      set_values = (\<lambda>v indices Q.
         Q\<lparr>centroid_values := fold (\<lambda>i cs. cs[i := v]) indices (centroid_values Q)\<rparr>),
      create_bins = (\<lambda>speeds n. map (\<lambda>k. real k * (maximum speeds / real n)) [0 ..< n]),
      histogram = (\<lambda>speeds bins.
         map (\<lambda>k. length (filter (\<lambda>s. bins ! k \<le> s \<and>
                                       (if Suc k < length bins then s < bins ! Suc k else True))
                           speeds))
           [0 ..< length bins]),
      timestepping_statistics = (\<lambda>d. ''statistics''),
      create_quantity_from_expression = (\<lambda>d name. Inl (KeyError (Quantity_name name))),
      get_maximum_value = (\<lambda>Q indices. maximum (centroid_values Q)),
      get_maximum_location = (\<lambda>Q. (0, 0)),
      get_minimum_value = (\<lambda>Q indices. - maximum (map uminus (centroid_values Q))),
      get_minimum_location = (\<lambda>Q. (0, 0)),
      goto_latest_checkpoint = Returns,
      store_checkpoint = Returns,
      delete_old_checkpoints = Returns\<rparr>"

section \<open>Properties\<close>

subsection \<open>Model time\<close>

text \<open>
  C10. \<^verbatim>\<open>set_time\<close> and \<^verbatim>\<open>get_time\<close> are not inverse to each other: \<^verbatim>\<open>set_time(t)\<close>
  stores \<open>t\<close> as the relative model time and \<^verbatim>\<open>get_time()\<close> returns the relative time plus
  \<^verbatim>\<open>starttime\<close>, so the one after the other gives \<open>t + starttime\<close> for every domain and
  every \<open>t\<close>, which is \<open>t\<close> exactly when \<^verbatim>\<open>starttime\<close> is 0.
\<close>

theorem get_time_after_set_time:
  "time (set_time t d) = t \<and>
   get_time (set_time t d) = t + starttime d \<and>
   (get_time (set_time t d) = t) = (starttime d = 0)"
  by (simp add: set_time_def get_time_def)

subsection \<open>The timestepping method\<close>

lemma set_timestepping_method_accepts:
  "returns_normally (set_timestepping_method a d) =
     (a \<in> {Str ''euler'', Str ''rk2'', Str ''rk3'', Num 1, Num 2, Num 3})"
  by (cases a) (auto simp: methods_def)

text \<open>
  C4. \<^verbatim>\<open>set_timestepping_method\<close> accepts the names \<^verbatim>\<open>euler\<close>, \<^verbatim>\<open>rk2\<close>, \<^verbatim>\<open>rk3\<close> and the
  numbers 1, 2, 3 and raises for anything else; after a call with a number,
  \<^verbatim>\<open>get_timestepping_method()\<close> should return the name that belongs to the number. The code
  accepts the number and returns normally, but stores the name in the attribute
  \<^verbatim>\<open>timetepping_method\<close>: \<^verbatim>\<open>get_timestepping_method()\<close> returns what it returned before the
  call. The theorem runs the call with the number 2 on any domain.
\<close>

theorem set_timestepping_method_number:
  "returns_normally (set_timestepping_method (Num 2) d) \<and>
   timetepping_method (state_of (set_timestepping_method (Num 2) d)) = Some ''rk2'' \<and>
   get_timestepping_method (state_of (set_timestepping_method (Num 2) d)) =
     get_timestepping_method d"
  by (simp add: methods_def get_timestepping_method_def)

lemma set_timestepping_method_number_example:
  "get_timestepping_method example_domain = Inr ''euler'' \<and>
   set_timestepping_method (Num 2) example_domain =
     Returns (example_domain\<lparr>timetepping_method := Some ''rk2''\<rparr>) \<and>
   get_timestepping_method (example_domain\<lparr>timetepping_method := Some ''rk2''\<rparr>) = Inr ''euler''"
  by (simp add: methods_def get_timestepping_method_def example_domain_def)

subsection \<open>Reading the quantities of a cell\<close>

lemma values_of_names_length:
  "values_of_names qs names c vertex edge = Inr q \<Longrightarrow> length q = length names"
  by (induction names arbitrary: q) (auto split: option.splits sum.splits)

lemma values_of_names_nth:
  "values_of_names qs names c vertex edge = Inr q \<Longrightarrow> i < length names \<Longrightarrow>
   \<exists>Q. qs (names ! i) = Some Q \<and> value_at Q c vertex edge = Inr (q ! i)"
proof (induction names arbitrary: q i)
  case Nil
  then show ?case by simp
next
  case (Cons name names)
  from Cons.prems(1) obtain Q x xs where Q: "qs name = Some Q"
    and x: "value_at Q c vertex edge = Inr x"
    and xs: "values_of_names qs names c vertex edge = Inr xs" and q: "q = x # xs"
    by (auto split: option.splits sum.splits)
  show ?case
  proof (cases i)
    case 0
    with Q x q show ?thesis by simp
  next
    case (Suc k)
    with Cons.prems(2) have "k < length names" by simp
    with Cons.IH [OF xs] obtain Q' where "qs (names ! k) = Some Q'"
      and "value_at Q' c vertex edge = Inr (xs ! k)" by blast
    with Suc q show ?thesis by simp
  qed
qed

lemma values_of_names_total:
  assumes "\<And>name. name \<in> set names \<Longrightarrow> \<exists>Q x. qs name = Some Q \<and> value_at Q c vertex edge = Inr x"
  shows "\<exists>q. values_of_names qs names c vertex edge = Inr q"
  using assms
proof (induction names)
  case Nil
  then show ?case by simp
next
  case (Cons name names)
  have "\<exists>Q x. qs name = Some Q \<and> value_at Q c vertex edge = Inr x"
    by (rule Cons.prems) simp
  then obtain Q x where Q: "qs name = Some Q" and x: "value_at Q c vertex edge = Inr x"
    by blast
  have "\<exists>q. values_of_names qs names c vertex edge = Inr q"
  proof (rule Cons.IH)
    fix n assume "n \<in> set names"
    then show "\<exists>Q x. qs n = Some Q \<and> value_at Q c vertex edge = Inr x"
      using Cons.prems [of n] by simp
  qed
  then obtain q where "values_of_names qs names c vertex edge = Inr q" by blast
  with Q x show ?case by simp
qed

text \<open>
  C9. For every cell, \<^verbatim>\<open>get_conserved_quantities\<close> and \<^verbatim>\<open>get_evolved_quantities\<close> raise an
  exception when both \<^verbatim>\<open>vertex\<close> and \<^verbatim>\<open>edge\<close> are given; with neither they read the
  centroid values; the vector they return is as long as the list of names, and its entry
  \<open>i\<close> is read from the quantity named at position \<open>i\<close> of that list. When every name has a
  quantity and the cell is inside its centroid array, the call with neither returns.
\<close>

theorem get_quantities_contract:
  "get_conserved_quantities d c (Some v) (Some e) = Inl (Exception Both_vertex_and_edge) \<and>
   get_evolved_quantities d c (Some v) (Some e) = Inl (Exception Both_vertex_and_edge) \<and>
   value_at Q c None None = item (centroid_values Q) c \<and>
   ((vertex = None \<or> edge = None) \<and> get_conserved_quantities d c vertex edge = Inr q \<longrightarrow>
      length q = length (conserved_quantities d) \<and>
      (\<forall>i < length q. \<exists>Q. quantities d (conserved_quantities d ! i) = Some Q \<and>
                           value_at Q c vertex edge = Inr (q ! i))) \<and>
   ((vertex = None \<or> edge = None) \<and> get_evolved_quantities d c vertex edge = Inr q' \<longrightarrow>
      length q' = length (evolved_quantities d) \<and>
      (\<forall>i < length q'. \<exists>Q. quantities d (evolved_quantities d ! i) = Some Q \<and>
                            value_at Q c vertex edge = Inr (q' ! i))) \<and>
   ((\<forall>name \<in> set (conserved_quantities d).
        \<exists>Q. quantities d name = Some Q \<and> c < length (centroid_values Q)) \<longrightarrow>
      (\<exists>q. get_conserved_quantities d c None None = Inr q)) \<and>
   ((\<forall>name \<in> set (evolved_quantities d).
        \<exists>Q. quantities d name = Some Q \<and> c < length (centroid_values Q)) \<longrightarrow>
      (\<exists>q. get_evolved_quantities d c None None = Inr q))"
proof -
  have both: "get_conserved_quantities d c (Some v) (Some e) = Inl (Exception Both_vertex_and_edge)"
    "get_evolved_quantities d c (Some v) (Some e) = Inl (Exception Both_vertex_and_edge)"
    by (simp_all add: get_conserved_quantities_def get_evolved_quantities_def)
  have centroid: "value_at Q c None None = item (centroid_values Q) c"
    by (simp add: value_at_def)
  have entries: "length r = length names \<and>
      (\<forall>i < length r. \<exists>Q. quantities d (names ! i) = Some Q \<and> value_at Q c vertex edge = Inr (r ! i))"
    if "values_of_names (quantities d) names c vertex edge = Inr r" for names r
    using values_of_names_length [OF that] values_of_names_nth [OF that] by simp
  have total: "\<exists>r. values_of_names (quantities d) names c None None = Inr r"
    if "\<forall>name \<in> set names. \<exists>Q. quantities d name = Some Q \<and> c < length (centroid_values Q)"
    for names
  proof (rule values_of_names_total)
    fix name assume "name \<in> set names"
    with that obtain Q where "quantities d name = Some Q" "c < length (centroid_values Q)"
      by blast
    then show "\<exists>Q x. quantities d name = Some Q \<and> value_at Q c None None = Inr x"
      by (simp add: value_at_def item_def)
  qed
  have cons: "(vertex = None \<or> edge = None) \<and> get_conserved_quantities d c vertex edge = Inr q \<longrightarrow>
      length q = length (conserved_quantities d) \<and>
      (\<forall>i < length q. \<exists>Q. quantities d (conserved_quantities d ! i) = Some Q \<and>
                           value_at Q c vertex edge = Inr (q ! i))"
    using entries [of "conserved_quantities d" q]
    by (auto simp: get_conserved_quantities_def)
  have evol: "(vertex = None \<or> edge = None) \<and> get_evolved_quantities d c vertex edge = Inr q' \<longrightarrow>
      length q' = length (evolved_quantities d) \<and>
      (\<forall>i < length q'. \<exists>Q. quantities d (evolved_quantities d ! i) = Some Q \<and>
                            value_at Q c vertex edge = Inr (q' ! i))"
    using entries [of "evolved_quantities d" q']
    by (auto simp: get_evolved_quantities_def)
  have tc: "(\<forall>name \<in> set (conserved_quantities d).
        \<exists>Q. quantities d name = Some Q \<and> c < length (centroid_values Q)) \<longrightarrow>
      (\<exists>q. get_conserved_quantities d c None None = Inr q)"
    using total [of "conserved_quantities d"] by (simp add: get_conserved_quantities_def)
  have te: "(\<forall>name \<in> set (evolved_quantities d).
        \<exists>Q. quantities d name = Some Q \<and> c < length (centroid_values Q)) \<longrightarrow>
      (\<exists>q. get_evolved_quantities d c None None = Inr q)"
    using total [of "evolved_quantities d"] by (simp add: get_evolved_quantities_def)
  from both centroid cons evol tc te show ?thesis by blast
qed

theorem get_quantities_contract_witness:
  "get_conserved_quantities example_domain 1 None None = Inr [10, 0, 0] \<and>
   get_evolved_quantities example_domain 1 None None = Inr [10, 0, 0] \<and>
   length [10, 0, 0 :: real] = length (conserved_quantities example_domain) \<and>
   (\<exists>Q. quantities example_domain (conserved_quantities example_domain ! 0) = Some Q \<and>
        value_at Q 1 None None = Inr ([10, 0, 0] ! 0)) \<and>
   get_conserved_quantities example_domain 1 (Some 2) (Some 0) = Inl (Exception Both_vertex_and_edge)"
proof -
  have c: "get_conserved_quantities example_domain 1 None None = Inr [10, 0, 0]"
    and e: "get_evolved_quantities example_domain 1 None None = Inr [10, 0, 0]"
    by (simp_all add: get_conserved_quantities_def get_evolved_quantities_def example_domain_def
        example_quantity_def value_at_def item_def)
  note t = get_quantities_contract [of example_domain 1 2 0 undefined None None "[10, 0, 0]" "[10, 0, 0]"]
  from t c have all: "\<forall>i < length [10, 0, 0 :: real].
      \<exists>Q. quantities example_domain (conserved_quantities example_domain ! i) = Some Q \<and>
          value_at Q 1 None None = Inr ([10, 0, 0] ! i)" by blast
  have "\<exists>Q. quantities example_domain (conserved_quantities example_domain ! 0) = Some Q \<and>
      value_at Q 1 None None = Inr ([10, 0, 0] ! 0)"
    by (rule all [rule_format]) simp
  moreover from t c have "length [10, 0, 0 :: real] = length (conserved_quantities example_domain)"
    by blast
  moreover from t have "get_conserved_quantities example_domain 1 (Some 2) (Some 0) =
      Inl (Exception Both_vertex_and_edge)" by blast
  ultimately show ?thesis using c e by blast
qed

subsection \<open>The timestep controller\<close>

lemma ignore_triangles_frame:
  "ignore_triangles X bins is d = Returns d' \<Longrightarrow> \<exists>q m. d' = d\<lparr>quantities := q, max_speed := m\<rparr>"
proof (induction "is" arbitrary: d)
  case Nil
  then have "d' = d\<lparr>quantities := quantities d, max_speed := max_speed d\<rparr>" by simp
  then show ?case by blast
next
  case (Cons i "is")
  show ?case
  proof (cases "item (max_speed d) i")
    case (Inl e)
    with Cons.prems show ?thesis by simp
  next
    case (Inr speed)
    show ?thesis
    proof (cases "bins \<noteq> [] \<and> speed > last bins")
      case False
      with Cons.prems Inr have "ignore_triangles X bins is d = Returns d'"
        by (auto split: if_splits)
      then show ?thesis by (rule Cons.IH)
    next
      case True
      with Cons.prems Inr obtain d2 qx mx where "ignore_triangles X bins is d2 = Returns d'"
        and "d2 = d\<lparr>quantities := qx, max_speed := mx\<rparr>"
        by (auto simp: Let_def split: option.splits)
      with Cons.IH [of d2] obtain q m where "d' = d\<lparr>quantities := q, max_speed := m\<rparr>"
        by auto
      then show ?thesis by blast
    qed
  qed
qed

lemma apply_protection_frame:
  "apply_protection_against_isolated_degenerate_timesteps X d = Returns d' \<Longrightarrow>
   \<exists>q m. d' = d\<lparr>quantities := q, max_speed := m\<rparr>"
proof -
  assume r: "apply_protection_against_isolated_degenerate_timesteps X d = Returns d'"
  have same: "\<exists>q m. d = d\<lparr>quantities := q, max_speed := m\<rparr>"
    by (rule exI [of _ "quantities d"], rule exI [of _ "max_speed d"]) simp
  show ?thesis
  proof (cases "d' = d")
    case True
    with same show ?thesis by simp
  next
    case False
    with r have "ignore_triangles X (create_bins X (max_speed d) 10)
        [0 ..< number_of_full_triangles d] d = Returns d'"
      by (auto simp: apply_protection_against_isolated_degenerate_timesteps_def Let_def
          split: if_splits sum.splits bool.splits)
    then show ?thesis by (rule ignore_triangles_frame)
  qed
qed

lemma protect_returns:
  "protect_against_degenerate_time_steps X (dt, d) = Returns (dt', d') \<Longrightarrow>
   dt' = dt \<and> (\<exists>n k. d' = d\<lparr>smallsteps := n, order := k\<rparr>)"
proof -
  assume r: "protect_against_degenerate_time_steps X (dt, d) = Returns (dt', d')"
  have a: "\<exists>n k. d\<lparr>smallsteps := m\<rparr> = d\<lparr>smallsteps := n, order := k\<rparr>" for m
    by (rule exI [of _ m], rule exI [of _ "order d"]) simp
  have b: "\<exists>n k. d\<lparr>smallsteps := m, order := j\<rparr> = d\<lparr>smallsteps := n, order := k\<rparr>" for m j
    by blast
  from r show ?thesis
    using a b
    by (auto simp: protect_against_degenerate_time_steps_def Let_def split: if_splits)
qed

lemma fit_frame:
  "time d' = time d \<Longrightarrow> yieldtime d' = yieldtime d \<Longrightarrow>
   fit_yieldtime d' (fit_finaltime tfinal d' x) = fit_yieldtime d (fit_finaltime tfinal d x)"
  by (simp add: fit_yieldtime_def fit_finaltime_def split: option.splits)

lemma update_timestep_returns:
  assumes "update_timestep X yieldstep tfinal d = Returns d'"
  shows "\<exists>q m rmax rmin n k.
           d' = d\<lparr>quantities := q, max_speed := m, recorded_max_timestep := rmax,
                  recorded_min_timestep := rmin, smallsteps := n, order := k,
                  calls := calls d @ [(Update_timestep, time d)],
                  timestep := fit_yieldtime d (fit_finaltime tfinal d (cfl_timestep d))\<rparr>"
proof -
  from assms obtain d0 where d0:
    "apply_protection_against_isolated_degenerate_timesteps X (called Update_timestep d) = Returns d0"
    by (auto simp: update_timestep_def split: outcome.splits)
  then obtain q m where q: "d0 = (called Update_timestep d)\<lparr>quantities := q, max_speed := m\<rparr>"
    using apply_protection_frame by blast
  define d2 where "d2 = d0\<lparr>recorded_max_timestep := max (cfl_timestep d0) (recorded_max_timestep d0),
      recorded_min_timestep := min (cfl_timestep d0) (recorded_min_timestep d0)\<rparr>"
  from assms d0 obtain dt' d3 where p:
    "protect_against_degenerate_time_steps X (cfl_timestep d0, d2) = Returns (dt', d3)"
    and d': "d' = d3\<lparr>timestep := fit_yieldtime d3 (fit_finaltime tfinal d3 dt')\<rparr>"
    by (auto simp: update_timestep_def Let_def d2_def split: outcome.splits prod.splits)
  from protect_returns [OF p] obtain n k where dt': "dt' = cfl_timestep d0"
    and d3: "d3 = d2\<lparr>smallsteps := n, order := k\<rparr>" by blast
  have c: "cfl_timestep d0 = cfl_timestep d"
    by (simp add: q cfl_timestep_def called_def)
  have f: "fit_yieldtime d3 (fit_finaltime tfinal d3 dt') =
      fit_yieldtime d (fit_finaltime tfinal d (cfl_timestep d))"
    unfolding dt' c by (rule fit_frame) (simp_all add: d3 d2_def q called_def)
  have "d' = d\<lparr>quantities := q, max_speed := m,
      recorded_max_timestep := max (cfl_timestep d0) (recorded_max_timestep d0),
      recorded_min_timestep := min (cfl_timestep d0) (recorded_min_timestep d0),
      smallsteps := n, order := k,
      calls := calls d @ [(Update_timestep, time d)],
      timestep := fit_yieldtime d (fit_finaltime tfinal d (cfl_timestep d))\<rparr>"
    unfolding d' f by (simp add: d3 d2_def q called_def)
  then show ?thesis by blast
qed

lemma fit_bounds:
  "fit_yieldtime d (fit_finaltime tfinal d dt) \<le> dt \<and>
   time d + fit_yieldtime d (fit_finaltime tfinal d dt) \<le> yieldtime d \<and>
   (\<forall>T. tfinal = Some T \<longrightarrow> time d + fit_yieldtime d (fit_finaltime tfinal d dt) \<le> T) \<and>
   fit_yieldtime d (fit_finaltime tfinal d dt) =
     min (min dt (case tfinal of None \<Rightarrow> dt | Some T \<Rightarrow> T - time d)) (yieldtime d - time d)"
  by (cases tfinal) (auto simp: fit_yieldtime_def fit_finaltime_def min_def)

lemma returns_state: "returns_normally r \<Longrightarrow> r = Returns (state_of r)"
  by (cases r) simp_all

text \<open>
  C1 (as amended). A call of \<^verbatim>\<open>update_timestep(yieldstep, finaltime)\<close> that returns normally
  leaves a \<^verbatim>\<open>timestep\<close> that is at most \<^verbatim>\<open>evolve_max_timestep\<close> and overshoots neither
  \<^verbatim>\<open>finaltime\<close> (when given) nor the next \<^verbatim>\<open>yieldtime\<close>: it is the least of the CFL-limited
  timestep \<open>min (CFL \<cdot> flux_timestep) evolve_max_timestep\<close>, \<open>finaltime - time\<close> and
  \<open>yieldtime - time\<close>. It is at least \<^verbatim>\<open>evolve_min_timestep\<close> exactly when each of the three
  is. The call changes neither the time nor the yield time nor the two bounds.
\<close>

theorem update_timestep_bounds:
  assumes "update_timestep X yieldstep tfinal d = Returns d'"
  shows "timestep d' \<le> evolve_max_timestep d' \<and>
         time d' + timestep d' \<le> yieldtime d' \<and>
         (\<forall>T. tfinal = Some T \<longrightarrow> time d' + timestep d' \<le> T) \<and>
         timestep d' =
           min (min (cfl_timestep d') (case tfinal of None \<Rightarrow> cfl_timestep d' | Some T \<Rightarrow> T - time d'))
               (yieldtime d' - time d') \<and>
         (evolve_min_timestep d' \<le> timestep d') =
           (evolve_min_timestep d' \<le> cfl_timestep d' \<and>
            evolve_min_timestep d' \<le> yieldtime d' - time d' \<and>
            (case tfinal of None \<Rightarrow> True | Some T \<Rightarrow> evolve_min_timestep d' \<le> T - time d')) \<and>
         time d' = time d \<and> yieldtime d' = yieldtime d \<and>
         evolve_max_timestep d' = evolve_max_timestep d \<and>
         evolve_min_timestep d' = evolve_min_timestep d \<and>
         cfl_timestep d' = cfl_timestep d"
proof -
  from update_timestep_returns [OF assms] obtain q m rmax rmin n k where
    d': "d' = d\<lparr>quantities := q, max_speed := m, recorded_max_timestep := rmax,
                  recorded_min_timestep := rmin, smallsteps := n, order := k,
                  calls := calls d @ [(Update_timestep, time d)],
                  timestep := fit_yieldtime d (fit_finaltime tfinal d (cfl_timestep d))\<rparr>"
    by blast
  have frame: "time d' = time d" "yieldtime d' = yieldtime d"
    "evolve_max_timestep d' = evolve_max_timestep d"
    "evolve_min_timestep d' = evolve_min_timestep d"
    "cfl_timestep d' = cfl_timestep d"
    "timestep d' = fit_yieldtime d (fit_finaltime tfinal d (cfl_timestep d))"
    by (simp_all add: d' cfl_timestep_def)
  note fit = fit_bounds [of d tfinal "cfl_timestep d"]
  have le_max: "cfl_timestep d \<le> evolve_max_timestep d"
    by (simp add: cfl_timestep_def)
  have lower: "(evolve_min_timestep d \<le>
       min (min (cfl_timestep d) (case tfinal of None \<Rightarrow> cfl_timestep d | Some T \<Rightarrow> T - time d))
           (yieldtime d - time d)) =
      (evolve_min_timestep d \<le> cfl_timestep d \<and>
       evolve_min_timestep d \<le> yieldtime d - time d \<and>
       (case tfinal of None \<Rightarrow> True | Some T \<Rightarrow> evolve_min_timestep d \<le> T - time d))"
    by (cases tfinal) auto
  from fit le_max lower show ?thesis
    unfolding frame by auto
qed

lemmas run_update_timestep =
  update_timestep_def apply_protection_against_isolated_degenerate_timesteps_def called_def
  cfl_timestep_def protect_against_degenerate_time_steps_def fit_yieldtime_def
  fit_finaltime_def example_domain_def Let_def

theorem update_timestep_bounds_witness:
  "update_timestep example_collaborators 1 (Some 5)
     (example_domain\<lparr>flux_timestep := 3, yieldtime := 2\<rparr>) =
   Returns (state_of (update_timestep example_collaborators 1 (Some 5)
     (example_domain\<lparr>flux_timestep := 3, yieldtime := 2\<rparr>))) \<and>
   timestep (state_of (update_timestep example_collaborators 1 (Some 5)
     (example_domain\<lparr>flux_timestep := 3, yieldtime := 2\<rparr>))) = 2 \<and>
   timestep (state_of (update_timestep example_collaborators 1 (Some 5)
     (example_domain\<lparr>flux_timestep := 3, yieldtime := 2\<rparr>)))
     \<le> evolve_max_timestep (state_of (update_timestep example_collaborators 1 (Some 5)
          (example_domain\<lparr>flux_timestep := 3, yieldtime := 2\<rparr>)))"
proof -
  let ?r = "update_timestep example_collaborators 1 (Some 5)
     (example_domain\<lparr>flux_timestep := 3, yieldtime := 2\<rparr>)"
  have n: "returns_normally ?r" by (simp add: run_update_timestep)
  then have r: "?r = Returns (state_of ?r)" by (rule returns_state)
  have t: "timestep (state_of ?r) = 2" by (simp add: run_update_timestep)
  from update_timestep_bounds [OF r] have "timestep (state_of ?r) \<le> evolve_max_timestep (state_of ?r)"
    by blast
  with r t show ?thesis by blast
qed

text \<open>
  The claim as it was stated also asks for \<open>evolve_min_timestep \<le> timestep\<close> after every
  normal return. A flux timestep of \<open>10\<^sup>-\<^sup>7\<close> with \<^verbatim>\<open>evolve_min_timestep\<close> \<open>= 10\<^sup>-\<^sup>6\<close> and
  no small step counted so far returns normally with the timestep \<open>10\<^sup>-\<^sup>7\<close>.
\<close>

theorem update_timestep_below_min:
  "returns_normally
     (update_timestep example_collaborators 1 None
        (example_domain\<lparr>flux_timestep := 1 / 10000000, yieldtime := 1\<rparr>)) \<and>
   timestep (state_of
     (update_timestep example_collaborators 1 None
        (example_domain\<lparr>flux_timestep := 1 / 10000000, yieldtime := 1\<rparr>))) = 1 / 10000000 \<and>
   evolve_min_timestep (state_of
     (update_timestep example_collaborators 1 None
        (example_domain\<lparr>flux_timestep := 1 / 10000000, yieldtime := 1\<rparr>))) = 1 / 1000000 \<and>
   timestep (state_of
     (update_timestep example_collaborators 1 None
        (example_domain\<lparr>flux_timestep := 1 / 10000000, yieldtime := 1\<rparr>)))
   < evolve_min_timestep (state_of
     (update_timestep example_collaborators 1 None
        (example_domain\<lparr>flux_timestep := 1 / 10000000, yieldtime := 1\<rparr>)))"
  by (simp add: run_update_timestep)

lemma protect_against_degenerate_time_steps_cases:
  "(dt < evolve_min_timestep d \<and> smallsteps d + 1 \<le> max_smallsteps d \<longrightarrow>
      protect_against_degenerate_time_steps X (dt, d) =
        Returns (dt, d\<lparr>smallsteps := smallsteps d + 1\<rparr>)) \<and>
   (dt < evolve_min_timestep d \<and> smallsteps d + 1 > max_smallsteps d \<and> order d = 1 \<longrightarrow>
      protect_against_degenerate_time_steps X (dt, d) =
        Raises (Exception (Too_small_timestep dt (max_smallsteps d)))
          (evolve_min_timestep d,
           d\<lparr>smallsteps := 0,
             log := log d @
               [Too_small_timestep dt (max_smallsteps d),
                Statistics (timestepping_statistics X
                  (d\<lparr>smallsteps := 0,
                     log := log d @ [Too_small_timestep dt (max_smallsteps d)]\<rparr>))]\<rparr>)) \<and>
   (dt < evolve_min_timestep d \<and> smallsteps d + 1 > max_smallsteps d \<and> order d \<noteq> 1 \<longrightarrow>
      protect_against_degenerate_time_steps X (dt, d) =
        Returns (dt, d\<lparr>smallsteps := 0, order := 1\<rparr>)) \<and>
   (\<not> dt < evolve_min_timestep d \<and> order d = 1 \<and> default_order d = 2 \<longrightarrow>
      protect_against_degenerate_time_steps X (dt, d) =
        Returns (dt, d\<lparr>smallsteps := 0, order := 2\<rparr>)) \<and>
   (\<not> dt < evolve_min_timestep d \<and> \<not> (order d = 1 \<and> default_order d = 2) \<longrightarrow>
      protect_against_degenerate_time_steps X (dt, d) = Returns (dt, d\<lparr>smallsteps := 0\<rparr>))"
  by (simp add: protect_against_degenerate_time_steps_def Let_def)

lemma update_timestep_unfold:
  assumes "apply_protection_against_isolated_degenerate_timesteps X (called Update_timestep d) =
             Returns d0"
  shows "\<exists>d2. update_timestep X yieldstep tfinal d =
           (case protect_against_degenerate_time_steps X (cfl_timestep d, d2) of
              Raises e (dt', d') \<Rightarrow> Raises e d'
            | Returns (dt', d') \<Rightarrow>
               Returns (d'\<lparr>timestep := fit_yieldtime d' (fit_finaltime tfinal d' dt')\<rparr>)) \<and>
         evolve_min_timestep d2 = evolve_min_timestep d \<and> smallsteps d2 = smallsteps d \<and>
         max_smallsteps d2 = max_smallsteps d \<and> order d2 = order d \<and>
         default_order d2 = default_order d \<and> log d2 = log d \<and> timestep d2 = timestep d"
proof -
  from apply_protection_frame [OF assms] obtain q m where
    q: "d0 = (called Update_timestep d)\<lparr>quantities := q, max_speed := m\<rparr>" by blast
  have c: "cfl_timestep d0 = cfl_timestep d"
    by (simp add: q cfl_timestep_def called_def)
  define d2 where "d2 = d0\<lparr>recorded_max_timestep := max (cfl_timestep d) (recorded_max_timestep d0),
      recorded_min_timestep := min (cfl_timestep d) (recorded_min_timestep d0)\<rparr>"
  have "update_timestep X yieldstep tfinal d =
           (case protect_against_degenerate_time_steps X (cfl_timestep d, d2) of
              Raises e (dt', d') \<Rightarrow> Raises e d'
            | Returns (dt', d') \<Rightarrow>
               Returns (d'\<lparr>timestep := fit_yieldtime d' (fit_finaltime tfinal d' dt')\<rparr>))"
    by (simp add: update_timestep_def assms Let_def c d2_def)
  moreover have "evolve_min_timestep d2 = evolve_min_timestep d \<and> smallsteps d2 = smallsteps d \<and>
         max_smallsteps d2 = max_smallsteps d \<and> order d2 = order d \<and>
         default_order d2 = default_order d \<and> log d2 = log d \<and> timestep d2 = timestep d"
    by (simp add: d2_def q called_def)
  ultimately show ?thesis by blast
qed

text \<open>
  C2. In \<^verbatim>\<open>update_timestep\<close> (once the protection against isolated triangles has returned),
  with the CFL-limited timestep below \<^verbatim>\<open>evolve_min_timestep\<close> the counter \<^verbatim>\<open>smallsteps\<close>
  goes up by one; when it then exceeds \<^verbatim>\<open>max_smallsteps\<close> it is reset, and with the active
  order 1 the local timestep is set to \<^verbatim>\<open>evolve_min_timestep\<close>, the warning and the
  timestepping statistics are logged and the exception is raised (the attribute
  \<^verbatim>\<open>timestep\<close> keeps its value), while with another order the active order becomes 1 and
  the call returns. With the timestep at least \<^verbatim>\<open>evolve_min_timestep\<close> the counter is reset
  to 0, and an active order 1 under a default order 2 goes back to 2.
\<close>

theorem small_step_protection:
  fixes X yieldstep tfinal d
  defines "R \<equiv> update_timestep X yieldstep tfinal d"
  assumes "returns_normally
             (apply_protection_against_isolated_degenerate_timesteps X (called Update_timestep d))"
  shows "(dt < evolve_min_timestep d' \<and> smallsteps d' + 1 > max_smallsteps d' \<and> order d' = 1 \<longrightarrow>
            fst (state_of (protect_against_degenerate_time_steps X (dt, d'))) =
              evolve_min_timestep d') \<and>
         (cfl_timestep d < evolve_min_timestep d \<and> smallsteps d + 1 \<le> max_smallsteps d \<longrightarrow>
            returns_normally R \<and> smallsteps (state_of R) = smallsteps d + 1 \<and>
            order (state_of R) = order d) \<and>
         (cfl_timestep d < evolve_min_timestep d \<and> smallsteps d + 1 > max_smallsteps d \<and>
          order d = 1 \<longrightarrow>
            R = Raises (Exception (Too_small_timestep (cfl_timestep d) (max_smallsteps d)))
                  (state_of R) \<and>
            smallsteps (state_of R) = 0 \<and> order (state_of R) = 1 \<and>
            timestep (state_of R) = timestep d \<and>
            (\<exists>stats. log (state_of R) =
               log d @ [Too_small_timestep (cfl_timestep d) (max_smallsteps d), Statistics stats])) \<and>
         (cfl_timestep d < evolve_min_timestep d \<and> smallsteps d + 1 > max_smallsteps d \<and>
          order d \<noteq> 1 \<longrightarrow>
            returns_normally R \<and> smallsteps (state_of R) = 0 \<and> order (state_of R) = 1) \<and>
         (\<not> cfl_timestep d < evolve_min_timestep d \<longrightarrow>
            returns_normally R \<and> smallsteps (state_of R) = 0 \<and>
            order (state_of R) = (if order d = 1 \<and> default_order d = 2 then 2 else order d))"
proof -
  from assms(2) obtain d0 where
    "apply_protection_against_isolated_degenerate_timesteps X (called Update_timestep d) = Returns d0"
    using returns_state by blast
  from update_timestep_unfold [OF this, of yieldstep tfinal] obtain d2 where
    R: "R = (case protect_against_degenerate_time_steps X (cfl_timestep d, d2) of
              Raises e (dt', d') \<Rightarrow> Raises e d'
            | Returns (dt', d') \<Rightarrow>
               Returns (d'\<lparr>timestep := fit_yieldtime d' (fit_finaltime tfinal d' dt')\<rparr>))"
    and f: "evolve_min_timestep d2 = evolve_min_timestep d" "smallsteps d2 = smallsteps d"
      "max_smallsteps d2 = max_smallsteps d" "order d2 = order d"
      "default_order d2 = default_order d" "log d2 = log d" "timestep d2 = timestep d"
    unfolding R_def by blast
  note p = protect_against_degenerate_time_steps_cases [of "cfl_timestep d" d2 X, unfolded f]
  have a: "returns_normally R \<and> smallsteps (state_of R) = smallsteps d + 1 \<and>
      order (state_of R) = order d"
    if "cfl_timestep d < evolve_min_timestep d \<and> smallsteps d + 1 \<le> max_smallsteps d"
    using p that by (simp add: R f)
  have b: "R = Raises (Exception (Too_small_timestep (cfl_timestep d) (max_smallsteps d)))
                  (state_of R) \<and>
            smallsteps (state_of R) = 0 \<and> order (state_of R) = 1 \<and>
            timestep (state_of R) = timestep d \<and>
            (\<exists>stats. log (state_of R) =
               log d @ [Too_small_timestep (cfl_timestep d) (max_smallsteps d), Statistics stats])"
    if "cfl_timestep d < evolve_min_timestep d \<and> smallsteps d + 1 > max_smallsteps d \<and> order d = 1"
  proof -
    from p that have e: "protect_against_degenerate_time_steps X (cfl_timestep d, d2) =
        Raises (Exception (Too_small_timestep (cfl_timestep d) (max_smallsteps d)))
          (evolve_min_timestep d,
           d2\<lparr>smallsteps := 0,
             log := log d @
               [Too_small_timestep (cfl_timestep d) (max_smallsteps d),
                Statistics (timestepping_statistics X
                  (d2\<lparr>smallsteps := 0,
                     log := log d @ [Too_small_timestep (cfl_timestep d) (max_smallsteps d)]\<rparr>))]\<rparr>)"
      by simp
    show ?thesis using that by (simp add: R e f)
  qed
  have c: "returns_normally R \<and> smallsteps (state_of R) = 0 \<and> order (state_of R) = 1"
    if "cfl_timestep d < evolve_min_timestep d \<and> smallsteps d + 1 > max_smallsteps d \<and> order d \<noteq> 1"
    using p that by (simp add: R f)
  have d: "returns_normally R \<and> smallsteps (state_of R) = 0 \<and>
      order (state_of R) = (if order d = 1 \<and> default_order d = 2 then 2 else order d)"
    if "\<not> cfl_timestep d < evolve_min_timestep d"
  proof (cases "order d = 1 \<and> default_order d = 2")
    case True
    with p that show ?thesis by (simp add: R f)
  next
    case False
    with p that have "protect_against_degenerate_time_steps X (cfl_timestep d, d2) =
        Returns (cfl_timestep d, d2\<lparr>smallsteps := 0\<rparr>)" by blast
    with False show ?thesis by (simp add: R f)
  qed
  have l: "fst (state_of (protect_against_degenerate_time_steps X (dt, d'))) =
      evolve_min_timestep d'"
    if "dt < evolve_min_timestep d' \<and> smallsteps d' + 1 > max_smallsteps d' \<and> order d' = 1"
    using protect_against_degenerate_time_steps_cases [of dt d' X] that by simp
  from l a b c d show ?thesis by blast
qed

theorem small_step_protection_witness:
  "update_timestep example_collaborators 1 None
     (example_domain\<lparr>flux_timestep := 1 / 10000000, smallsteps := 50, yieldtime := 1\<rparr>) =
   Raises (Exception (Too_small_timestep (1 / 10000000) 50))
     (state_of (update_timestep example_collaborators 1 None
        (example_domain\<lparr>flux_timestep := 1 / 10000000, smallsteps := 50, yieldtime := 1\<rparr>))) \<and>
   smallsteps (state_of (update_timestep example_collaborators 1 None
     (example_domain\<lparr>flux_timestep := 1 / 10000000, smallsteps := 50, yieldtime := 1\<rparr>))) = 0 \<and>
   fst (state_of (protect_against_degenerate_time_steps example_collaborators
     (1 / 10000000, example_domain\<lparr>smallsteps := 50\<rparr>))) = 1 / 1000000 \<and>
   returns_normally (update_timestep example_collaborators 1 None
     (example_domain\<lparr>flux_timestep := 1 / 10000000, smallsteps := 50, order := 2,
        default_order := 2, yieldtime := 1\<rparr>)) \<and>
   order (state_of (update_timestep example_collaborators 1 None
     (example_domain\<lparr>flux_timestep := 1 / 10000000, smallsteps := 50, order := 2,
        default_order := 2, yieldtime := 1\<rparr>))) = 1 \<and>
   smallsteps (state_of (update_timestep example_collaborators 1 None
     (example_domain\<lparr>flux_timestep := 1 / 10000000, smallsteps := 7, yieldtime := 1\<rparr>))) = 8 \<and>
   smallsteps (state_of (update_timestep example_collaborators 1 None
     (example_domain\<lparr>flux_timestep := 1, smallsteps := 7, default_order := 2,
        yieldtime := 1\<rparr>))) = 0 \<and>
   order (state_of (update_timestep example_collaborators 1 None
     (example_domain\<lparr>flux_timestep := 1, smallsteps := 7, default_order := 2,
        yieldtime := 1\<rparr>))) = 2"
proof -
  let ?a = "example_domain\<lparr>flux_timestep := 1 / 10000000, smallsteps := 50, yieldtime := 1\<rparr>"
  let ?b = "example_domain\<lparr>flux_timestep := 1 / 10000000, smallsteps := 50, order := 2,
        default_order := 2, yieldtime := 1\<rparr>"
  let ?c = "example_domain\<lparr>flux_timestep := 1 / 10000000, smallsteps := 7, yieldtime := 1\<rparr>"
  let ?d = "example_domain\<lparr>flux_timestep := 1, smallsteps := 7, default_order := 2,
        yieldtime := 1\<rparr>"
  have ha: "returns_normally (apply_protection_against_isolated_degenerate_timesteps
      example_collaborators (called Update_timestep ?a))"
    and hb: "returns_normally (apply_protection_against_isolated_degenerate_timesteps
      example_collaborators (called Update_timestep ?b))"
    and hc: "returns_normally (apply_protection_against_isolated_degenerate_timesteps
      example_collaborators (called Update_timestep ?c))"
    and hd: "returns_normally (apply_protection_against_isolated_degenerate_timesteps
      example_collaborators (called Update_timestep ?d))"
    by (simp_all add: apply_protection_against_isolated_degenerate_timesteps_def called_def
        example_domain_def)
  note ta = small_step_protection [OF ha, of "1 / 10000000" "example_domain\<lparr>smallsteps := 50\<rparr>" 1 None]
  note tb = small_step_protection [OF hb, of 0 example_domain 1 None]
  note tc = small_step_protection [OF hc, of 0 example_domain 1 None]
  note td = small_step_protection [OF hd, of 0 example_domain 1 None]
  have ca: "cfl_timestep ?a < evolve_min_timestep ?a \<and> smallsteps ?a + 1 > max_smallsteps ?a \<and>
      order ?a = 1" "cfl_timestep ?a = 1 / 10000000" "max_smallsteps ?a = 50"
    "(1 / 10000000 :: real) < evolve_min_timestep (example_domain\<lparr>smallsteps := 50\<rparr>) \<and>
     smallsteps (example_domain\<lparr>smallsteps := 50\<rparr>) + 1
       > max_smallsteps (example_domain\<lparr>smallsteps := 50\<rparr>) \<and>
     order (example_domain\<lparr>smallsteps := 50\<rparr>) = 1"
    "evolve_min_timestep (example_domain\<lparr>smallsteps := 50\<rparr>) = 1 / 1000000"
    by (simp_all add: cfl_timestep_def example_domain_def)
  have cb: "cfl_timestep ?b < evolve_min_timestep ?b \<and> smallsteps ?b + 1 > max_smallsteps ?b \<and>
      order ?b \<noteq> 1"
    by (simp add: cfl_timestep_def example_domain_def)
  have cc: "cfl_timestep ?c < evolve_min_timestep ?c \<and> smallsteps ?c + 1 \<le> max_smallsteps ?c"
    "smallsteps ?c + 1 = 8"
    by (simp_all add: cfl_timestep_def example_domain_def)
  have cd: "\<not> cfl_timestep ?d < evolve_min_timestep ?d" "order ?d = 1 \<and> default_order ?d = 2"
    by (simp_all add: cfl_timestep_def example_domain_def)
  from ta ca have "update_timestep example_collaborators 1 None ?a =
      Raises (Exception (Too_small_timestep (1 / 10000000) 50))
        (state_of (update_timestep example_collaborators 1 None ?a)) \<and>
      smallsteps (state_of (update_timestep example_collaborators 1 None ?a)) = 0 \<and>
      fst (state_of (protect_against_degenerate_time_steps example_collaborators
        (1 / 10000000, example_domain\<lparr>smallsteps := 50\<rparr>))) = 1 / 1000000"
    by metis
  moreover from tb cb have "returns_normally (update_timestep example_collaborators 1 None ?b) \<and>
      order (state_of (update_timestep example_collaborators 1 None ?b)) = 1"
    by blast
  moreover from tc cc have "smallsteps (state_of (update_timestep example_collaborators 1 None ?c)) = 8"
    by metis
  moreover from td cd have "smallsteps (state_of (update_timestep example_collaborators 1 None ?d)) = 0 \<and>
      order (state_of (update_timestep example_collaborators 1 None ?d)) = 2"
    by metis
  ultimately show ?thesis by blast
qed

subsection \<open>Isolated degenerate timesteps\<close>

lemma ignore_triangles_no_hit:
  assumes "bins \<noteq> []" and "\<forall>i \<in> set is. i < length (max_speed d)"
    and "filter (\<lambda>i. max_speed d ! i > last bins) is = []"
  shows "ignore_triangles X bins is d = Returns d"
  using assms
proof (induction "is")
  case Nil
  show ?case by simp
next
  case (Cons i "is")
  from Cons.prems(3) have no: "\<not> max_speed d ! i > last bins"
    and rest: "filter (\<lambda>i. max_speed d ! i > last bins) is = []"
    by (auto split: if_splits)
  from Cons.prems(2) have i: "i < length (max_speed d)"
    and r: "\<forall>i \<in> set is. i < length (max_speed d)" by simp_all
  from Cons.IH [OF Cons.prems(1) r rest] no i Cons.prems(1) show ?case
    by (simp add: item_def)
qed

lemma ignore_triangles_no_xmomentum:
  assumes "bins \<noteq> []" and "\<forall>i \<in> set is. i < length (max_speed d)"
    and "filter (\<lambda>i. max_speed d ! i > last bins) is \<noteq> []"
    and "quantities d ''xmomentum'' = None"
  shows "ignore_triangles X bins is d = Raises (KeyError (Quantity_name ''xmomentum'')) d"
  using assms
proof (induction "is")
  case Nil
  then show ?case by simp
next
  case (Cons i "is")
  from Cons.prems(2) have i: "i < length (max_speed d)"
    and r: "\<forall>i \<in> set is. i < length (max_speed d)" by simp_all
  show ?case
  proof (cases "max_speed d ! i > last bins")
    case True
    with i Cons.prems(1,4) show ?thesis by (simp add: item_def)
  next
    case False
    with Cons.prems(3) have "filter (\<lambda>i. max_speed d ! i > last bins) is \<noteq> []" by simp
    from Cons.IH [OF Cons.prems(1) r this Cons.prems(4)] False i Cons.prems(1) show ?thesis
      by (simp add: item_def)
  qed
qed

lemma ignore_triangles_result:
  assumes "bins \<noteq> []" and "\<forall>i \<in> set is. i < length (max_speed d)" and "distinct is"
    and "quantities d ''xmomentum'' = Some Qx" and "quantities d ''ymomentum'' = Some Qy"
  shows "ignore_triangles X bins is d =
     Returns (d\<lparr>quantities := (quantities d)
                  (''xmomentum'' \<mapsto> fold (\<lambda>i. set_values X 0 [i])
                                     (filter (\<lambda>i. max_speed d ! i > last bins) is) Qx,
                   ''ymomentum'' \<mapsto> fold (\<lambda>i. set_values X 0 [i])
                                     (filter (\<lambda>i. max_speed d ! i > last bins) is) Qy),
               max_speed := fold (\<lambda>i ms. ms[i := 0])
                              (filter (\<lambda>i. max_speed d ! i > last bins) is) (max_speed d)\<rparr>)"
  using assms
proof (induction "is" arbitrary: d Qx Qy)
  case Nil
  have eq: "(quantities d)(''xmomentum'' \<mapsto> Qx, ''ymomentum'' \<mapsto> Qy) = quantities d"
    using Nil.prems(4,5) by (auto simp: fun_eq_iff)
  show ?case unfolding ignore_triangles.simps filter.simps fold_simps eq by simp
next
  case (Cons i "is")
  from Cons.prems(2) have i: "i < length (max_speed d)"
    and r: "\<forall>j \<in> set is. j < length (max_speed d)" by simp_all
  from Cons.prems(3) have ni: "i \<notin> set is" and dist: "distinct is" by simp_all
  show ?case
  proof (cases "max_speed d ! i > last bins")
    case False
    from Cons.IH [OF Cons.prems(1) r dist Cons.prems(4,5)] False i Cons.prems(1)
    show ?thesis by (simp add: item_def)
  next
    case True
    define d2 where "d2 = d\<lparr>quantities := (quantities d)
        (''xmomentum'' \<mapsto> set_values X 0 [i] Qx, ''ymomentum'' \<mapsto> set_values X 0 [i] Qy),
        max_speed := (max_speed d)[i := 0]\<rparr>"
    have step: "ignore_triangles X bins (i # is) d = ignore_triangles X bins is d2"
      using True i Cons.prems(1,4,5) by (simp add: item_def d2_def Let_def)
    have r2: "\<forall>j \<in> set is. j < length (max_speed d2)"
      using r by (simp add: d2_def)
    have x2: "quantities d2 ''xmomentum'' = Some (set_values X 0 [i] Qx)"
      and y2: "quantities d2 ''ymomentum'' = Some (set_values X 0 [i] Qy)"
      by (simp_all add: d2_def)
    have same: "filter (\<lambda>j. max_speed d2 ! j > last bins) is =
        filter (\<lambda>j. max_speed d ! j > last bins) is"
    proof (rule filter_cong [OF refl])
      fix j assume "j \<in> set is"
      with ni have "j \<noteq> i" by blast
      then show "(max_speed d2 ! j > last bins) = (max_speed d ! j > last bins)"
        by (simp add: d2_def)
    qed
    have q: "(quantities d2)(''xmomentum'' \<mapsto> a, ''ymomentum'' \<mapsto> b) =
        (quantities d)(''xmomentum'' \<mapsto> a, ''ymomentum'' \<mapsto> b)" for a b
      by (auto simp: fun_eq_iff d2_def)
    have "ignore_triangles X bins is d2 =
        Returns (d2\<lparr>quantities := (quantities d2)
                  (''xmomentum'' \<mapsto> fold (\<lambda>i. set_values X 0 [i])
                        (filter (\<lambda>j. max_speed d ! j > last bins) is) (set_values X 0 [i] Qx),
                   ''ymomentum'' \<mapsto> fold (\<lambda>i. set_values X 0 [i])
                        (filter (\<lambda>j. max_speed d ! j > last bins) is) (set_values X 0 [i] Qy)),
               max_speed := fold (\<lambda>i ms. ms[i := 0])
                        (filter (\<lambda>j. max_speed d ! j > last bins) is) (max_speed d2)\<rparr>)"
      using Cons.IH [OF Cons.prems(1) r2 dist x2 y2] unfolding same .
    also have "\<dots> = Returns (d\<lparr>quantities := (quantities d)
                  (''xmomentum'' \<mapsto> fold (\<lambda>i. set_values X 0 [i])
                        (filter (\<lambda>j. max_speed d ! j > last bins) (i # is)) Qx,
                   ''ymomentum'' \<mapsto> fold (\<lambda>i. set_values X 0 [i])
                        (filter (\<lambda>j. max_speed d ! j > last bins) (i # is)) Qy),
               max_speed := fold (\<lambda>i ms. ms[i := 0])
                        (filter (\<lambda>j. max_speed d ! j > last bins) (i # is)) (max_speed d)\<rparr>)"
      unfolding q using True by (simp add: d2_def)
    finally show ?thesis unfolding step .
  qed
qed

lemma zeroed_nth:
  assumes "i < length ms"
  shows "fold (\<lambda>i ms. ms[i := 0]) hits ms ! i = (if i \<in> set hits then 0 else ms ! i :: real)"
  using assms
proof (induction hits arbitrary: ms)
  case Nil
  show ?case by simp
next
  case (Cons h hits)
  from Cons.prems have "i < length (ms[h := 0])" by simp
  from Cons.IH [OF this] Cons.prems show ?case
    by (cases "i = h") auto
qed

lemma chain_equal_zero:
  assumes "\<forall>i \<in> set is. i < length hist"
  shows "chain_equal hist previous is = Inr (previous = 0 \<and> (\<forall>i \<in> set is. hist ! i = 0))"
  using assms
proof (induction "is" arbitrary: previous)
  case Nil
  show ?case by simp
next
  case (Cons i "is")
  then show ?case by (auto simp: item_def)
qed

lemma characteristic_signature_eq:
  assumes "9 \<le> length hist"
  shows "characteristic_signature hist =
     Inr (last hist > 0 \<and> hist ! 4 = 0 \<and> hist ! 5 = 0 \<and> hist ! 6 = 0 \<and> hist ! 7 = 0 \<and> hist ! 8 = 0)"
proof -
  have "chain_equal hist (hist ! 4) [5, 6, 7, 8] =
      Inr (hist ! 4 = 0 \<and> (\<forall>i \<in> set [5, 6, 7, 8]. hist ! i = 0))"
    by (rule chain_equal_zero) (use assms in auto)
  with assms show ?thesis
    by (auto simp: characteristic_signature_def item_def)
qed

text \<open>
  C8 (as amended). \<^verbatim>\<open>apply_protection_against_isolated_degenerate_timesteps\<close> returns with
  the domain as it was unless the flag is set and the largest \<^verbatim>\<open>max_speed\<close> is at least 10,
  and also when the histogram has not the signature. With a histogram of at least nine bins
  the signature is: last bin not empty, bins 4 to 8 empty. When it holds, for every full
  triangle whose \<^verbatim>\<open>max_speed\<close> exceeds the last bin edge (the upper edge of bin 8) the
  routine calls \<^verbatim>\<open>set_values(0.0, indices=[i])\<close> on the quantities named \<^verbatim>\<open>xmomentum\<close> and
  \<^verbatim>\<open>ymomentum\<close> and sets \<^verbatim>\<open>max_speed[i]\<close> to 0, in ascending order of \<open>i\<close>. The two names
  are fixed: with no such triangle nothing changes, and with one, on a domain that has no
  quantity \<^verbatim>\<open>xmomentum\<close>, the routine raises \<^verbatim>\<open>KeyError\<close> with nothing changed.
\<close>

theorem isolated_degenerate_timesteps:
  fixes X d
  defines "bins \<equiv> create_bins X (max_speed d) 10"
    and "hist \<equiv> histogram X (max_speed d) (create_bins X (max_speed d) 10)"
    and "hits \<equiv> filter (\<lambda>i. max_speed d ! i > last (create_bins X (max_speed d) 10))
                   [0 ..< number_of_full_triangles d]"
  shows "(\<not> protect_against_isolated_degenerate_timesteps d \<or>
          (max_speed d \<noteq> [] \<and> maximum (max_speed d) < 10) \<longrightarrow>
            apply_protection_against_isolated_degenerate_timesteps X d = Returns d) \<and>
         (9 \<le> length hist \<longrightarrow>
            characteristic_signature hist =
              Inr (last hist > 0 \<and> hist ! 4 = 0 \<and> hist ! 5 = 0 \<and> hist ! 6 = 0 \<and>
                   hist ! 7 = 0 \<and> hist ! 8 = 0)) \<and>
         (protect_against_isolated_degenerate_timesteps d \<and> max_speed d \<noteq> [] \<and>
          \<not> maximum (max_speed d) < 10 \<and> characteristic_signature hist = Inr False \<longrightarrow>
            apply_protection_against_isolated_degenerate_timesteps X d = Returns d) \<and>
         (protect_against_isolated_degenerate_timesteps d \<and> max_speed d \<noteq> [] \<and>
          \<not> maximum (max_speed d) < 10 \<and> characteristic_signature hist = Inr True \<and>
          bins \<noteq> [] \<and> number_of_full_triangles d \<le> length (max_speed d) \<longrightarrow>
            (quantities d ''xmomentum'' = Some Qx \<and> quantities d ''ymomentum'' = Some Qy \<longrightarrow>
               apply_protection_against_isolated_degenerate_timesteps X d =
                 Returns (d\<lparr>quantities := (quantities d)
                              (''xmomentum'' \<mapsto> fold (\<lambda>i. set_values X 0 [i]) hits Qx,
                               ''ymomentum'' \<mapsto> fold (\<lambda>i. set_values X 0 [i]) hits Qy),
                            max_speed := fold (\<lambda>i ms. ms[i := 0]) hits (max_speed d)\<rparr>) \<and>
               (\<forall>i < length (max_speed d).
                  fold (\<lambda>i ms. ms[i := 0]) hits (max_speed d) ! i =
                    (if i < number_of_full_triangles d \<and> max_speed d ! i > last bins then 0
                     else max_speed d ! i))) \<and>
            (hits = [] \<longrightarrow>
               apply_protection_against_isolated_degenerate_timesteps X d = Returns d) \<and>
            (hits \<noteq> [] \<and> quantities d ''xmomentum'' = None \<longrightarrow>
               apply_protection_against_isolated_degenerate_timesteps X d =
                 Raises (KeyError (Quantity_name ''xmomentum'')) d))"
proof -
  let ?apply = "apply_protection_against_isolated_degenerate_timesteps X d"
  have off: "?apply = Returns d"
    if "\<not> protect_against_isolated_degenerate_timesteps d \<or>
        (max_speed d \<noteq> [] \<and> maximum (max_speed d) < 10)"
    using that by (auto simp: apply_protection_against_isolated_degenerate_timesteps_def)
  have sig: "characteristic_signature hist =
      Inr (last hist > 0 \<and> hist ! 4 = 0 \<and> hist ! 5 = 0 \<and> hist ! 6 = 0 \<and>
           hist ! 7 = 0 \<and> hist ! 8 = 0)" if "9 \<le> length hist"
    using that by (rule characteristic_signature_eq)
  have unsigned: "?apply = Returns d"
    if "protect_against_isolated_degenerate_timesteps d \<and> max_speed d \<noteq> [] \<and>
        \<not> maximum (max_speed d) < 10 \<and> characteristic_signature hist = Inr False"
    using that
    by (simp add: apply_protection_against_isolated_degenerate_timesteps_def Let_def hist_def)
  have armed: "?apply = ignore_triangles X bins [0 ..< number_of_full_triangles d] d"
    if "protect_against_isolated_degenerate_timesteps d \<and> max_speed d \<noteq> [] \<and>
        \<not> maximum (max_speed d) < 10 \<and> characteristic_signature hist = Inr True"
    using that
    by (simp add: apply_protection_against_isolated_degenerate_timesteps_def Let_def hist_def
        bins_def)
  have range: "\<forall>i \<in> set [0 ..< number_of_full_triangles d]. i < length (max_speed d)"
    if "number_of_full_triangles d \<le> length (max_speed d)"
    using that by auto
  have zero: "ignore_triangles X bins [0 ..< number_of_full_triangles d] d =
        Returns (d\<lparr>quantities := (quantities d)
                     (''xmomentum'' \<mapsto> fold (\<lambda>i. set_values X 0 [i]) hits Qx,
                      ''ymomentum'' \<mapsto> fold (\<lambda>i. set_values X 0 [i]) hits Qy),
                   max_speed := fold (\<lambda>i ms. ms[i := 0]) hits (max_speed d)\<rparr>)"
    if "bins \<noteq> []" "number_of_full_triangles d \<le> length (max_speed d)"
      "quantities d ''xmomentum'' = Some Qx" "quantities d ''ymomentum'' = Some Qy"
    unfolding hits_def bins_def [symmetric]
    by (rule ignore_triangles_result [OF that(1) range [OF that(2)] distinct_upt that(3,4)])
  have pointwise: "\<forall>i < length (max_speed d).
      fold (\<lambda>i ms. ms[i := 0]) hits (max_speed d) ! i =
        (if i < number_of_full_triangles d \<and> max_speed d ! i > last bins then 0
         else max_speed d ! i)"
    by (auto simp: zeroed_nth hits_def bins_def)
  have none: "ignore_triangles X bins [0 ..< number_of_full_triangles d] d = Returns d"
    if "bins \<noteq> []" "number_of_full_triangles d \<le> length (max_speed d)" "hits = []"
    by (rule ignore_triangles_no_hit [OF that(1) range [OF that(2)]])
      (use that(3) in \<open>simp add: hits_def bins_def\<close>)
  have missing: "ignore_triangles X bins [0 ..< number_of_full_triangles d] d =
      Raises (KeyError (Quantity_name ''xmomentum'')) d"
    if "bins \<noteq> []" "number_of_full_triangles d \<le> length (max_speed d)" "hits \<noteq> []"
      "quantities d ''xmomentum'' = None"
    by (rule ignore_triangles_no_xmomentum [OF that(1) range [OF that(2)] _ that(4)])
      (use that(3) in \<open>simp add: hits_def bins_def\<close>)
  have c1: "\<not> protect_against_isolated_degenerate_timesteps d \<or>
          (max_speed d \<noteq> [] \<and> maximum (max_speed d) < 10) \<longrightarrow> ?apply = Returns d"
    using off by blast
  have c2: "9 \<le> length hist \<longrightarrow>
            characteristic_signature hist =
              Inr (last hist > 0 \<and> hist ! 4 = 0 \<and> hist ! 5 = 0 \<and> hist ! 6 = 0 \<and>
                   hist ! 7 = 0 \<and> hist ! 8 = 0)"
    using sig by blast
  have c3: "protect_against_isolated_degenerate_timesteps d \<and> max_speed d \<noteq> [] \<and>
          \<not> maximum (max_speed d) < 10 \<and> characteristic_signature hist = Inr False \<longrightarrow>
            ?apply = Returns d"
    using unsigned by blast
  have c4: "protect_against_isolated_degenerate_timesteps d \<and> max_speed d \<noteq> [] \<and>
          \<not> maximum (max_speed d) < 10 \<and> characteristic_signature hist = Inr True \<and>
          bins \<noteq> [] \<and> number_of_full_triangles d \<le> length (max_speed d) \<longrightarrow>
            (quantities d ''xmomentum'' = Some Qx \<and> quantities d ''ymomentum'' = Some Qy \<longrightarrow>
               ?apply =
                 Returns (d\<lparr>quantities := (quantities d)
                              (''xmomentum'' \<mapsto> fold (\<lambda>i. set_values X 0 [i]) hits Qx,
                               ''ymomentum'' \<mapsto> fold (\<lambda>i. set_values X 0 [i]) hits Qy),
                            max_speed := fold (\<lambda>i ms. ms[i := 0]) hits (max_speed d)\<rparr>) \<and>
               (\<forall>i < length (max_speed d).
                  fold (\<lambda>i ms. ms[i := 0]) hits (max_speed d) ! i =
                    (if i < number_of_full_triangles d \<and> max_speed d ! i > last bins then 0
                     else max_speed d ! i))) \<and>
            (hits = [] \<longrightarrow> ?apply = Returns d) \<and>
            (hits \<noteq> [] \<and> quantities d ''xmomentum'' = None \<longrightarrow>
               ?apply = Raises (KeyError (Quantity_name ''xmomentum'')) d)"
  proof (intro impI conjI)
    assume a: "protect_against_isolated_degenerate_timesteps d \<and> max_speed d \<noteq> [] \<and>
          \<not> maximum (max_speed d) < 10 \<and> characteristic_signature hist = Inr True \<and>
          bins \<noteq> [] \<and> number_of_full_triangles d \<le> length (max_speed d)"
    then have b: "bins \<noteq> []" and n: "number_of_full_triangles d \<le> length (max_speed d)"
      by simp_all
    from a have run: "?apply = ignore_triangles X bins [0 ..< number_of_full_triangles d] d"
      using armed by blast
    {
      assume "quantities d ''xmomentum'' = Some Qx \<and> quantities d ''ymomentum'' = Some Qy"
      then show "?apply =
                 Returns (d\<lparr>quantities := (quantities d)
                              (''xmomentum'' \<mapsto> fold (\<lambda>i. set_values X 0 [i]) hits Qx,
                               ''ymomentum'' \<mapsto> fold (\<lambda>i. set_values X 0 [i]) hits Qy),
                            max_speed := fold (\<lambda>i ms. ms[i := 0]) hits (max_speed d)\<rparr>)"
        unfolding run using zero [OF b n] by blast
    }
    show "\<forall>i < length (max_speed d).
                  fold (\<lambda>i ms. ms[i := 0]) hits (max_speed d) ! i =
                    (if i < number_of_full_triangles d \<and> max_speed d ! i > last bins then 0
                     else max_speed d ! i)"
      by (rule pointwise)
    {
      assume "hits = []"
      then show "?apply = Returns d" unfolding run by (rule none [OF b n])
    }
    {
      assume "hits \<noteq> [] \<and> quantities d ''xmomentum'' = None"
      then show "?apply = Raises (KeyError (Quantity_name ''xmomentum'')) d"
        unfolding run using missing [OF b n] by blast
    }
  qed
  show ?thesis by (intro conjI c1 c2 c3 c4)
qed

lemmas run_protection =
  apply_protection_against_isolated_degenerate_timesteps_def characteristic_signature_def
  maximum_def item_def example_domain_def example_collaborators_def example_quantity_def Let_def
  upt_rec

theorem isolated_degenerate_timesteps_witness:
  "returns_normally (apply_protection_against_isolated_degenerate_timesteps example_collaborators
     (example_domain\<lparr>quantities := [''stage'' \<mapsto> example_quantity 10,
          ''xmomentum'' \<mapsto> example_quantity 5, ''ymomentum'' \<mapsto> example_quantity 7],
        protect_against_isolated_degenerate_timesteps := True, max_speed := [1, 100]\<rparr>)) \<and>
   max_speed (state_of (apply_protection_against_isolated_degenerate_timesteps example_collaborators
     (example_domain\<lparr>quantities := [''stage'' \<mapsto> example_quantity 10,
          ''xmomentum'' \<mapsto> example_quantity 5, ''ymomentum'' \<mapsto> example_quantity 7],
        protect_against_isolated_degenerate_timesteps := True, max_speed := [1, 100]\<rparr>))) = [1, 0] \<and>
   map_option centroid_values
     (quantities (state_of (apply_protection_against_isolated_degenerate_timesteps
        example_collaborators
        (example_domain\<lparr>quantities := [''stage'' \<mapsto> example_quantity 10,
             ''xmomentum'' \<mapsto> example_quantity 5, ''ymomentum'' \<mapsto> example_quantity 7],
           protect_against_isolated_degenerate_timesteps := True, max_speed := [1, 100]\<rparr>)))
        ''xmomentum'') = Some [5, 0] \<and>
   map_option centroid_values
     (quantities (state_of (apply_protection_against_isolated_degenerate_timesteps
        example_collaborators
        (example_domain\<lparr>quantities := [''stage'' \<mapsto> example_quantity 10,
             ''xmomentum'' \<mapsto> example_quantity 5, ''ymomentum'' \<mapsto> example_quantity 7],
           protect_against_isolated_degenerate_timesteps := True, max_speed := [1, 100]\<rparr>)))
        ''ymomentum'') = Some [7, 0] \<and>
   apply_protection_against_isolated_degenerate_timesteps example_collaborators example_domain =
     Returns example_domain"
proof -
  let ?X = example_collaborators
  let ?d = "example_domain\<lparr>quantities := [''stage'' \<mapsto> example_quantity 10,
          ''xmomentum'' \<mapsto> example_quantity 5, ''ymomentum'' \<mapsto> example_quantity 7],
        protect_against_isolated_degenerate_timesteps := True, max_speed := [1, 100]\<rparr>"
  note t = isolated_degenerate_timesteps [of ?d ?X "example_quantity 5" "example_quantity 7"]
  have bins: "create_bins ?X (max_speed ?d) 10 = [0, 10, 20, 30, 40, 50, 60, 70, 80, 90]"
    by (simp add: run_protection)
  have hist: "histogram ?X (max_speed ?d) [0, 10, 20, 30, 40, 50, 60, 70, 80, 90] =
      [1, 0, 0, 0, 0, 0, 0, 0, 0, 1]"
    by (simp add: run_protection)
  have hits: "filter (\<lambda>i. max_speed ?d ! i > last [0, 10, 20, 30, 40, 50, 60, 70, 80, 90 :: real])
      [0 ..< number_of_full_triangles ?d] = [1]"
    by (simp add: example_domain_def upt_rec)
  have pre: "protect_against_isolated_degenerate_timesteps ?d \<and> max_speed ?d \<noteq> [] \<and>
      \<not> maximum (max_speed ?d) < 10 \<and>
      characteristic_signature [1, 0, 0, 0, 0, 0, 0, 0, 0, 1] = Inr True \<and>
      [0, 10, 20, 30, 40, 50, 60, 70, 80, 90 :: real] \<noteq> [] \<and>
      number_of_full_triangles ?d \<le> length (max_speed ?d)"
    by (simp add: run_protection)
  have q: "quantities ?d ''xmomentum'' = Some (example_quantity 5) \<and>
      quantities ?d ''ymomentum'' = Some (example_quantity 7)"
    by (simp add: example_domain_def)
  from t [unfolded bins hist hits] pre q
  have r: "apply_protection_against_isolated_degenerate_timesteps ?X ?d =
      Returns (?d\<lparr>quantities := (quantities ?d)
                   (''xmomentum'' \<mapsto> fold (\<lambda>i. set_values ?X 0 [i]) [1] (example_quantity 5),
                    ''ymomentum'' \<mapsto> fold (\<lambda>i. set_values ?X 0 [i]) [1] (example_quantity 7)),
                 max_speed := fold (\<lambda>i ms. ms[i := 0]) [1] (max_speed ?d)\<rparr>)"
    by blast
  have off: "\<not> protect_against_isolated_degenerate_timesteps example_domain"
    by (simp add: example_domain_def)
  with isolated_degenerate_timesteps [of example_domain ?X]
  have "apply_protection_against_isolated_degenerate_timesteps ?X example_domain =
      Returns example_domain" by blast
  then show ?thesis
    unfolding r by (simp add: example_collaborators_def example_quantity_def example_domain_def)
qed

text \<open>
  The claim as it was stated makes the routine a no-op when the physics provides no
  quantities to zero. On a domain whose only quantity is \<^verbatim>\<open>stage\<close>, with the flag set and the
  speeds 1 and 100, the routine raises.
\<close>

theorem isolated_degenerate_timesteps_no_momentum:
  "quantities (example_domain\<lparr>conserved_quantities := [''stage''],
      evolved_quantities := [''stage''], quantities := [''stage'' \<mapsto> example_quantity 10],
      protect_against_isolated_degenerate_timesteps := True, max_speed := [1, 100]\<rparr>)
     ''xmomentum'' = None \<and>
   apply_protection_against_isolated_degenerate_timesteps example_collaborators
     (example_domain\<lparr>conserved_quantities := [''stage''],
        evolved_quantities := [''stage''], quantities := [''stage'' \<mapsto> example_quantity 10],
        protect_against_isolated_degenerate_timesteps := True, max_speed := [1, 100]\<rparr>) =
   Raises (KeyError (Quantity_name ''xmomentum''))
     (example_domain\<lparr>conserved_quantities := [''stage''],
        evolved_quantities := [''stage''], quantities := [''stage'' \<mapsto> example_quantity 10],
        protect_against_isolated_degenerate_timesteps := True, max_speed := [1, 100]\<rparr>)"
  by (simp add: run_protection)

subsection \<open>Boundary binding\<close>

lemma set_item2_nth:
  "set_item2 ns c e v = Inr ns' \<Longrightarrow>
   ns' ! c ! e = v \<and> length ns' = length ns \<and> (\<forall>c'. length (ns' ! c') = length (ns ! c')) \<and>
   (\<forall>c' e'. (c', e') \<noteq> (c, e) \<longrightarrow> ns' ! c' ! e' = ns ! c' ! e')"
proof -
  assume a: "set_item2 ns c e v = Inr ns'"
  then have c: "c < length ns" and e: "e < length (ns ! c)"
    and ns': "ns' = ns[c := (ns ! c)[e := v]]"
    by (auto simp: set_item2_def split: if_splits)
  have "length (ns' ! c') = length (ns ! c')" for c'
    using c by (cases "c' = c") (simp_all add: ns')
  moreover have "ns' ! c' ! e' = ns ! c' ! e'" if "(c', e') \<noteq> (c, e)" for c' e'
  proof (cases "c' = c")
    case True
    with that have "e' \<noteq> e" by simp
    with True c show ?thesis by (simp add: ns')
  next
    case False
    then show ?thesis by (simp add: ns')
  qed
  ultimately show ?thesis using c e by (simp add: ns')
qed

lemma set_boundary_loop_returns:
  assumes "set_boundary_loop x d = Returns d'" and "boundary_map d = Some bm"
    and "boundary_objects d = Some objs0" and "distinct x"
  shows "boundary_objects d' =
           Some (objs0 @ map (\<lambda>k. (k, bound_object bm d k))
                          (filter (\<lambda>k. bound_object bm d k \<noteq> None) x)) \<and>
         (\<forall>j < length (filter (\<lambda>k. bound_object bm d k \<noteq> None) x).
            neighbours d' ! fst (filter (\<lambda>k. bound_object bm d k \<noteq> None) x ! j)
                         ! snd (filter (\<lambda>k. bound_object bm d k \<noteq> None) x ! j) =
              - int (length objs0 + j + 1)) \<and>
         (\<forall>c e. (c, e) \<notin> set x \<longrightarrow> neighbours d' ! c ! e = neighbours d ! c ! e) \<and>
         (\<forall>k \<in> set x. tag_bound bm d k) \<and>
         boundary d' = boundary d \<and> boundary_map d' = Some bm"
  using assms
proof (induction x arbitrary: d objs0)
  case Nil
  then show ?case by simp
next
  case (Cons k x)
  obtain c e where k: "k = (c, e)" by (cases k)
  from Cons.prems(1,2,3) obtain tag where tag: "map_of (boundary d) (c, e) = Some tag"
    by (auto simp: k split: option.splits)
  from Cons.prems(1,2,3) tag obtain ob where ob: "bm tag = Some ob"
    by (auto simp: k split: option.splits)
  from Cons.prems(4) have kx: "(c, e) \<notin> set x" and dx: "distinct x" by (simp_all add: k)
  have tb: "tag_bound bm d k" by (simp add: tag_bound_def k tag ob)
  show ?case
  proof (cases ob)
    case None
    then have b: "bound_object bm d k = None" by (simp add: bound_object_def k tag ob)
    from Cons.prems(1,2) tag ob None have "set_boundary_loop x d = Returns d'" by (simp add: k)
    from Cons.IH [OF this Cons.prems(2,3) dx] b tb kx show ?thesis by (simp add: k)
  next
    case (Some B)
    then have b: "bound_object bm d k = Some B" by (simp add: bound_object_def k tag ob)
    define d1 where "d1 = d\<lparr>boundary_objects := Some (objs0 @ [((c, e), Some B)])\<rparr>"
    from Cons.prems(1,2,3) tag ob Some obtain ns where
      ns: "set_item2 (neighbours d) c e (- int (length objs0 + 1)) = Inr ns"
      and run: "set_boundary_loop x (d1\<lparr>neighbours := ns\<rparr>) = Returns d'"
      by (auto simp: k d1_def Let_def split: sum.splits)
    let ?d2 = "d1\<lparr>neighbours := ns\<rparr>"
    have bo: "bound_object bm ?d2 = bound_object bm d" and tbo: "tag_bound bm ?d2 = tag_bound bm d"
      by (auto simp: fun_eq_iff bound_object_def tag_bound_def d1_def)
    have m2: "boundary_map ?d2 = Some bm"
      and o2: "boundary_objects ?d2 = Some (objs0 @ [((c, e), Some B)])"
      using Cons.prems(2) by (simp_all add: d1_def)
    note IH = Cons.IH [OF run m2 o2 dx, unfolded bo tbo]
    let ?f = "filter (\<lambda>k. bound_object bm d k \<noteq> None) x"
    from set_item2_nth [OF ns] have here: "ns ! c ! e = - int (length objs0 + 1)"
      and other: "\<forall>c' e'. (c', e') \<noteq> (c, e) \<longrightarrow> ns ! c' ! e' = neighbours d ! c' ! e'"
      by simp_all
    from IH kx have nk: "neighbours d' ! c ! e = ns ! c ! e" by (simp add: d1_def)
    have objs: "boundary_objects d' =
           Some (objs0 @ map (\<lambda>k. (k, bound_object bm d k))
                          (filter (\<lambda>k. bound_object bm d k \<noteq> None) (k # x)))"
      using IH b by (simp add: k)
    have nb: "neighbours d' ! fst (filter (\<lambda>k. bound_object bm d k \<noteq> None) (k # x) ! j)
                         ! snd (filter (\<lambda>k. bound_object bm d k \<noteq> None) (k # x) ! j) =
              - int (length objs0 + j + 1)"
      if "j < length (filter (\<lambda>k. bound_object bm d k \<noteq> None) (k # x))" for j
    proof (cases j)
      case 0
      with b nk here show ?thesis by (simp add: k)
    next
      case (Suc j')
      with that b have "j' < length ?f" by simp
      with IH have "neighbours d' ! fst (?f ! j') ! snd (?f ! j') =
          - int (length (objs0 @ [((c, e), Some B)]) + j' + 1)" by blast
      with Suc b show ?thesis by simp
    qed
    have frame: "neighbours d' ! c' ! e' = neighbours d ! c' ! e'" if "(c', e') \<notin> set (k # x)"
      for c' e'
    proof -
      from that have "(c', e') \<noteq> (c, e)" and "(c', e') \<notin> set x" by (simp_all add: k)
      with IH other show ?thesis by (simp add: d1_def)
    qed
    from IH have rest: "(\<forall>k \<in> set x. tag_bound bm d k) \<and> boundary d' = boundary d \<and>
        boundary_map d' = Some bm" by (simp add: d1_def)
    from objs nb frame tb rest show ?thesis by auto
  qed
qed

lemma set_boundary_loop_outcome:
  assumes "boundary_map d = Some bm" and "boundary_objects d = Some objs0"
    and "\<forall>k \<in> set x. map_of (boundary d) k \<noteq> None"
    and "\<forall>k \<in> set x. fst k < length (neighbours d) \<and> snd k < length (neighbours d ! fst k)"
  shows "if \<forall>k \<in> set x. tag_bound bm d k then returns_normally (set_boundary_loop x d)
         else \<exists>tag d'. set_boundary_loop x d =
                  Raises (Exception (Tag_not_bound tag (get_boundary_tags d))) d' \<and>
                bm tag = None \<and> tag \<in> snd ` set (boundary d)"
  using assms
proof (induction x arbitrary: d objs0)
  case Nil
  show ?case by simp
next
  case (Cons k x)
  obtain c e where k: "k = (c, e)" by (cases k)
  from Cons.prems(3) obtain tag where tag: "map_of (boundary d) (c, e) = Some tag"
    by (auto simp: k)
  then have mem: "tag \<in> snd ` set (boundary d)"
    by (metis map_of_SomeD snd_conv image_eqI)
  from Cons.prems(3) have in_x: "\<forall>k \<in> set x. map_of (boundary d) k \<noteq> None" by simp
  from Cons.prems(4) have wf_x:
    "\<forall>k \<in> set x. fst k < length (neighbours d) \<and> snd k < length (neighbours d ! fst k)"
    and wf_k: "c < length (neighbours d)" "e < length (neighbours d ! c)"
    by (simp_all add: k)
  show ?case
  proof (cases "bm tag")
    case None
    then have "\<not> tag_bound bm d k" by (simp add: tag_bound_def k tag)
    moreover have "set_boundary_loop (k # x) d =
        Raises (Exception (Tag_not_bound tag (get_boundary_tags d))) d"
      using Cons.prems(1) tag None by (simp add: k)
    ultimately show ?thesis using None mem by auto
  next
    case (Some ob)
    then have tb: "tag_bound bm d k" by (simp add: tag_bound_def k tag)
    show ?thesis
    proof (cases ob)
      case None
      with Cons.prems(1) tag Some have "set_boundary_loop (k # x) d = set_boundary_loop x d"
        by (simp add: k)
      with Cons.IH [OF Cons.prems(1,2) in_x wf_x] tb show ?thesis
        by (cases "\<forall>k \<in> set x. tag_bound bm d k") auto
    next
      case B: (Some B)
      define ns where "ns = (neighbours d)[c := (neighbours d ! c)[e := - int (length objs0 + 1)]]"
      define d2 where "d2 = d\<lparr>boundary_objects := Some (objs0 @ [((c, e), Some B)]),
          neighbours := ns\<rparr>"
      have step: "set_boundary_loop (k # x) d = set_boundary_loop x d2"
        using Cons.prems(1,2) tag Some B wf_k
        by (simp add: k set_item2_def d2_def ns_def Let_def)
      have len: "length ns = length (neighbours d)"
        and row: "length (ns ! c') = length (neighbours d ! c')" for c'
        using wf_k by (cases "c' = c"; simp add: ns_def)+
      have m2: "boundary_map d2 = Some bm"
        and o2: "boundary_objects d2 = Some (objs0 @ [((c, e), Some B)])"
        and b2: "boundary d2 = boundary d"
        using Cons.prems(1) by (simp_all add: d2_def)
      have in2: "\<forall>k \<in> set x. map_of (boundary d2) k \<noteq> None"
        using in_x by (simp add: b2)
      have wf2: "\<forall>k \<in> set x. fst k < length (neighbours d2) \<and>
          snd k < length (neighbours d2 ! fst k)"
        using wf_x len row by (simp add: d2_def)
      have tb2: "tag_bound bm d2 = tag_bound bm d"
        by (simp add: fun_eq_iff tag_bound_def b2)
      have g2: "get_boundary_tags d2 = get_boundary_tags d"
        by (simp add: get_boundary_tags_def b2)
      from Cons.IH [OF m2 o2 in2 wf2] tb show ?thesis
        unfolding step tb2 g2 b2 by (cases "\<forall>k \<in> set x. tag_bound bm d k") auto
    qed
  qed
qed

lemma boundary_edges_props:
  "distinct (boundary_edges d) \<and> sorted (boundary_edges d) \<and>
   set (boundary_edges d) = fst ` set (boundary d)"
  by (simp add: boundary_edges_def)

lemma boundary_edges_keys: "\<forall>k \<in> set (boundary_edges d). map_of (boundary d) k \<noteq> None"
  by (auto simp: boundary_edges_def map_of_eq_None_iff)

lemma set_boundary_unfold:
  "set_boundary new_map d =
     set_boundary_loop (boundary_edges d)
       (d\<lparr>boundary_map := Some (merged_boundary_map new_map d), boundary_objects := Some []\<rparr>)"
  by (cases "boundary_map d")
    (simp_all add: set_boundary_def merged_boundary_map_def boundary_edges_def Let_def)

text \<open>
  C5. After every successful call of \<^verbatim>\<open>set_boundary\<close> the rebuilt list
  \<^verbatim>\<open>boundary_objects\<close> is in ascending \<open>(cell, edge)\<close> order; the entry at position \<open>i\<close>
  (counted from 0) has \<open>neighbours[cell][edge] = -(i+1)\<close> and holds the object the merged map
  binds to the tag of its edge; the boundary edges whose tag is bound to \<^verbatim>\<open>None\<close> have no
  entry. On a mesh whose boundary edges are entries of \<^verbatim>\<open>neighbours\<close> the call succeeds
  exactly when the merged map binds the tag of every boundary edge, and otherwise raises the
  exception whose message names an unbound tag and lists the boundary tags, all of them.
\<close>

theorem set_boundary_binds:
  fixes new_map d
  defines "bm \<equiv> merged_boundary_map new_map d"
  shows "(set_boundary new_map d = Returns d' \<longrightarrow>
            (\<exists>objs. boundary_objects d' = Some objs \<and>
               map fst objs = filter (\<lambda>k. bound_object bm d k \<noteq> None) (boundary_edges d) \<and>
               sorted_wrt (<) (map fst objs) \<and>
               (\<forall>i < length objs.
                  neighbours d' ! fst (fst (objs ! i)) ! snd (fst (objs ! i)) = - (int i + 1) \<and>
                  snd (objs ! i) = bound_object bm d (fst (objs ! i)) \<and> snd (objs ! i) \<noteq> None)) \<and>
            (\<forall>k \<in> set (boundary_edges d). tag_bound bm d k) \<and>
            boundary_map d' = Some bm) \<and>
         (edges_in_mesh d \<longrightarrow>
            returns_normally (set_boundary new_map d) =
              (\<forall>k \<in> set (boundary_edges d). tag_bound bm d k)) \<and>
         (edges_in_mesh d \<and> \<not> (\<forall>k \<in> set (boundary_edges d). tag_bound bm d k) \<longrightarrow>
            (\<exists>tag d'. set_boundary new_map d =
                 Raises (Exception (Tag_not_bound tag (get_boundary_tags d))) d' \<and>
               bm tag = None \<and> tag \<in> set (get_boundary_tags d))) \<and>
         set (get_boundary_tags d) = snd ` set (boundary d) \<and>
         set (boundary_edges d) = fst ` set (boundary d)"
proof -
  let ?d0 = "d\<lparr>boundary_map := Some bm, boundary_objects := Some []\<rparr>"
  let ?edges = "filter (\<lambda>k. bound_object bm d k \<noteq> None) (boundary_edges d)"
  have run: "set_boundary new_map d = set_boundary_loop (boundary_edges d) ?d0"
    unfolding bm_def by (rule set_boundary_unfold)
  have bo: "bound_object bm ?d0 = bound_object bm d" and tb: "tag_bound bm ?d0 = tag_bound bm d"
    by (simp_all add: fun_eq_iff bound_object_def tag_bound_def)
  have tags: "set (get_boundary_tags d) = snd ` set (boundary d)"
    by (simp add: get_boundary_tags_def)
  have success: "(\<exists>objs. boundary_objects d' = Some objs \<and>
               map fst objs = ?edges \<and> sorted_wrt (<) (map fst objs) \<and>
               (\<forall>i < length objs.
                  neighbours d' ! fst (fst (objs ! i)) ! snd (fst (objs ! i)) = - (int i + 1) \<and>
                  snd (objs ! i) = bound_object bm d (fst (objs ! i)) \<and> snd (objs ! i) \<noteq> None)) \<and>
            (\<forall>k \<in> set (boundary_edges d). tag_bound bm d k) \<and> boundary_map d' = Some bm"
    if "set_boundary new_map d = Returns d'"
  proof -
    from that have r: "set_boundary_loop (boundary_edges d) ?d0 = Returns d'"
      by (simp add: run)
    have dist: "distinct (boundary_edges d)" using boundary_edges_props by blast
    from set_boundary_loop_returns [OF r _ _ dist, of bm "[]", unfolded bo tb]
    have objs: "boundary_objects d' = Some (map (\<lambda>k. (k, bound_object bm d k)) ?edges)"
      and nb: "\<forall>j < length ?edges. neighbours d' ! fst (?edges ! j) ! snd (?edges ! j) =
          - int (j + 1)"
      and all: "\<forall>k \<in> set (boundary_edges d). tag_bound bm d k"
      and m: "boundary_map d' = Some bm"
      by simp_all
    let ?objs = "map (\<lambda>k. (k, bound_object bm d k)) ?edges"
    have fst_objs: "map fst ?objs = ?edges" by (simp add: comp_def)
    have "sorted_wrt (<) (boundary_edges d)"
      using boundary_edges_props [of d] by (simp add: strict_sorted_iff)
    then have sorted: "sorted_wrt (<) ?edges" by (rule sorted_wrt_filter)
    have entry: "neighbours d' ! fst (fst (?objs ! i)) ! snd (fst (?objs ! i)) = - (int i + 1) \<and>
        snd (?objs ! i) = bound_object bm d (fst (?objs ! i)) \<and> snd (?objs ! i) \<noteq> None"
      if "i < length ?objs" for i
    proof -
      from that have i: "i < length ?edges" by simp
      then have "?edges ! i \<in> set ?edges" by (rule nth_mem)
      then have "bound_object bm d (?edges ! i) \<noteq> None" by simp
      with nb i show ?thesis by simp
    qed
    from objs fst_objs sorted entry all m show ?thesis by (metis (no_types, lifting))
  qed
  have outcome: "if \<forall>k \<in> set (boundary_edges d). tag_bound bm d k
         then returns_normally (set_boundary new_map d)
         else \<exists>tag d'. set_boundary new_map d =
                  Raises (Exception (Tag_not_bound tag (get_boundary_tags d))) d' \<and>
                bm tag = None \<and> tag \<in> snd ` set (boundary d)"
    if "edges_in_mesh d"
  proof -
    have keys: "\<forall>k \<in> set (boundary_edges d). map_of (boundary ?d0) k \<noteq> None"
      using boundary_edges_keys [of d] by simp
    have wf: "\<forall>k \<in> set (boundary_edges d).
        fst k < length (neighbours ?d0) \<and> snd k < length (neighbours ?d0 ! fst k)"
      using that boundary_edges_props [of d]
      by (auto simp: edges_in_mesh_def list_all_iff)
    have g: "get_boundary_tags ?d0 = get_boundary_tags d"
      by (simp add: get_boundary_tags_def)
    from set_boundary_loop_outcome [OF _ _ keys wf, of bm "[]"] show ?thesis
      unfolding run tb g
      by (cases "\<forall>k \<in> set (boundary_edges d). tag_bound bm d k") auto
  qed
  have total: "returns_normally (set_boundary new_map d) =
      (\<forall>k \<in> set (boundary_edges d). tag_bound bm d k)" if "edges_in_mesh d"
    using outcome [OF that]
    by (cases "\<forall>k \<in> set (boundary_edges d). tag_bound bm d k") auto
  have unbound: "\<exists>tag d'. set_boundary new_map d =
                 Raises (Exception (Tag_not_bound tag (get_boundary_tags d))) d' \<and>
               bm tag = None \<and> tag \<in> set (get_boundary_tags d)"
    if "edges_in_mesh d \<and> \<not> (\<forall>k \<in> set (boundary_edges d). tag_bound bm d k)"
    using outcome that unfolding tags
    by (cases "\<forall>k \<in> set (boundary_edges d). tag_bound bm d k") auto
  from success total unbound tags boundary_edges_props [of d] show ?thesis by blast
qed

lemmas run_set_boundary =
  set_boundary_def set_item2_def get_boundary_tags_def example_domain_def Let_def

theorem set_boundary_binds_witness:
  "set_boundary [''wall'' \<mapsto> Some 3, ''ocean'' \<mapsto> Some 0, ''open'' \<mapsto> None] example_domain =
     Returns (state_of (set_boundary
       [''wall'' \<mapsto> Some 3, ''ocean'' \<mapsto> Some 0, ''open'' \<mapsto> None] example_domain)) \<and>
   boundary_objects (state_of (set_boundary
       [''wall'' \<mapsto> Some 3, ''ocean'' \<mapsto> Some 0, ''open'' \<mapsto> None] example_domain)) =
     Some [((0, 0), Some 3), ((0, 1), Some 0), ((1, 2), Some 3)] \<and>
   neighbours (state_of (set_boundary
       [''wall'' \<mapsto> Some 3, ''ocean'' \<mapsto> Some 0, ''open'' \<mapsto> None] example_domain)) =
     [[- 1, - 2, 1], [- 1, 0, - 3]] \<and>
   sorted_wrt (<) (map fst [((0, 0), Some 3), ((0, 1), Some 0), ((1 :: nat, 2 :: nat), Some (3 :: nat))]) \<and>
   edges_in_mesh example_domain \<and>
   set_boundary [''wall'' \<mapsto> Some 3] example_domain =
     Raises (Exception (Tag_not_bound ''ocean'' [''wall'', ''open'', ''ocean'']))
       (state_of (set_boundary [''wall'' \<mapsto> Some 3] example_domain))"
proof -
  let ?M = "[''wall'' \<mapsto> Some 3, ''ocean'' \<mapsto> Some 0, ''open'' \<mapsto> None]
    :: string \<rightharpoonup> object_ref option"
  let ?r = "set_boundary ?M example_domain"
  have n: "returns_normally ?r" by (simp add: run_set_boundary)
  then have r: "?r = Returns (state_of ?r)" by (rule returns_state)
  have objs: "boundary_objects (state_of ?r) =
      Some [((0, 0), Some 3), ((0, 1), Some 0), ((1, 2), Some 3)]"
    by (simp add: run_set_boundary)
  have nbs: "neighbours (state_of ?r) = [[- 1, - 2, 1], [- 1, 0, - 3]]"
    by (simp add: run_set_boundary)
  have mesh: "edges_in_mesh example_domain"
    by (simp add: edges_in_mesh_def example_domain_def)
  note t = set_boundary_binds [of ?M example_domain "state_of ?r", THEN conjunct1, rule_format,
      OF r, THEN conjunct1]
  from t obtain found where f: "boundary_objects (state_of ?r) = Some found"
    and s: "sorted_wrt (<) (map fst found)" by (elim exE conjE)
  from f have "found = [((0, 0), Some 3), ((0, 1), Some 0), ((1, 2), Some 3)]"
    unfolding objs by simp
  with s
  have "sorted_wrt (<) (map fst [((0, 0), Some 3), ((0, 1), Some 0), ((1 :: nat, 2 :: nat), Some (3 :: nat))])"
    by (simp only:)
  moreover have "set_boundary [''wall'' \<mapsto> Some 3] example_domain =
     Raises (Exception (Tag_not_bound ''ocean'' [''wall'', ''open'', ''ocean'']))
       (state_of (set_boundary [''wall'' \<mapsto> Some 3] example_domain))"
    by (simp add: run_set_boundary)
  ultimately show ?thesis using r objs nbs mesh by (intro conjI)
qed

subsection \<open>Statements in sequence\<close>

lemma and_then_Returns:
  "(and_then r f = Returns d') = (\<exists>d1. r = Returns d1 \<and> f d1 = Returns d')"
  by (cases r) simp_all

lemma in_sequence_Cons_Returns:
  "(in_sequence (f # fs) d = Returns d') =
     (\<exists>d1. f d = Returns d1 \<and> in_sequence fs d1 = Returns d')"
  by (simp add: and_then_Returns)

subsection \<open>Boundary values\<close>

lemma write_boundary_values_result:
  assumes "distinct names" and "j + length names \<le> length q"
    and "\<forall>name \<in> set names. \<exists>Q. quantities d name = Some Q \<and> i < length (boundary_values Q)"
  shows "\<exists>d'. write_boundary_values i q j names d = Returns d' \<and>
           (\<forall>n < length names. \<exists>Q. quantities d (names ! n) = Some Q \<and>
              quantities d' (names ! n) =
                Some (Q\<lparr>boundary_values := (boundary_values Q)[i := q ! (j + n)]\<rparr>)) \<and>
           (\<forall>name. name \<notin> set names \<longrightarrow> quantities d' name = quantities d name) \<and>
           (\<exists>qs. d' = d\<lparr>quantities := qs\<rparr>)"
  using assms
proof (induction names arbitrary: d j)
  case Nil
  have "\<exists>qs. d = d\<lparr>quantities := qs\<rparr>"
    by (rule exI [of _ "quantities d"]) simp
  then show ?case by simp
next
  case (Cons name names)
  from Cons.prems(3) obtain Q where Q: "quantities d name = Some Q"
    and i: "i < length (boundary_values Q)" by auto
  from Cons.prems(2) have j: "j < length q" and j': "Suc j + length names \<le> length q"
    by simp_all
  from Cons.prems(1) have fresh: "name \<notin> set names" and dist: "distinct names" by simp_all
  define Q' where "Q' = Q\<lparr>boundary_values := (boundary_values Q)[i := q ! j]\<rparr>"
  define d1 where "d1 = d\<lparr>quantities := (quantities d)(name \<mapsto> Q')\<rparr>"
  have step: "write_boundary_values i q j (name # names) d =
      write_boundary_values i q (Suc j) names d1"
    using Q i j by (simp add: item_def set_item_def d1_def Q'_def)
  have same: "quantities d1 n = quantities d n" if "n \<noteq> name" for n
    using that by (simp add: d1_def)
  have pre: "\<forall>n \<in> set names. \<exists>Q. quantities d1 n = Some Q \<and> i < length (boundary_values Q)"
  proof
    fix n assume n: "n \<in> set names"
    with fresh have "n \<noteq> name" by blast
    with Cons.prems(3) n show "\<exists>Q. quantities d1 n = Some Q \<and> i < length (boundary_values Q)"
      by (simp add: same)
  qed
  from Cons.IH [OF dist j' pre] obtain d' where
    run: "write_boundary_values i q (Suc j) names d1 = Returns d'"
    and new: "\<forall>n < length names. \<exists>Q. quantities d1 (names ! n) = Some Q \<and>
        quantities d' (names ! n) =
          Some (Q\<lparr>boundary_values := (boundary_values Q)[i := q ! (Suc j + n)]\<rparr>)"
    and old: "\<forall>n. n \<notin> set names \<longrightarrow> quantities d' n = quantities d1 n"
    and frame: "\<exists>qs. d' = d1\<lparr>quantities := qs\<rparr>"
    by blast
  have entries: "\<exists>Q. quantities d ((name # names) ! n) = Some Q \<and>
      quantities d' ((name # names) ! n) =
        Some (Q\<lparr>boundary_values := (boundary_values Q)[i := q ! (j + n)]\<rparr>)"
    if "n < length (name # names)" for n
  proof (cases n)
    case 0
    from old fresh have "quantities d' name = quantities d1 name" by blast
    with 0 Q show ?thesis by (simp add: d1_def Q'_def)
  next
    case (Suc m)
    with that have m: "m < length names" by simp
    then have "names ! m \<in> set names" by (rule nth_mem)
    with fresh have ne: "names ! m \<noteq> name" by blast
    from new m obtain Qm where "quantities d1 (names ! m) = Some Qm"
      and "quantities d' (names ! m) =
        Some (Qm\<lparr>boundary_values := (boundary_values Qm)[i := q ! (Suc j + m)]\<rparr>)"
      by blast
    with ne Suc show ?thesis by (simp add: same)
  qed
  have others: "quantities d' n = quantities d n" if "n \<notin> set (name # names)" for n
    using that old same by simp
  from frame obtain qs where "d' = d1\<lparr>quantities := qs\<rparr>" by blast
  then have "d' = d\<lparr>quantities := qs\<rparr>" by (simp add: d1_def)
  with step run entries others show ?case by auto
qed

lemma get_evolved_quantities_length:
  "get_evolved_quantities d c vertex edge = Inr q \<Longrightarrow> length q = length (evolved_quantities d)"
  by (auto simp: get_evolved_quantities_def values_of_names_length split: if_splits)

lemma update_boundary_loop_in_sequence:
  "update_boundary_loop X i entries d =
     in_sequence (map (\<lambda>k. update_boundary_entry X (i + k) (entries ! k)) [0 ..< length entries]) d"
proof (induction entries arbitrary: i d)
  case Nil
  show ?case by simp
next
  case (Cons entry entries)
  have "[0 ..< length (entry # entries)] = 0 # map Suc [0 ..< length entries]"
    by (simp add: upt_conv_Cons map_Suc_upt del: upt_Suc)
  then have m: "map (\<lambda>k. update_boundary_entry X (i + k) ((entry # entries) ! k))
        [0 ..< length (entry # entries)] =
      update_boundary_entry X i entry #
      map (\<lambda>k. update_boundary_entry X (Suc i + k) (entries ! k)) [0 ..< length entries]"
    by (simp add: comp_def del: upt_Suc)
  show ?case
    unfolding m by (cases "update_boundary_entry X i entry d") (simp_all add: Cons.IH)
qed

lemma in_sequence_states:
  "in_sequence fs d = Returns d' \<Longrightarrow>
   \<exists>ds. length ds = Suc (length fs) \<and> ds ! 0 = d \<and> ds ! length fs = d' \<and>
        (\<forall>i < length fs. (fs ! i) (ds ! i) = Returns (ds ! Suc i))"
proof (induction fs arbitrary: d)
  case Nil
  then have "length [d] = Suc (length []) \<and> [d] ! 0 = d \<and> [d] ! length [] = d'" by simp
  then show ?case by (intro exI [of _ "[d]"]) simp
next
  case (Cons f fs)
  from Cons.prems obtain d1 where one: "f d = Returns d1"
    and rest: "in_sequence fs d1 = Returns d'"
    by (auto simp: and_then_Returns)
  from Cons.IH [OF rest] obtain ds where len: "length ds = Suc (length fs)"
    and first: "ds ! 0 = d1" and last: "ds ! length fs = d'"
    and steps: "\<forall>i < length fs. (fs ! i) (ds ! i) = Returns (ds ! Suc i)"
    by blast
  have "\<forall>i < length (f # fs). ((f # fs) ! i) ((d # ds) ! i) = Returns ((d # ds) ! Suc i)"
  proof (intro allI impI)
    fix i assume i: "i < length (f # fs)"
    show "((f # fs) ! i) ((d # ds) ! i) = Returns ((d # ds) ! Suc i)"
    proof (cases i)
      case 0
      with one first show ?thesis by simp
    next
      case (Suc j)
      with i steps show ?thesis by simp
    qed
  qed
  with len last show ?case by (intro exI [of _ "d # ds"]) simp
qed


lemma in_sequence_raises:
  "in_sequence fs d = Raises e d' \<Longrightarrow>
   \<exists>i ds. i < length fs \<and> length ds = Suc i \<and> ds ! 0 = d \<and>
        (\<forall>k < i. (fs ! k) (ds ! k) = Returns (ds ! Suc k)) \<and>
        (fs ! i) (ds ! i) = Raises e d'"
proof (induction fs arbitrary: d)
  case Nil
  then show ?case by simp
next
  case (Cons f fs)
  show ?case
  proof (cases "f d")
    case (Raises e1 d1)
    with Cons.prems have "f d = Raises e d'" by simp
    then have "0 < length (f # fs) \<and> length [d] = Suc 0 \<and> [d] ! 0 = d \<and>
        (\<forall>k < 0. ((f # fs) ! k) ([d] ! k) = Returns ([d] ! Suc k)) \<and>
        ((f # fs) ! 0) ([d] ! 0) = Raises e d'"
      by simp
    then show ?thesis by (intro exI [of _ 0] exI [of _ "[d]"])
  next
    case (Returns d1)
    with Cons.prems have "in_sequence fs d1 = Raises e d'" by simp
    from Cons.IH [OF this] obtain i ds where i: "i < length fs" and len: "length ds = Suc i"
      and first: "ds ! 0 = d1"
      and steps: "\<forall>k < i. (fs ! k) (ds ! k) = Returns (ds ! Suc k)"
      and last: "(fs ! i) (ds ! i) = Raises e d'"
      by blast
    have "\<forall>k < Suc i. ((f # fs) ! k) ((d # ds) ! k) = Returns ((d # ds) ! Suc k)"
    proof (intro allI impI)
      fix k assume k: "k < Suc i"
      show "((f # fs) ! k) ((d # ds) ! k) = Returns ((d # ds) ! Suc k)"
      proof (cases k)
        case 0
        with Returns first show ?thesis by simp
      next
        case (Suc j)
        with k steps show ?thesis by simp
      qed
    qed
    with i len last have "Suc i < length (f # fs) \<and> length (d # ds) = Suc (Suc i) \<and>
        (d # ds) ! 0 = d \<and>
        (\<forall>k < Suc i. ((f # fs) ! k) ((d # ds) ! k) = Returns ((d # ds) ! Suc k)) \<and>
        ((f # fs) ! Suc i) ((d # ds) ! Suc i) = Raises e d'"
      by simp
    then show ?thesis by (intro exI [of _ "Suc i"] exI [of _ "d # ds"])
  qed
qed

text \<open>
  C6. \<^verbatim>\<open>update_boundary\<close> runs through \<^verbatim>\<open>boundary_objects\<close> in order and stops at the first
  exception; the entry at position \<open>i\<close> is dealt with at the state the entries before it
  have left, and writes into the boundary slot \<open>i\<close>. An entry whose object is \<^verbatim>\<open>None\<close>
  is logged and skipped. Otherwise the boundary object is evaluated at the cell and edge of
  the entry, and the length of the vector it returns decides: as long as the list of
  evolved quantities, it is written into the boundary slot \<open>i\<close> of those quantities as it
  is; else, as long as the list of conserved quantities, the evolved edge values of the
  cell are fetched and both go through \<^verbatim>\<open>conserved_values_to_evolved_values\<close>, which in
  \<^verbatim>\<open>Generic_Domain\<close> returns the conserved values when the two lengths agree and raises
  otherwise (and so always raises on this path); any other length raises. Writing a vector
  \<open>q\<close> into slot \<open>i\<close> sets \<open>boundary_values[i]\<close> of the quantity named at position \<open>j\<close> to
  \<open>q[j]\<close> and leaves the other quantities alone.
\<close>

theorem update_boundary_dispatch:
  "(boundary_objects d = Some objs \<longrightarrow>
      update_boundary X d =
        in_sequence (map (\<lambda>i. update_boundary_entry X i (objs ! i)) [0 ..< length objs])
          (called Update_boundary d)) \<and>
   (boundary_objects d = Some objs \<and> update_boundary X d = Returns d' \<longrightarrow>
      (\<exists>ds. length ds = Suc (length objs) \<and> ds ! 0 = called Update_boundary d \<and>
            ds ! length objs = d' \<and>
            (\<forall>i < length objs.
               update_boundary_entry X i (objs ! i) (ds ! i) = Returns (ds ! Suc i)))) \<and>
   (boundary_objects d = Some objs \<and> update_boundary X d = Raises e d' \<longrightarrow>
      (\<exists>n ds. n < length objs \<and> length ds = Suc n \<and> ds ! 0 = called Update_boundary d \<and>
            (\<forall>i < n. update_boundary_entry X i (objs ! i) (ds ! i) = Returns (ds ! Suc i)) \<and>
            update_boundary_entry X n (objs ! n) (ds ! n) = Raises e d')) \<and>
   (boundary_objects d = None \<longrightarrow>
      update_boundary X d =
        Raises (AttributeError ''boundary_objects'') (called Update_boundary d)) \<and>
   update_boundary_entry X i ((vol_id, edge_id), None) s =
     Returns (s\<lparr>log := log s @ [Ignored_boundary_segment]\<rparr>) \<and>
   (evaluate X B s vol_id edge_id = Inl e \<longrightarrow>
      update_boundary_entry X i ((vol_id, edge_id), Some B) s = Raises e s) \<and>
   (evaluate X B s vol_id edge_id = Inr q_bdry \<longrightarrow>
      (length q_bdry = length (evolved_quantities s) \<longrightarrow>
         update_boundary_entry X i ((vol_id, edge_id), Some B) s =
           write_boundary_values i q_bdry 0 (evolved_quantities s) s) \<and>
      (length q_bdry \<noteq> length (evolved_quantities s) \<and>
       length q_bdry = length (conserved_quantities s) \<longrightarrow>
         update_boundary_entry X i ((vol_id, edge_id), Some B) s =
           (case get_evolved_quantities s vol_id None (Some edge_id) of
              Inl e \<Rightarrow> Raises e s
            | Inr q_evol \<Rightarrow>
               (case conserved_to_evolved X s q_bdry q_evol of
                  Inl e \<Rightarrow> Raises e s
                | Inr q_evol' \<Rightarrow> write_boundary_values i q_evol' 0 (evolved_quantities s) s))) \<and>
      (length q_bdry \<noteq> length (evolved_quantities s) \<and>
       length q_bdry \<noteq> length (conserved_quantities s) \<longrightarrow>
         update_boundary_entry X i ((vol_id, edge_id), Some B) s =
           Raises (Exception Boundary_must_return_conserved_or_evolved) s) \<and>
      (conserved_values_to_evolved_values_override X = None \<and>
       length q_bdry \<noteq> length (evolved_quantities s) \<and>
       length q_bdry = length (conserved_quantities s) \<and>
       get_evolved_quantities s vol_id None (Some edge_id) = Inr q_edge \<longrightarrow>
         update_boundary_entry X i ((vol_id, edge_id), Some B) s =
           Raises (Exception Must_override_conserved_values_to_evolved_values) s) \<and>
      (length q_bdry = length (evolved_quantities s) \<and> distinct (evolved_quantities s) \<and>
       (\<forall>name \<in> set (evolved_quantities s).
           \<exists>Q. quantities s name = Some Q \<and> i < length (boundary_values Q)) \<longrightarrow>
         (\<exists>s'. update_boundary_entry X i ((vol_id, edge_id), Some B) s = Returns s' \<and>
            (\<forall>j < length (evolved_quantities s).
               \<exists>Q. quantities s (evolved_quantities s ! j) = Some Q \<and>
                   quantities s' (evolved_quantities s ! j) =
                     Some (Q\<lparr>boundary_values := (boundary_values Q)[i := q_bdry ! j]\<rparr>)) \<and>
            (\<forall>name. name \<notin> set (evolved_quantities s) \<longrightarrow>
               quantities s' name = quantities s name) \<and>
            (\<exists>qs. s' = s\<lparr>quantities := qs\<rparr>)))) \<and>
   (conserved_values_to_evolved_values_override X = None \<longrightarrow>
      conserved_to_evolved X s q_cons q_evol =
        (if length q_cons = length q_evol then Inr q_cons
         else Inl (Exception Must_override_conserved_values_to_evolved_values))) \<and>
   (distinct (evolved_quantities s) \<and> length q = length (evolved_quantities s) \<and>
    (\<forall>name \<in> set (evolved_quantities s).
        \<exists>Q. quantities s name = Some Q \<and> i < length (boundary_values Q)) \<longrightarrow>
      (\<exists>s'. write_boundary_values i q 0 (evolved_quantities s) s = Returns s' \<and>
         (\<forall>j < length (evolved_quantities s).
            \<exists>Q. quantities s (evolved_quantities s ! j) = Some Q \<and>
                quantities s' (evolved_quantities s ! j) =
                  Some (Q\<lparr>boundary_values := (boundary_values Q)[i := q ! j]\<rparr>)) \<and>
         (\<forall>name. name \<notin> set (evolved_quantities s) \<longrightarrow>
            quantities s' name = quantities s name)))"
proof -
  let ?entry = "update_boundary_entry X i ((vol_id, edge_id), Some B) s"
  have loop: "boundary_objects d = Some objs \<longrightarrow>
      update_boundary X d =
        in_sequence (map (\<lambda>i. update_boundary_entry X i (objs ! i)) [0 ..< length objs])
          (called Update_boundary d)"
  proof
    assume "boundary_objects d = Some objs"
    then have "boundary_objects (called Update_boundary d) = Some objs"
      by (simp add: called_def)
    then show "update_boundary X d =
        in_sequence (map (\<lambda>i. update_boundary_entry X i (objs ! i)) [0 ..< length objs])
          (called Update_boundary d)"
      using update_boundary_loop_in_sequence [of X 0 objs "called Update_boundary d"]
      by (simp add: update_boundary_def Let_def)
  qed
  have each: "boundary_objects d = Some objs \<and> update_boundary X d = Returns d' \<longrightarrow>
      (\<exists>ds. length ds = Suc (length objs) \<and> ds ! 0 = called Update_boundary d \<and>
            ds ! length objs = d' \<and>
            (\<forall>i < length objs.
               update_boundary_entry X i (objs ! i) (ds ! i) = Returns (ds ! Suc i)))"
  proof (intro impI, elim conjE)
    assume bo: "boundary_objects d = Some objs" and r: "update_boundary X d = Returns d'"
    let ?fs = "map (\<lambda>i. update_boundary_entry X i (objs ! i)) [0 ..< length objs]"
    from loop bo r have "in_sequence ?fs (called Update_boundary d) = Returns d'" by simp
    from in_sequence_states [OF this] obtain ds where
      len: "length ds = Suc (length ?fs)" and first: "ds ! 0 = called Update_boundary d"
      and last: "ds ! length ?fs = d'"
      and steps: "\<forall>i < length ?fs. (?fs ! i) (ds ! i) = Returns (ds ! Suc i)"
      by blast
    have "\<forall>i < length objs. update_boundary_entry X i (objs ! i) (ds ! i) = Returns (ds ! Suc i)"
    proof (intro allI impI)
      fix i assume i: "i < length objs"
      with steps have "(?fs ! i) (ds ! i) = Returns (ds ! Suc i)" by simp
      with i show "update_boundary_entry X i (objs ! i) (ds ! i) = Returns (ds ! Suc i)"
        by simp
    qed
    with len first last
    show "\<exists>ds. length ds = Suc (length objs) \<and> ds ! 0 = called Update_boundary d \<and>
            ds ! length objs = d' \<and>
            (\<forall>i < length objs.
               update_boundary_entry X i (objs ! i) (ds ! i) = Returns (ds ! Suc i))"
      by (intro exI [of _ ds]) simp
  qed
  have stopped: "boundary_objects d = Some objs \<and> update_boundary X d = Raises e d' \<longrightarrow>
      (\<exists>n ds. n < length objs \<and> length ds = Suc n \<and> ds ! 0 = called Update_boundary d \<and>
            (\<forall>i < n. update_boundary_entry X i (objs ! i) (ds ! i) = Returns (ds ! Suc i)) \<and>
            update_boundary_entry X n (objs ! n) (ds ! n) = Raises e d')"
  proof (intro impI, elim conjE)
    assume bo: "boundary_objects d = Some objs" and r: "update_boundary X d = Raises e d'"
    let ?fs = "map (\<lambda>i. update_boundary_entry X i (objs ! i)) [0 ..< length objs]"
    from loop bo r have "in_sequence ?fs (called Update_boundary d) = Raises e d'" by simp
    from in_sequence_raises [OF this] obtain n ds where
      n: "n < length ?fs" and len: "length ds = Suc n"
      and first: "ds ! 0 = called Update_boundary d"
      and steps: "\<forall>k < n. (?fs ! k) (ds ! k) = Returns (ds ! Suc k)"
      and last: "(?fs ! n) (ds ! n) = Raises e d'"
      by blast
    from n have n': "n < length objs" by simp
    have "\<forall>i < n. update_boundary_entry X i (objs ! i) (ds ! i) = Returns (ds ! Suc i)"
    proof (intro allI impI)
      fix i assume i: "i < n"
      with steps have "(?fs ! i) (ds ! i) = Returns (ds ! Suc i)" by simp
      moreover from i n' have "i < length objs" by simp
      ultimately show "update_boundary_entry X i (objs ! i) (ds ! i) = Returns (ds ! Suc i)"
        by simp
    qed
    moreover from last n' have "update_boundary_entry X n (objs ! n) (ds ! n) = Raises e d'"
      by simp
    ultimately
    show "\<exists>n ds. n < length objs \<and> length ds = Suc n \<and> ds ! 0 = called Update_boundary d \<and>
            (\<forall>i < n. update_boundary_entry X i (objs ! i) (ds ! i) = Returns (ds ! Suc i)) \<and>
            update_boundary_entry X n (objs ! n) (ds ! n) = Raises e d'"
      using n' len first by (intro exI [of _ n] exI [of _ ds]) simp
  qed
  have unbound: "boundary_objects d = None \<longrightarrow>
      update_boundary X d =
        Raises (AttributeError ''boundary_objects'') (called Update_boundary d)"
    by (simp add: update_boundary_def Let_def called_def)
  have skipped: "update_boundary_entry X i ((vol_id, edge_id), None) s =
      Returns (s\<lparr>log := log s @ [Ignored_boundary_segment]\<rparr>)"
    by (simp add: update_boundary_entry_def)
  have failed: "evaluate X B s vol_id edge_id = Inl e \<longrightarrow> ?entry = Raises e s"
    by (simp add: update_boundary_entry_def)
  have default: "conserved_values_to_evolved_values_override X = None \<longrightarrow>
      conserved_to_evolved X s q_cons q_evol =
        (if length q_cons = length q_evol then Inr q_cons
         else Inl (Exception Must_override_conserved_values_to_evolved_values))"
    by (simp add: conserved_to_evolved_def conserved_values_to_evolved_values_def)
  have written: "\<exists>s'. write_boundary_values i q 0 (evolved_quantities s) s = Returns s' \<and>
         (\<forall>j < length (evolved_quantities s).
            \<exists>Q. quantities s (evolved_quantities s ! j) = Some Q \<and>
                quantities s' (evolved_quantities s ! j) =
                  Some (Q\<lparr>boundary_values := (boundary_values Q)[i := q ! j]\<rparr>)) \<and>
         (\<forall>name. name \<notin> set (evolved_quantities s) \<longrightarrow>
            quantities s' name = quantities s name) \<and>
         (\<exists>qs. s' = s\<lparr>quantities := qs\<rparr>)"
    if a: "distinct (evolved_quantities s)" "length q = length (evolved_quantities s)"
      "\<forall>name \<in> set (evolved_quantities s).
          \<exists>Q. quantities s name = Some Q \<and> i < length (boundary_values Q)" for q
  proof -
    from a(2) have "0 + length (evolved_quantities s) \<le> length q" by simp
    from write_boundary_values_result [OF a(1) this a(3)] show ?thesis by simp
  qed
  have written': "distinct (evolved_quantities s) \<and> length q = length (evolved_quantities s) \<and>
      (\<forall>name \<in> set (evolved_quantities s).
          \<exists>Q. quantities s name = Some Q \<and> i < length (boundary_values Q)) \<longrightarrow>
      (\<exists>s'. write_boundary_values i q 0 (evolved_quantities s) s = Returns s' \<and>
         (\<forall>j < length (evolved_quantities s).
            \<exists>Q. quantities s (evolved_quantities s ! j) = Some Q \<and>
                quantities s' (evolved_quantities s ! j) =
                  Some (Q\<lparr>boundary_values := (boundary_values Q)[i := q ! j]\<rparr>)) \<and>
         (\<forall>name. name \<notin> set (evolved_quantities s) \<longrightarrow>
            quantities s' name = quantities s name))"
  proof (intro impI, elim conjE)
    assume a: "distinct (evolved_quantities s)" "length q = length (evolved_quantities s)"
      "\<forall>name \<in> set (evolved_quantities s).
          \<exists>Q. quantities s name = Some Q \<and> i < length (boundary_values Q)"
    from written [OF a] obtain s' where
      "write_boundary_values i q 0 (evolved_quantities s) s = Returns s'"
      "\<forall>j < length (evolved_quantities s).
            \<exists>Q. quantities s (evolved_quantities s ! j) = Some Q \<and>
                quantities s' (evolved_quantities s ! j) =
                  Some (Q\<lparr>boundary_values := (boundary_values Q)[i := q ! j]\<rparr>)"
      "\<forall>name. name \<notin> set (evolved_quantities s) \<longrightarrow> quantities s' name = quantities s name"
      by blast
    then show "\<exists>s'. write_boundary_values i q 0 (evolved_quantities s) s = Returns s' \<and>
         (\<forall>j < length (evolved_quantities s).
            \<exists>Q. quantities s (evolved_quantities s ! j) = Some Q \<and>
                quantities s' (evolved_quantities s ! j) =
                  Some (Q\<lparr>boundary_values := (boundary_values Q)[i := q ! j]\<rparr>)) \<and>
         (\<forall>name. name \<notin> set (evolved_quantities s) \<longrightarrow>
            quantities s' name = quantities s name)"
      by (intro exI [of _ s'] conjI)
  qed
  have evaluated: "evaluate X B s vol_id edge_id = Inr q_bdry \<longrightarrow>
      (length q_bdry = length (evolved_quantities s) \<longrightarrow>
         ?entry = write_boundary_values i q_bdry 0 (evolved_quantities s) s) \<and>
      (length q_bdry \<noteq> length (evolved_quantities s) \<and>
       length q_bdry = length (conserved_quantities s) \<longrightarrow>
         ?entry =
           (case get_evolved_quantities s vol_id None (Some edge_id) of
              Inl e \<Rightarrow> Raises e s
            | Inr q_evol \<Rightarrow>
               (case conserved_to_evolved X s q_bdry q_evol of
                  Inl e \<Rightarrow> Raises e s
                | Inr q_evol' \<Rightarrow> write_boundary_values i q_evol' 0 (evolved_quantities s) s))) \<and>
      (length q_bdry \<noteq> length (evolved_quantities s) \<and>
       length q_bdry \<noteq> length (conserved_quantities s) \<longrightarrow>
         ?entry = Raises (Exception Boundary_must_return_conserved_or_evolved) s) \<and>
      (conserved_values_to_evolved_values_override X = None \<and>
       length q_bdry \<noteq> length (evolved_quantities s) \<and>
       length q_bdry = length (conserved_quantities s) \<and>
       get_evolved_quantities s vol_id None (Some edge_id) = Inr q_edge \<longrightarrow>
         ?entry = Raises (Exception Must_override_conserved_values_to_evolved_values) s) \<and>
      (length q_bdry = length (evolved_quantities s) \<and> distinct (evolved_quantities s) \<and>
       (\<forall>name \<in> set (evolved_quantities s).
           \<exists>Q. quantities s name = Some Q \<and> i < length (boundary_values Q)) \<longrightarrow>
         (\<exists>s'. ?entry = Returns s' \<and>
            (\<forall>j < length (evolved_quantities s).
               \<exists>Q. quantities s (evolved_quantities s ! j) = Some Q \<and>
                   quantities s' (evolved_quantities s ! j) =
                     Some (Q\<lparr>boundary_values := (boundary_values Q)[i := q_bdry ! j]\<rparr>)) \<and>
            (\<forall>name. name \<notin> set (evolved_quantities s) \<longrightarrow>
               quantities s' name = quantities s name) \<and>
            (\<exists>qs. s' = s\<lparr>quantities := qs\<rparr>)))"
  proof
    assume ev: "evaluate X B s vol_id edge_id = Inr q_bdry"
    have direct: "length q_bdry = length (evolved_quantities s) \<longrightarrow>
        ?entry = write_boundary_values i q_bdry 0 (evolved_quantities s) s"
      using ev by (simp add: update_boundary_entry_def)
    have converted: "length q_bdry \<noteq> length (evolved_quantities s) \<and>
        length q_bdry = length (conserved_quantities s) \<longrightarrow>
        ?entry =
          (case get_evolved_quantities s vol_id None (Some edge_id) of
             Inl e \<Rightarrow> Raises e s
           | Inr q_evol \<Rightarrow>
              (case conserved_to_evolved X s q_bdry q_evol of
                 Inl e \<Rightarrow> Raises e s
               | Inr q_evol' \<Rightarrow> write_boundary_values i q_evol' 0 (evolved_quantities s) s))"
      using ev by (simp add: update_boundary_entry_def)
    have wrong: "length q_bdry \<noteq> length (evolved_quantities s) \<and>
        length q_bdry \<noteq> length (conserved_quantities s) \<longrightarrow>
        ?entry = Raises (Exception Boundary_must_return_conserved_or_evolved) s"
      using ev by (simp add: update_boundary_entry_def)
    have must: "conserved_values_to_evolved_values_override X = None \<and>
        length q_bdry \<noteq> length (evolved_quantities s) \<and>
        length q_bdry = length (conserved_quantities s) \<and>
        get_evolved_quantities s vol_id None (Some edge_id) = Inr q_edge \<longrightarrow>
        ?entry = Raises (Exception Must_override_conserved_values_to_evolved_values) s"
    proof (intro impI, elim conjE)
      assume none: "conserved_values_to_evolved_values_override X = None"
        and ne: "length q_bdry \<noteq> length (evolved_quantities s)"
        and eq: "length q_bdry = length (conserved_quantities s)"
        and g: "get_evolved_quantities s vol_id None (Some edge_id) = Inr q_edge"
      from get_evolved_quantities_length [OF g] ne have "length q_bdry \<noteq> length q_edge" by simp
      with none have "conserved_to_evolved X s q_bdry q_edge =
          Inl (Exception Must_override_conserved_values_to_evolved_values)"
        by (simp add: conserved_to_evolved_def conserved_values_to_evolved_values_def)
      with converted ne eq g show "?entry =
          Raises (Exception Must_override_conserved_values_to_evolved_values) s" by simp
    qed
    have slot: "length q_bdry = length (evolved_quantities s) \<and> distinct (evolved_quantities s) \<and>
       (\<forall>name \<in> set (evolved_quantities s).
           \<exists>Q. quantities s name = Some Q \<and> i < length (boundary_values Q)) \<longrightarrow>
         (\<exists>s'. ?entry = Returns s' \<and>
            (\<forall>j < length (evolved_quantities s).
               \<exists>Q. quantities s (evolved_quantities s ! j) = Some Q \<and>
                   quantities s' (evolved_quantities s ! j) =
                     Some (Q\<lparr>boundary_values := (boundary_values Q)[i := q_bdry ! j]\<rparr>)) \<and>
            (\<forall>name. name \<notin> set (evolved_quantities s) \<longrightarrow>
               quantities s' name = quantities s name) \<and>
            (\<exists>qs. s' = s\<lparr>quantities := qs\<rparr>))"
    proof (intro impI, elim conjE)
      assume a: "length q_bdry = length (evolved_quantities s)"
        "distinct (evolved_quantities s)"
        "\<forall>name \<in> set (evolved_quantities s).
           \<exists>Q. quantities s name = Some Q \<and> i < length (boundary_values Q)"
      from direct a(1)
      have "?entry = write_boundary_values i q_bdry 0 (evolved_quantities s) s" by simp
      with written [OF a(2) a(1) a(3)]
      show "\<exists>s'. ?entry = Returns s' \<and>
            (\<forall>j < length (evolved_quantities s).
               \<exists>Q. quantities s (evolved_quantities s ! j) = Some Q \<and>
                   quantities s' (evolved_quantities s ! j) =
                     Some (Q\<lparr>boundary_values := (boundary_values Q)[i := q_bdry ! j]\<rparr>)) \<and>
            (\<forall>name. name \<notin> set (evolved_quantities s) \<longrightarrow>
               quantities s' name = quantities s name) \<and>
            (\<exists>qs. s' = s\<lparr>quantities := qs\<rparr>)"
        by simp
    qed
    show "(length q_bdry = length (evolved_quantities s) \<longrightarrow>
         ?entry = write_boundary_values i q_bdry 0 (evolved_quantities s) s) \<and>
      (length q_bdry \<noteq> length (evolved_quantities s) \<and>
       length q_bdry = length (conserved_quantities s) \<longrightarrow>
         ?entry =
           (case get_evolved_quantities s vol_id None (Some edge_id) of
              Inl e \<Rightarrow> Raises e s
            | Inr q_evol \<Rightarrow>
               (case conserved_to_evolved X s q_bdry q_evol of
                  Inl e \<Rightarrow> Raises e s
                | Inr q_evol' \<Rightarrow> write_boundary_values i q_evol' 0 (evolved_quantities s) s))) \<and>
      (length q_bdry \<noteq> length (evolved_quantities s) \<and>
       length q_bdry \<noteq> length (conserved_quantities s) \<longrightarrow>
         ?entry = Raises (Exception Boundary_must_return_conserved_or_evolved) s) \<and>
      (conserved_values_to_evolved_values_override X = None \<and>
       length q_bdry \<noteq> length (evolved_quantities s) \<and>
       length q_bdry = length (conserved_quantities s) \<and>
       get_evolved_quantities s vol_id None (Some edge_id) = Inr q_edge \<longrightarrow>
         ?entry = Raises (Exception Must_override_conserved_values_to_evolved_values) s) \<and>
      (length q_bdry = length (evolved_quantities s) \<and> distinct (evolved_quantities s) \<and>
       (\<forall>name \<in> set (evolved_quantities s).
           \<exists>Q. quantities s name = Some Q \<and> i < length (boundary_values Q)) \<longrightarrow>
         (\<exists>s'. ?entry = Returns s' \<and>
            (\<forall>j < length (evolved_quantities s).
               \<exists>Q. quantities s (evolved_quantities s ! j) = Some Q \<and>
                   quantities s' (evolved_quantities s ! j) =
                     Some (Q\<lparr>boundary_values := (boundary_values Q)[i := q_bdry ! j]\<rparr>)) \<and>
            (\<forall>name. name \<notin> set (evolved_quantities s) \<longrightarrow>
               quantities s' name = quantities s name) \<and>
            (\<exists>qs. s' = s\<lparr>quantities := qs\<rparr>)))"
      by (intro conjI direct converted wrong must slot)
  qed
  show ?thesis
    by (intro conjI loop each stopped unbound skipped failed evaluated default written')
qed


theorem update_boundary_dispatch_witness:
  "boundary_objects
     (example_domain\<lparr>boundary_objects := Some [((0, 0), Some 3), ((0, 1), None), ((1, 0), Some 3)]\<rparr>) =
     Some [((0, 0), Some 3), ((0, 1), None), ((1, 0), Some 3)] \<and>
   returns_normally
     (update_boundary example_collaborators
        (example_domain\<lparr>boundary_objects :=
           Some [((0, 0), Some 3), ((0, 1), None), ((1, 0), Some 3)]\<rparr>)) \<and>
   map_option boundary_values
     (quantities (state_of
        (update_boundary example_collaborators
           (example_domain\<lparr>boundary_objects :=
              Some [((0, 0), Some 3), ((0, 1), None), ((1, 0), Some 3)]\<rparr>)))
        ''stage'') = Some [1, 0, 1, 0] \<and>
   log (state_of
        (update_boundary example_collaborators
           (example_domain\<lparr>boundary_objects :=
              Some [((0, 0), Some 3), ((0, 1), None), ((1, 0), Some 3)]\<rparr>))) =
     [Ignored_boundary_segment] \<and>
   update_boundary example_collaborators
     (example_domain\<lparr>boundary_objects := Some [((0, 1), None), ((1, 0), Some 5)]\<rparr>) =
     Raises (Exception Boundary_must_return_conserved_or_evolved)
       (example_domain\<lparr>boundary_objects := Some [((0, 1), None), ((1, 0), Some 5)],
          calls := [(Update_boundary, 0)], log := [Ignored_boundary_segment]\<rparr>) \<and>
   update_boundary_entry example_collaborators 1 ((0, 0), Some 3)
     (example_domain\<lparr>evolved_quantities := [''stage'', ''xmomentum'', ''ymomentum'', ''height''],
        quantities := [''stage'' \<mapsto> example_quantity 10, ''xmomentum'' \<mapsto> example_quantity 0,
          ''ymomentum'' \<mapsto> example_quantity 0, ''height'' \<mapsto> example_quantity 2]\<rparr>) =
     Raises (Exception Must_override_conserved_values_to_evolved_values)
       (example_domain\<lparr>evolved_quantities := [''stage'', ''xmomentum'', ''ymomentum'', ''height''],
          quantities := [''stage'' \<mapsto> example_quantity 10, ''xmomentum'' \<mapsto> example_quantity 0,
            ''ymomentum'' \<mapsto> example_quantity 0, ''height'' \<mapsto> example_quantity 2]\<rparr>)"
proof -
  let ?X = example_collaborators
  let ?objs = "[((0, 0), Some 3), ((0, 1), None), ((1, 0), Some 3)]
    :: ((nat \<times> nat) \<times> object_ref option) list"
  let ?objs5 = "[((0, 1), None), ((1, 0), Some 5)] :: ((nat \<times> nat) \<times> object_ref option) list"
  let ?d = "example_domain\<lparr>boundary_objects := Some ?objs\<rparr>"
  let ?d5 = "example_domain\<lparr>boundary_objects := Some ?objs5\<rparr>"
  let ?d4 = "example_domain\<lparr>evolved_quantities := [''stage'', ''xmomentum'', ''ymomentum'', ''height''],
        quantities := [''stage'' \<mapsto> example_quantity 10, ''xmomentum'' \<mapsto> example_quantity 0,
          ''ymomentum'' \<mapsto> example_quantity 0, ''height'' \<mapsto> example_quantity 2]\<rparr>"
  have bo: "boundary_objects ?d = Some ?objs" and bo5: "boundary_objects ?d5 = Some ?objs5"
    by simp_all
  have e4: "evaluate ?X 3 ?d4 0 0 = Inr [1, 1, 1]"
    by (simp add: example_collaborators_def numeral_eq_Suc)
  have len: "length (evolved_quantities ?d4) = 4" "length (conserved_quantities ?d4) = 3"
    by (simp_all add: example_domain_def)
  have default: "conserved_values_to_evolved_values_override ?X = None"
    by (simp add: example_collaborators_def)
  have edge: "get_evolved_quantities ?d4 0 None (Some 0) = Inr [10, 0, 0, 2]"
    by (simp add: get_evolved_quantities_def value_at_def item2_def example_domain_def
        example_quantity_def)
  note run = update_boundary_entry_def called_def item_def set_item_def upt_rec
    example_domain_def example_quantity_def example_collaborators_def numeral_eq_Suc
  from update_boundary_dispatch [where d = ?d and objs = ?objs and X = ?X,
      THEN conjunct1, rule_format, OF bo]
  have eq: "update_boundary ?X ?d =
      in_sequence (map (\<lambda>i. update_boundary_entry ?X i (?objs ! i)) [0 ..< length ?objs])
        (called Update_boundary ?d)" .
  have whole: "returns_normally (update_boundary ?X ?d) \<and>
      map_option boundary_values (quantities (state_of (update_boundary ?X ?d)) ''stage'') =
        Some [1, 0, 1, 0] \<and>
      log (state_of (update_boundary ?X ?d)) = [Ignored_boundary_segment]"
    unfolding eq by (simp add: run)
  from update_boundary_dispatch [where d = ?d5 and objs = ?objs5 and X = ?X,
      THEN conjunct1, rule_format, OF bo5]
  have eq5: "update_boundary ?X ?d5 =
      in_sequence (map (\<lambda>i. update_boundary_entry ?X i (?objs5 ! i)) [0 ..< length ?objs5])
        (called Update_boundary ?d5)" .
  have wrong: "update_boundary ?X ?d5 =
      Raises (Exception Boundary_must_return_conserved_or_evolved)
        (example_domain\<lparr>boundary_objects := Some ?objs5,
           calls := [(Update_boundary, 0)], log := [Ignored_boundary_segment]\<rparr>)"
    unfolding eq5 by (simp add: run)
  from update_boundary_dispatch [where X = ?X and B = 3 and s = ?d4 and vol_id = 0
      and edge_id = 0 and q_bdry = "[1, 1, 1]" and i = 1 and q_edge = "[10, 0, 0, 2]"]
    e4 len default edge
  have must: "update_boundary_entry ?X 1 ((0, 0), Some 3) ?d4 =
      Raises (Exception Must_override_conserved_values_to_evolved_values) ?d4" by simp
  from bo whole wrong must show ?thesis by (intro conjI) simp_all
qed

subsection \<open>Evolution steps\<close>

lemma for_each_quantity_clock:
  "for_each_quantity f names d = Returns d' \<Longrightarrow> clock d' = clock d"
  by (induction names arbitrary: d) (auto simp: clock_def split: option.splits)

lemma update_ghosts_loop_clock:
  "update_ghosts_loop Idf Idg qs d = Returns d' \<Longrightarrow> clock d' = clock d"
  by (induction qs arbitrary: d) (auto simp: clock_def split: option.splits sum.splits)

lemma distribute_loop_clock:
  "distribute_loop X names d = Returns d' \<Longrightarrow> clock d' = clock d"
  by (induction names arbitrary: d) (auto simp: clock_def split: option.splits if_splits)

lemma compute_forcing_terms_loop_clock:
  "compute_forcing_terms_loop X fs d = Returns d' \<Longrightarrow> clock d' = clock d"
  by (induction fs arbitrary: d) (auto simp: clock_def split: sum.splits prod.splits)

lemma write_boundary_values_clock:
  "write_boundary_values i q j names d = Returns d' \<Longrightarrow> clock d' = clock d"
  by (induction names arbitrary: d j) (auto simp: clock_def split: option.splits sum.splits)

lemma update_boundary_entry_clock:
  "update_boundary_entry X i entry d = Returns d' \<Longrightarrow> clock d' = clock d"
proof -
  assume r: "update_boundary_entry X i entry d = Returns d'"
  obtain c e ob where entry: "entry = ((c, e), ob)" by (cases entry) auto
  show ?thesis
  proof (cases ob)
    case None
    with r entry show ?thesis by (auto simp: update_boundary_entry_def clock_def)
  next
    case (Some B)
    with r entry obtain q where "write_boundary_values i q 0 (evolved_quantities d) d = Returns d'"
      by (auto simp: update_boundary_entry_def split: sum.splits if_splits)
    then show ?thesis by (rule write_boundary_values_clock)
  qed
qed

lemma update_boundary_loop_clock:
  "update_boundary_loop X i entries d = Returns d' \<Longrightarrow> clock d' = clock d"
proof (induction entries arbitrary: d i)
  case Nil
  then show ?case by simp
next
  case (Cons entry entries)
  from Cons.prems obtain d1 where one: "update_boundary_entry X i entry d = Returns d1"
    and rest: "update_boundary_loop X (Suc i) entries d1 = Returns d'"
    by (auto split: outcome.splits)
  from Cons.IH [OF rest] update_boundary_entry_clock [OF one] show ?case by simp
qed


lemma clock_called: "clock (called c d) = recorded c (clock d)"
  by (simp add: clock_def called_def recorded_def)

lemma compute_fluxes_clock:
  "compute_fluxes X d = Returns d' \<Longrightarrow> clock d' = recorded Compute_fluxes (clock d)"
  by (auto simp: compute_fluxes_def Let_def clock_def called_def recorded_def
      split: option.splits sum.splits)

lemma compute_forcing_terms_clock:
  "compute_forcing_terms X d = Returns d' \<Longrightarrow> clock d' = recorded Compute_forcing_terms (clock d)"
  using compute_forcing_terms_loop_clock [of X "forcing_terms (called Compute_forcing_terms d)"
      "called Compute_forcing_terms d" d']
  by (simp add: compute_forcing_terms_def Let_def clock_called)

lemma update_conserved_quantities_clock:
  "update_conserved_quantities X d = Returns d' \<Longrightarrow>
   clock d' = recorded (Update_conserved_quantities (timestep d)) (clock d)"
  by (auto simp: update_conserved_quantities_def Let_def clock_called
      dest: for_each_quantity_clock)

lemma backup_conserved_quantities_clock:
  "backup_conserved_quantities d = Returns d' \<Longrightarrow>
   clock d' = recorded Backup_conserved_quantities (clock d)"
  by (auto simp: backup_conserved_quantities_def Let_def clock_called
      dest: for_each_quantity_clock)

lemma saxpy_conserved_quantities_clock:
  "saxpy_conserved_quantities a b d = Returns d' \<Longrightarrow>
   clock d' = recorded (Saxpy_conserved_quantities a b) (clock d)"
  by (auto simp: saxpy_conserved_quantities_def Let_def clock_called
      dest: for_each_quantity_clock)

lemma update_ghosts_clock:
  "update_ghosts d = Returns d' \<Longrightarrow> clock d' = recorded Update_ghosts (clock d)"
  by (auto simp: update_ghosts_def Let_def clock_called split: option.splits
      dest: update_ghosts_loop_clock)

lemma distribute_to_vertices_and_edges_clock:
  "distribute_to_vertices_and_edges X d = Returns d' \<Longrightarrow>
   clock d' = recorded Distribute_to_vertices_and_edges (clock d)"
  by (auto simp: distribute_to_vertices_and_edges_def Let_def clock_called
      dest: distribute_loop_clock)

lemma update_boundary_clock:
  "update_boundary X d = Returns d' \<Longrightarrow> clock d' = recorded Update_boundary (clock d)"
  by (auto simp: update_boundary_def Let_def clock_called split: option.splits
      dest: update_boundary_loop_clock)


lemma update_timestep_clock:
  "update_timestep X yieldstep tfinal d = Returns d' \<Longrightarrow>
   clock d' = (time d, timestep d', yieldtime d, checkpoint d,
               calls d @ [(Update_timestep, time d)]) \<and>
   time d + timestep d' \<le> yieldtime d"
proof -
  assume r: "update_timestep X yieldstep tfinal d = Returns d'"
  from update_timestep_returns [OF r] obtain q m rmax rmin n k where
    d': "d' = d\<lparr>quantities := q, max_speed := m, recorded_max_timestep := rmax,
                  recorded_min_timestep := rmin, smallsteps := n, order := k,
                  calls := calls d @ [(Update_timestep, time d)],
                  timestep := fit_yieldtime d (fit_finaltime tfinal d (cfl_timestep d))\<rparr>"
    by blast
  have "clock d' = (time d, timestep d', yieldtime d, checkpoint d,
               calls d @ [(Update_timestep, time d)])"
    unfolding clock_def by (subst (1 3 4 5) d') simp
  moreover have "time d + timestep d' \<le> yieldtime d"
    using fit_bounds [of d tfinal "cfl_timestep d"] by (simp add: d')
  ultimately show ?thesis by blast
qed

lemma in_sequence_clock:
  assumes "list_all2 (\<lambda>f F. \<forall>d d'. f d = Returns d' \<longrightarrow> clock d' = F (clock d)) fs Fs"
    and "in_sequence fs d = Returns d'"
  shows "clock d' = fold (\<lambda>F k. F k) Fs (clock d)"
  using assms
proof (induction fs Fs arbitrary: d rule: list_all2_induct)
  case Nil
  then show ?case by simp
next
  case (Cons f fs F Fs)
  from Cons.prems obtain d1 where one: "f d = Returns d1"
    and rest: "in_sequence fs d1 = Returns d'"
    by (auto simp: and_then_Returns)
  from Cons.hyps(1) one have "clock d1 = F (clock d)" by blast
  with Cons.IH [OF rest] show ?case by simp
qed

lemma update_time_clock:
  "update_time d = Returns d' \<Longrightarrow>
   clock d' = (case clock d of (t, dt, yt, cp, cs) \<Rightarrow> (t + dt, dt, yt, cp, cs))"
  by (auto simp: update_time_def clock_def)

lemma set_substep_time_clock:
  "set_substep_time (t0 + timestep d * c) d = Returns d' \<Longrightarrow>
   clock d' = (case clock d of (t, dt, yt, cp, cs) \<Rightarrow> (t0 + dt * c, dt, yt, cp, cs))"
  by (auto simp: set_substep_time_def clock_def)

lemma set_time_clock:
  "set_substep_time (t0 + timestep d) d = Returns d' \<Longrightarrow>
   clock d' = (case clock d of (t, dt, yt, cp, cs) \<Rightarrow> (t0 + dt, dt, yt, cp, cs))"
  by (auto simp: set_substep_time_def clock_def)

lemma update_conserved_quantities_clock':
  "update_conserved_quantities X d = Returns d' \<Longrightarrow>
   clock d' = (case clock d of (t, dt, yt, cp, cs) \<Rightarrow>
                 (t, dt, yt, cp, cs @ [(Update_conserved_quantities dt, t)]))"
  by (drule update_conserved_quantities_clock) (simp add: clock_def recorded_def)

lemmas call_clocks =
  compute_fluxes_clock compute_forcing_terms_clock update_conserved_quantities_clock'
  backup_conserved_quantities_clock saxpy_conserved_quantities_clock update_ghosts_clock
  distribute_to_vertices_and_edges_clock update_boundary_clock update_time_clock
  set_substep_time_clock set_time_clock

lemma for_each_quantity_names:
  "for_each_quantity f names d = Returns d' \<Longrightarrow> conserved_quantities d' = conserved_quantities d"
  by (induction names arbitrary: d) (auto split: option.splits)

lemma update_ghosts_loop_names:
  "update_ghosts_loop Idf Idg qs d = Returns d' \<Longrightarrow>
   conserved_quantities d' = conserved_quantities d"
  by (induction qs arbitrary: d) (auto split: option.splits sum.splits)

lemma distribute_loop_names:
  "distribute_loop X names d = Returns d' \<Longrightarrow> conserved_quantities d' = conserved_quantities d"
  by (induction names arbitrary: d) (auto split: option.splits if_splits)

lemma compute_forcing_terms_loop_names:
  "compute_forcing_terms_loop X fs d = Returns d' \<Longrightarrow>
   conserved_quantities d' = conserved_quantities d"
  by (induction fs arbitrary: d) (auto split: sum.splits prod.splits)

lemma write_boundary_values_names:
  "write_boundary_values i q j names d = Returns d' \<Longrightarrow>
   conserved_quantities d' = conserved_quantities d"
  by (induction names arbitrary: d j) (auto split: option.splits sum.splits)

lemma update_boundary_entry_names:
  "update_boundary_entry X i entry d = Returns d' \<Longrightarrow>
   conserved_quantities d' = conserved_quantities d"
proof -
  assume r: "update_boundary_entry X i entry d = Returns d'"
  obtain c e ob where entry: "entry = ((c, e), ob)" by (cases entry) auto
  show ?thesis
  proof (cases ob)
    case None
    with r entry show ?thesis by (auto simp: update_boundary_entry_def)
  next
    case (Some B)
    with r entry obtain q where "write_boundary_values i q 0 (evolved_quantities d) d = Returns d'"
      by (auto simp: update_boundary_entry_def split: sum.splits if_splits)
    then show ?thesis by (rule write_boundary_values_names)
  qed
qed

lemma update_boundary_loop_names:
  "update_boundary_loop X i entries d = Returns d' \<Longrightarrow>
   conserved_quantities d' = conserved_quantities d"
proof (induction entries arbitrary: d i)
  case Nil
  then show ?case by simp
next
  case (Cons entry entries)
  from Cons.prems obtain d1 where one: "update_boundary_entry X i entry d = Returns d1"
    and rest: "update_boundary_loop X (Suc i) entries d1 = Returns d'"
    by (auto split: outcome.splits)
  from Cons.IH [OF rest] update_boundary_entry_names [OF one] show ?case by simp
qed

lemma compute_fluxes_names:
  "compute_fluxes X d = Returns d' \<Longrightarrow> conserved_quantities d' = conserved_quantities d"
  by (auto simp: compute_fluxes_def Let_def called_def split: option.splits sum.splits)

lemma compute_forcing_terms_names:
  "compute_forcing_terms X d = Returns d' \<Longrightarrow> conserved_quantities d' = conserved_quantities d"
  using compute_forcing_terms_loop_names [of X "forcing_terms (called Compute_forcing_terms d)"
      "called Compute_forcing_terms d" d']
  by (simp add: compute_forcing_terms_def Let_def called_def)

lemma update_conserved_quantities_names:
  "update_conserved_quantities X d = Returns d' \<Longrightarrow>
   conserved_quantities d' = conserved_quantities d"
  by (auto simp: update_conserved_quantities_def Let_def called_def
      dest: for_each_quantity_names)

lemma backup_conserved_quantities_names:
  "backup_conserved_quantities d = Returns d' \<Longrightarrow>
   conserved_quantities d' = conserved_quantities d"
  by (auto simp: backup_conserved_quantities_def Let_def called_def
      dest: for_each_quantity_names)

lemma saxpy_conserved_quantities_names:
  "saxpy_conserved_quantities a b d = Returns d' \<Longrightarrow>
   conserved_quantities d' = conserved_quantities d"
  by (auto simp: saxpy_conserved_quantities_def Let_def called_def
      dest: for_each_quantity_names)

lemma update_ghosts_names:
  "update_ghosts d = Returns d' \<Longrightarrow> conserved_quantities d' = conserved_quantities d"
  by (auto simp: update_ghosts_def Let_def called_def split: option.splits
      dest: update_ghosts_loop_names)

lemma distribute_to_vertices_and_edges_names:
  "distribute_to_vertices_and_edges X d = Returns d' \<Longrightarrow>
   conserved_quantities d' = conserved_quantities d"
  by (auto simp: distribute_to_vertices_and_edges_def Let_def called_def
      dest: distribute_loop_names)

lemma update_boundary_names:
  "update_boundary X d = Returns d' \<Longrightarrow> conserved_quantities d' = conserved_quantities d"
  by (auto simp: update_boundary_def Let_def called_def split: option.splits
      dest: update_boundary_loop_names)

lemma update_timestep_names:
  "update_timestep X yieldstep tfinal d = Returns d' \<Longrightarrow>
   conserved_quantities d' = conserved_quantities d"
  by (drule update_timestep_returns) auto

lemma update_time_names:
  "update_time d = Returns d' \<Longrightarrow> conserved_quantities d' = conserved_quantities d"
  by (auto simp: update_time_def)

lemma set_substep_time_names:
  "set_substep_time t d = Returns d' \<Longrightarrow> conserved_quantities d' = conserved_quantities d"
  by (auto simp: set_substep_time_def)

lemmas call_names =
  compute_fluxes_names compute_forcing_terms_names update_conserved_quantities_names
  backup_conserved_quantities_names saxpy_conserved_quantities_names update_ghosts_names
  distribute_to_vertices_and_edges_names update_boundary_names update_time_names
  set_substep_time_names update_timestep_names

lemma in_sequence_invariant:
  assumes "list_all (\<lambda>f. \<forall>d d'. f d = Returns d' \<longrightarrow> p d' = p d) fs"
    and "in_sequence fs d = Returns d'"
  shows "p d' = p d"
  using assms
proof (induction fs arbitrary: d)
  case Nil
  then show ?case by simp
next
  case (Cons f fs)
  from Cons.prems(2) obtain d1 where one: "f d = Returns d1"
    and rest: "in_sequence fs d1 = Returns d'"
    by (auto simp: and_then_Returns)
  from Cons.prems(1) one have "p d1 = p d" by simp
  moreover from Cons.prems(1) have "list_all (\<lambda>f. \<forall>d d'. f d = Returns d' \<longrightarrow> p d' = p d) fs"
    by simp
  from Cons.IH [OF this rest] have "p d' = p d1" .
  ultimately show ?case by simp
qed


lemma saved_values_update:
  "quantities d name = Some Q \<Longrightarrow> centroid_backup_values Q' = centroid_backup_values Q \<Longrightarrow>
   quantities d1 = (quantities d)(name \<mapsto> Q') \<Longrightarrow> saved_values d1 = saved_values d"
  by (auto simp: saved_values_def fun_eq_iff)

lemma saved_values_quantities:
  "quantities d' = quantities d \<Longrightarrow> saved_values d' = saved_values d"
  by (simp add: saved_values_def fun_eq_iff)

lemma for_each_quantity_saved:
  assumes "\<And>Q. centroid_backup_values (f Q) = centroid_backup_values Q"
    and "for_each_quantity f names d = Returns d'"
  shows "saved_values d' = saved_values d"
  using assms(2)
proof (induction names arbitrary: d)
  case Nil
  then show ?case by simp
next
  case (Cons name names)
  from Cons.prems obtain Q where Q: "quantities d name = Some Q"
    and rest: "for_each_quantity f names (d\<lparr>quantities := (quantities d)(name \<mapsto> f Q)\<rparr>) =
      Returns d'"
    by (auto split: option.splits)
  from Cons.IH [OF rest] saved_values_update [OF Q assms(1) [of Q]]
  show ?case by simp
qed

lemma update_ghosts_loop_saved:
  "update_ghosts_loop Idf Idg qs d = Returns d' \<Longrightarrow> saved_values d' = saved_values d"
proof (induction qs arbitrary: d)
  case Nil
  then show ?case by simp
next
  case (Cons q qs)
  from Cons.prems obtain Q cv where Q: "quantities d q = Some Q"
    and rest: "update_ghosts_loop Idf Idg qs
      (d\<lparr>quantities := (quantities d)(q \<mapsto> Q\<lparr>centroid_values := cv\<rparr>)\<rparr>) = Returns d'"
    by (auto split: option.splits sum.splits)
  from Cons.IH [OF rest] saved_values_update [OF Q, of "Q\<lparr>centroid_values := cv\<rparr>"]
  show ?case by simp
qed

lemma distribute_loop_saved:
  assumes "keeps_backup X" and "distribute_loop X names d = Returns d'"
  shows "saved_values d' = saved_values d"
  using assms(2)
proof (induction names arbitrary: d)
  case Nil
  then show ?case by simp
next
  case (Cons name names)
  from Cons.prems obtain Q Q' where Q: "quantities d name = Some Q"
    and Q': "Q' = extrapolate_first_order X d Q \<or> Q' = extrapolate_second_order X d Q"
    and rest: "distribute_loop X names (d\<lparr>quantities := (quantities d)(name \<mapsto> Q')\<rparr>) =
      Returns d'"
    by (auto split: option.splits if_splits)
  from Q' assms(1) have "centroid_backup_values Q' = centroid_backup_values Q"
    by (auto simp: keeps_backup_def)
  from Cons.IH [OF rest] saved_values_update [OF Q this]
  show ?case by simp
qed

lemma compute_forcing_terms_loop_saved:
  assumes "keeps_backup X" and "compute_forcing_terms_loop X fs d = Returns d'"
  shows "saved_values d' = saved_values d"
  using assms(2)
proof (induction fs arbitrary: d)
  case Nil
  then show ?case by simp
next
  case (Cons f fs)
  from Cons.prems obtain dt qs where one: "forcing_term X f d = Inr (dt, qs)"
    and rest: "compute_forcing_terms_loop X fs (d\<lparr>flux_timestep := dt, quantities := qs\<rparr>) =
      Returns d'"
    by (auto split: sum.splits prod.splits)
  from assms(1) one have "\<forall>name. map_option centroid_backup_values (qs name) = saved_values d name"
    unfolding keeps_backup_def by blast
  then have "saved_values (d\<lparr>flux_timestep := dt, quantities := qs\<rparr>) = saved_values d"
    by (simp add: saved_values_def fun_eq_iff)
  with Cons.IH [OF rest] show ?case by simp
qed

lemma write_boundary_values_saved:
  "write_boundary_values i q j names d = Returns d' \<Longrightarrow> saved_values d' = saved_values d"
proof (induction names arbitrary: d j)
  case Nil
  then show ?case by simp
next
  case (Cons name names)
  from Cons.prems obtain Q bv where Q: "quantities d name = Some Q"
    and rest: "write_boundary_values i q (Suc j) names
      (d\<lparr>quantities := (quantities d)(name \<mapsto> Q\<lparr>boundary_values := bv\<rparr>)\<rparr>) = Returns d'"
    by (auto split: option.splits sum.splits)
  from Cons.IH [OF rest] saved_values_update [OF Q, of "Q\<lparr>boundary_values := bv\<rparr>"]
  show ?case by simp
qed

lemma update_boundary_entry_saved:
  "update_boundary_entry X i entry d = Returns d' \<Longrightarrow> saved_values d' = saved_values d"
proof -
  assume r: "update_boundary_entry X i entry d = Returns d'"
  obtain c e ob where entry: "entry = ((c, e), ob)" by (cases entry) auto
  show ?thesis
  proof (cases ob)
    case None
    with r entry show ?thesis by (auto simp: update_boundary_entry_def saved_values_def)
  next
    case (Some B)
    with r entry obtain q where "write_boundary_values i q 0 (evolved_quantities d) d = Returns d'"
      by (auto simp: update_boundary_entry_def split: sum.splits if_splits)
    then show ?thesis by (rule write_boundary_values_saved)
  qed
qed

lemma update_boundary_loop_saved:
  "update_boundary_loop X i entries d = Returns d' \<Longrightarrow> saved_values d' = saved_values d"
proof (induction entries arbitrary: d i)
  case Nil
  then show ?case by simp
next
  case (Cons entry entries)
  from Cons.prems obtain d1 where one: "update_boundary_entry X i entry d = Returns d1"
    and rest: "update_boundary_loop X (Suc i) entries d1 = Returns d'"
    by (auto split: outcome.splits)
  from Cons.IH [OF rest] update_boundary_entry_saved [OF one] show ?case by simp
qed

lemma saved_values_called: "saved_values (called c d) = saved_values d"
  by (simp add: saved_values_def called_def fun_eq_iff)

lemma compute_fluxes_saved:
  assumes "keeps_backup X" and "compute_fluxes X d = Returns d'"
  shows "saved_values d' = saved_values d"
proof -
  let ?d0 = "called Compute_fluxes d"
  from assms(2) obtain flux_kernel dt speeds qs where
    k: "compute_fluxes_override X = Some flux_kernel"
    and r: "flux_kernel ?d0 = Inr (dt, speeds, qs)"
    and d': "d' = ?d0\<lparr>flux_timestep := dt, max_speed := speeds, quantities := qs\<rparr>"
    by (auto simp: compute_fluxes_def Let_def split: option.splits sum.splits)
  from assms(1) k r
  have "\<forall>name. map_option centroid_backup_values (qs name) = saved_values ?d0 name"
    unfolding keeps_backup_def by blast
  then have "saved_values d' = saved_values ?d0"
    by (simp add: d' saved_values_def fun_eq_iff)
  then show ?thesis by (simp add: saved_values_called)
qed

lemma compute_forcing_terms_saved:
  assumes "keeps_backup X" and "compute_forcing_terms X d = Returns d'"
  shows "saved_values d' = saved_values d"
  using compute_forcing_terms_loop_saved [OF assms(1),
      of "forcing_terms (called Compute_forcing_terms d)" "called Compute_forcing_terms d" d']
    assms(2)
  by (simp add: compute_forcing_terms_def Let_def saved_values_called)

lemma update_conserved_quantities_saved:
  assumes "keeps_backup X" and "update_conserved_quantities X d = Returns d'"
  shows "saved_values d' = saved_values d"
proof -
  let ?d0 = "called (Update_conserved_quantities (timestep d)) d"
  from assms(2) have "for_each_quantity (quantity_update X ?d0 (timestep ?d0))
      (conserved_quantities ?d0) ?d0 = Returns d'"
    by (simp add: update_conserved_quantities_def Let_def)
  moreover from assms(1) have "centroid_backup_values (quantity_update X ?d0 (timestep ?d0) Q) =
      centroid_backup_values Q" for Q
    by (simp add: keeps_backup_def)
  ultimately have "saved_values d' = saved_values ?d0"
    using for_each_quantity_saved by blast
  then show ?thesis by (simp add: saved_values_called)
qed

lemma saxpy_conserved_quantities_saved:
  assumes "saxpy_conserved_quantities a b d = Returns d'"
  shows "saved_values d' = saved_values d"
proof -
  let ?d0 = "called (Saxpy_conserved_quantities a b) d"
  from assms have "for_each_quantity (saxpy_centroid_values a b)
      (conserved_quantities ?d0) ?d0 = Returns d'"
    by (simp add: saxpy_conserved_quantities_def Let_def)
  moreover have "centroid_backup_values (saxpy_centroid_values a b Q) =
      centroid_backup_values Q" for Q
    by (simp add: saxpy_centroid_values_def)
  ultimately have "saved_values d' = saved_values ?d0"
    using for_each_quantity_saved by blast
  then show ?thesis by (simp add: saved_values_called)
qed

lemma update_ghosts_saved:
  "update_ghosts d = Returns d' \<Longrightarrow> saved_values d' = saved_values d"
  by (auto simp: update_ghosts_def Let_def saved_values_called split: option.splits
      dest: update_ghosts_loop_saved)

lemma distribute_to_vertices_and_edges_saved:
  assumes "keeps_backup X" and "distribute_to_vertices_and_edges X d = Returns d'"
  shows "saved_values d' = saved_values d"
  using distribute_loop_saved [OF assms(1),
      of "conserved_quantities (called Distribute_to_vertices_and_edges d)"
        "called Distribute_to_vertices_and_edges d" d']
    assms(2)
  by (simp add: distribute_to_vertices_and_edges_def Let_def saved_values_called)

lemma update_boundary_saved:
  "update_boundary X d = Returns d' \<Longrightarrow> saved_values d' = saved_values d"
  by (auto simp: update_boundary_def Let_def saved_values_called split: option.splits
      dest: update_boundary_loop_saved)

lemma update_time_saved:
  "update_time d = Returns d' \<Longrightarrow> saved_values d' = saved_values d"
  by (auto simp: update_time_def saved_values_def)

lemma set_substep_time_saved:
  "set_substep_time t d = Returns d' \<Longrightarrow> saved_values d' = saved_values d"
  by (auto simp: set_substep_time_def saved_values_def)

lemma ignore_triangles_saved:
  assumes "keeps_backup X" and "ignore_triangles X bins is d = Returns d'"
  shows "saved_values d' = saved_values d"
  using assms(2)
proof (induction "is" arbitrary: d)
  case Nil
  then show ?case by simp
next
  case (Cons i "is")
  have sv: "centroid_backup_values (set_values X 0 [i] Q) = centroid_backup_values Q" for Q
    using assms(1) by (simp add: keeps_backup_def)
  show ?case
  proof (cases "item (max_speed d) i")
    case (Inl e)
    with Cons.prems show ?thesis by simp
  next
    case (Inr speed)
    show ?thesis
    proof (cases "bins \<noteq> [] \<and> speed > last bins")
      case False
      with Cons.prems Inr have "ignore_triangles X bins is d = Returns d'"
        by (auto split: if_splits)
      then show ?thesis by (rule Cons.IH)
    next
      case True
      let ?d1 = "d\<lparr>quantities := (quantities d)(''xmomentum'' \<mapsto>
          set_values X 0 [i] (the (quantities d ''xmomentum'')))\<rparr>"
      let ?d2 = "?d1\<lparr>quantities := (quantities ?d1)(''ymomentum'' \<mapsto>
          set_values X 0 [i] (the (quantities ?d1 ''ymomentum''))),
          max_speed := (max_speed ?d1)[i := 0]\<rparr>"
      from True Cons.prems Inr obtain Qx Qy where Qx: "quantities d ''xmomentum'' = Some Qx"
        and Qy: "quantities ?d1 ''ymomentum'' = Some Qy"
        and rest: "ignore_triangles X bins is ?d2 = Returns d'"
        by (auto simp: Let_def split: option.splits)
      have "saved_values ?d1 = saved_values d"
        using saved_values_update [OF Qx sv [of Qx], of ?d1] Qx by simp
      moreover have "saved_values ?d2 = saved_values ?d1"
        using saved_values_update [OF Qy sv [of Qy], of ?d2] Qy by simp
      ultimately show ?thesis using Cons.IH [OF rest] by simp
    qed
  qed
qed

lemma apply_protection_saved:
  assumes "keeps_backup X"
    and "apply_protection_against_isolated_degenerate_timesteps X d = Returns d'"
  shows "saved_values d' = saved_values d"
proof (cases "d' = d")
  case True
  then show ?thesis by simp
next
  case False
  with assms(2) have "ignore_triangles X (create_bins X (max_speed d) 10)
      [0 ..< number_of_full_triangles d] d = Returns d'"
    by (auto simp: apply_protection_against_isolated_degenerate_timesteps_def Let_def
        split: if_splits sum.splits bool.splits)
  with assms(1) show ?thesis by (rule ignore_triangles_saved)
qed

lemma update_timestep_saved:
  assumes "keeps_backup X" and "update_timestep X yieldstep tfinal d = Returns d'"
  shows "saved_values d' = saved_values d"
proof -
  from assms(2) obtain d0 where d0:
    "apply_protection_against_isolated_degenerate_timesteps X (called Update_timestep d) = Returns d0"
    by (auto simp: update_timestep_def split: outcome.splits)
  define d2 where "d2 = d0\<lparr>recorded_max_timestep := max (cfl_timestep d0) (recorded_max_timestep d0),
      recorded_min_timestep := min (cfl_timestep d0) (recorded_min_timestep d0)\<rparr>"
  from assms(2) d0 obtain dt' d3 where p:
    "protect_against_degenerate_time_steps X (cfl_timestep d0, d2) = Returns (dt', d3)"
    and d': "d' = d3\<lparr>timestep := fit_yieldtime d3 (fit_finaltime tfinal d3 dt')\<rparr>"
    by (auto simp: update_timestep_def Let_def d2_def split: outcome.splits prod.splits)
  from protect_returns [OF p] obtain n k where d3: "d3 = d2\<lparr>smallsteps := n, order := k\<rparr>"
    by blast
  have "quantities d' = quantities d0" by (simp add: d' d3 d2_def)
  then have "saved_values d' = saved_values d0" by (rule saved_values_quantities)
  also have "saved_values d0 = saved_values (called Update_timestep d)"
    using assms(1) d0 by (rule apply_protection_saved)
  finally show ?thesis by (simp add: saved_values_called)
qed


lemma for_each_quantity_result:
  assumes "distinct names" and "for_each_quantity f names d = Returns d'"
  shows "(\<forall>name \<in> set names. \<exists>Q. quantities d name = Some Q \<and> quantities d' name = Some (f Q)) \<and>
         (\<forall>name. name \<notin> set names \<longrightarrow> quantities d' name = quantities d name) \<and>
         (\<exists>qs. d' = d\<lparr>quantities := qs\<rparr>)"
  using assms
proof (induction names arbitrary: d)
  case Nil
  then have "d' = d\<lparr>quantities := quantities d\<rparr>" by simp
  then have "\<exists>qs. d' = d\<lparr>quantities := qs\<rparr>" by (rule exI [of _ "quantities d"])
  with Nil show ?case by simp
next
  case (Cons name names)
  from Cons.prems(1) have fresh: "name \<notin> set names" and dist: "distinct names" by simp_all
  from Cons.prems(2) obtain Q where Q: "quantities d name = Some Q"
    and rest: "for_each_quantity f names (d\<lparr>quantities := (quantities d)(name \<mapsto> f Q)\<rparr>) =
      Returns d'"
    by (auto split: option.splits)
  let ?d1 = "d\<lparr>quantities := (quantities d)(name \<mapsto> f Q)\<rparr>"
  from Cons.IH [OF dist rest] have
    new: "\<forall>n \<in> set names. \<exists>Q. quantities ?d1 n = Some Q \<and> quantities d' n = Some (f Q)"
    and old: "\<forall>n. n \<notin> set names \<longrightarrow> quantities d' n = quantities ?d1 n"
    and frame: "\<exists>qs. d' = ?d1\<lparr>quantities := qs\<rparr>"
    by blast+
  have "\<exists>Q. quantities d n = Some Q \<and> quantities d' n = Some (f Q)"
    if n: "n \<in> set (name # names)" for n
  proof (cases "n = name")
    case True
    with old fresh Q show ?thesis by simp
  next
    case False
    with n have "n \<in> set names" by simp
    with new obtain Qn where "quantities ?d1 n = Some Qn" and "quantities d' n = Some (f Qn)"
      by blast
    moreover from False have "quantities ?d1 n = quantities d n" by simp
    ultimately have "quantities d n = Some Qn \<and> quantities d' n = Some (f Qn)" by simp
    then show ?thesis by blast
  qed
  moreover have "quantities d' n = quantities d n" if "n \<notin> set (name # names)" for n
    using that old by simp
  moreover from frame obtain qs where "d' = ?d1\<lparr>quantities := qs\<rparr>" by blast
  then have "d' = d\<lparr>quantities := qs\<rparr>" by simp
  then have "\<exists>qs. d' = d\<lparr>quantities := qs\<rparr>" by (rule exI [of _ qs])
  ultimately show ?case by blast
qed

lemma saxpy_conserved_quantities_result:
  assumes "distinct (conserved_quantities d)" and "saxpy_conserved_quantities a b d = Returns d'"
  shows "(\<forall>name \<in> set (conserved_quantities d).
            \<exists>Q. quantities d name = Some Q \<and>
                quantities d' name =
                  Some (Q\<lparr>centroid_values :=
                           map (\<lambda>(c, s). a * c + b * s)
                             (zip (centroid_values Q) (centroid_backup_values Q))\<rparr>)) \<and>
         (\<forall>name. name \<notin> set (conserved_quantities d) \<longrightarrow>
            quantities d' name = quantities d name)"
proof -
  let ?d0 = "called (Saxpy_conserved_quantities a b) d"
  from assms(2) have r: "for_each_quantity (saxpy_centroid_values a b)
      (conserved_quantities ?d0) ?d0 = Returns d'"
    by (simp add: saxpy_conserved_quantities_def Let_def)
  have n: "conserved_quantities ?d0 = conserved_quantities d"
    and q: "quantities ?d0 = quantities d"
    by (simp_all add: called_def)
  from assms(1) n have "distinct (conserved_quantities ?d0)" by simp
  from for_each_quantity_result [OF this r] show ?thesis
    unfolding n q saxpy_centroid_values_def by blast
qed

lemma backup_conserved_quantities_result:
  assumes "distinct (conserved_quantities d)" and "backup_conserved_quantities d = Returns d'"
  shows "(\<forall>name \<in> set (conserved_quantities d).
            \<exists>Q. quantities d name = Some Q \<and>
                quantities d' name = Some (Q\<lparr>centroid_backup_values := centroid_values Q\<rparr>)) \<and>
         (\<forall>name. name \<notin> set (conserved_quantities d) \<longrightarrow>
            quantities d' name = quantities d name)"
proof -
  let ?d0 = "called Backup_conserved_quantities d"
  from assms(2) have r: "for_each_quantity backup_centroid_values
      (conserved_quantities ?d0) ?d0 = Returns d'"
    by (simp add: backup_conserved_quantities_def Let_def)
  have n: "conserved_quantities ?d0 = conserved_quantities d"
    and q: "quantities ?d0 = quantities d"
    by (simp_all add: called_def)
  from assms(1) n have "distinct (conserved_quantities ?d0)" by simp
  from for_each_quantity_result [OF this r] show ?thesis
    unfolding n q backup_centroid_values_def by blast
qed

lemma in_sequence_append_Returns:
  "(in_sequence (fs @ gs) d = Returns d') =
     (\<exists>m. in_sequence fs d = Returns m \<and> in_sequence gs m = Returns d')"
  by (induction fs arbitrary: d) (auto simp: and_then_Returns)

lemma evolve_one_rk3_step_combines:
  assumes "evolve_one_rk3_step X yieldstep tfinal d = Returns d'"
  shows "\<exists>s q2 c2 q3 c3.
          backup_conserved_quantities d = Returns s \<and>
          in_sequence
            [compute_fluxes X,
               compute_forcing_terms X,
               update_timestep X yieldstep tfinal,
               update_conserved_quantities X,
               update_ghosts,
               update_time,
               distribute_to_vertices_and_edges X,
               update_boundary X,
               compute_fluxes X,
               compute_forcing_terms X,
               update_conserved_quantities X] s = Returns q2 \<and>
          saxpy_conserved_quantities (1 / 4) (3 / 4) q2 = Returns c2 \<and>
          in_sequence
            [update_ghosts,
               (\<lambda>d1. set_substep_time (time d + timestep d1 * (1 / 2)) d1),
               distribute_to_vertices_and_edges X,
               update_boundary X,
               compute_fluxes X,
               compute_forcing_terms X,
               update_conserved_quantities X] c2 = Returns q3 \<and>
          saxpy_conserved_quantities (2 / 3) (1 / 3) q3 = Returns c3 \<and>
          in_sequence
            [update_ghosts,
               (\<lambda>d1. set_substep_time (time d + timestep d1) d1),
               distribute_to_vertices_and_edges X,
               update_boundary X] c3 = Returns d' \<and>
          (distinct (conserved_quantities d) \<longrightarrow>
             (\<forall>name \<in> set (conserved_quantities d).
                \<exists>Q Q2 Q3.
                  quantities d name = Some Q \<and>
                  quantities s name = Some (Q\<lparr>centroid_backup_values := centroid_values Q\<rparr>) \<and>
                  quantities q2 name = Some Q2 \<and>
                  quantities c2 name =
                    Some (Q2\<lparr>centroid_values :=
                             map (\<lambda>(c, s). 1 / 4 * c + 3 / 4 * s)
                               (zip (centroid_values Q2) (centroid_backup_values Q2))\<rparr>) \<and>
                  quantities q3 name = Some Q3 \<and>
                  quantities c3 name =
                    Some (Q3\<lparr>centroid_values :=
                             map (\<lambda>(c, s). 2 / 3 * c + 1 / 3 * s)
                               (zip (centroid_values Q3) (centroid_backup_values Q3))\<rparr>) \<and>
                  (keeps_backup X \<longrightarrow>
                     centroid_backup_values Q2 = centroid_values Q \<and>
                     centroid_backup_values Q3 = centroid_values Q)) \<and>
             (\<forall>name. name \<notin> set (conserved_quantities d) \<longrightarrow>
                quantities s name = quantities d name \<and>
                quantities c2 name = quantities q2 name \<and>
                quantities c3 name = quantities q3 name))"
proof -
  let ?A = "[compute_fluxes X,
               compute_forcing_terms X,
               update_timestep X yieldstep tfinal,
               update_conserved_quantities X,
               update_ghosts,
               update_time,
               distribute_to_vertices_and_edges X,
               update_boundary X,
               compute_fluxes X,
               compute_forcing_terms X,
               update_conserved_quantities X]"
  let ?B = "\<lambda>t0. [update_ghosts,
               (\<lambda>d1. set_substep_time (t0 + timestep d1 * (1 / 2)) d1),
               distribute_to_vertices_and_edges X,
               update_boundary X,
               compute_fluxes X,
               compute_forcing_terms X,
               update_conserved_quantities X]"
  let ?C = "\<lambda>t0. [update_ghosts,
               (\<lambda>d1. set_substep_time (t0 + timestep d1) d1),
               distribute_to_vertices_and_edges X,
               update_boundary X]"
  from assms obtain s where b: "backup_conserved_quantities d = Returns s"
    and t: "in_sequence (?A @ saxpy_conserved_quantities (1 / 4) (3 / 4) # ?B (time s) @
        saxpy_conserved_quantities (2 / 3) (1 / 3) # ?C (time s)) s = Returns d'"
    by (auto simp: evolve_one_rk3_step_def and_then_Returns Let_def)
  have t0: "time s = time d"
    using backup_conserved_quantities_clock [OF b] by (simp add: recorded_def clock_def)
  from t obtain q2 c2 q3 c3 where A: "in_sequence ?A s = Returns q2"
    and s1: "saxpy_conserved_quantities (1 / 4) (3 / 4) q2 = Returns c2"
    and B: "in_sequence (?B (time d)) c2 = Returns q3"
    and s2: "saxpy_conserved_quantities (2 / 3) (1 / 3) q3 = Returns c3"
    and C: "in_sequence (?C (time d)) c3 = Returns d'"
    unfolding in_sequence_append_Returns in_sequence_Cons_Returns t0 by blast
  have namesA: "list_all (\<lambda>f. \<forall>d d'. f d = Returns d' \<longrightarrow>
        conserved_quantities d' = conserved_quantities d) ?A"
    unfolding list.pred_inject by (intro conjI allI impI; (erule call_names | simp))
  have namesB: "list_all (\<lambda>f. \<forall>d d'. f d = Returns d' \<longrightarrow>
        conserved_quantities d' = conserved_quantities d) (?B (time d))"
    unfolding list.pred_inject by (intro conjI allI impI; (erule call_names | simp))
  have n0: "conserved_quantities s = conserved_quantities d"
    using b by (rule backup_conserved_quantities_names)
  have n2: "conserved_quantities q2 = conserved_quantities d"
    using in_sequence_invariant [OF namesA A] n0 by simp
  have n3: "conserved_quantities c2 = conserved_quantities d"
    using saxpy_conserved_quantities_names [OF s1] n2 by simp
  have n4: "conserved_quantities q3 = conserved_quantities d"
    using in_sequence_invariant [OF namesB B] n3 by simp
  have main: "(\<forall>name \<in> set (conserved_quantities d).
                \<exists>Q Q2 Q3.
                  quantities d name = Some Q \<and>
                  quantities s name = Some (Q\<lparr>centroid_backup_values := centroid_values Q\<rparr>) \<and>
                  quantities q2 name = Some Q2 \<and>
                  quantities c2 name =
                    Some (Q2\<lparr>centroid_values :=
                             map (\<lambda>(c, s). 1 / 4 * c + 3 / 4 * s)
                               (zip (centroid_values Q2) (centroid_backup_values Q2))\<rparr>) \<and>
                  quantities q3 name = Some Q3 \<and>
                  quantities c3 name =
                    Some (Q3\<lparr>centroid_values :=
                             map (\<lambda>(c, s). 2 / 3 * c + 1 / 3 * s)
                               (zip (centroid_values Q3) (centroid_backup_values Q3))\<rparr>) \<and>
                  (keeps_backup X \<longrightarrow>
                     centroid_backup_values Q2 = centroid_values Q \<and>
                     centroid_backup_values Q3 = centroid_values Q)) \<and>
             (\<forall>name. name \<notin> set (conserved_quantities d) \<longrightarrow>
                quantities s name = quantities d name \<and>
                quantities c2 name = quantities q2 name \<and>
                quantities c3 name = quantities q3 name)"
    if dist: "distinct (conserved_quantities d)"
  proof -
    from dist n2 n4 have dist2: "distinct (conserved_quantities q2)"
      and dist3: "distinct (conserved_quantities q3)" by simp_all
    note r0 = backup_conserved_quantities_result [OF dist b]
    note r2 = saxpy_conserved_quantities_result [OF dist2 s1, unfolded n2]
    note r3 = saxpy_conserved_quantities_result [OF dist3 s2, unfolded n4]
    have saved: "saved_values q2 = saved_values s \<and> saved_values q3 = saved_values s"
      if kb: "keeps_backup X"
    proof -
      note cs = compute_fluxes_saved [OF kb] compute_forcing_terms_saved [OF kb]
        update_conserved_quantities_saved [OF kb] update_timestep_saved [OF kb]
        distribute_to_vertices_and_edges_saved [OF kb] update_ghosts_saved
        update_boundary_saved update_time_saved set_substep_time_saved
      have invA: "list_all (\<lambda>f. \<forall>d d'. f d = Returns d' \<longrightarrow> saved_values d' = saved_values d) ?A"
        unfolding list.pred_inject by (intro conjI allI impI; (erule cs | simp))
      have invB: "list_all (\<lambda>f. \<forall>d d'. f d = Returns d' \<longrightarrow> saved_values d' = saved_values d)
          (?B (time d))"
        unfolding list.pred_inject by (intro conjI allI impI; (erule cs | simp))
      have "saved_values q2 = saved_values s"
        using in_sequence_invariant [OF invA A] by simp
      moreover have "saved_values c2 = saved_values q2"
        using s1 by (rule saxpy_conserved_quantities_saved)
      moreover have "saved_values q3 = saved_values c2"
        using in_sequence_invariant [OF invB B] by simp
      ultimately show ?thesis by simp
    qed
    have each: "\<exists>Q Q2 Q3.
                  quantities d name = Some Q \<and>
                  quantities s name = Some (Q\<lparr>centroid_backup_values := centroid_values Q\<rparr>) \<and>
                  quantities q2 name = Some Q2 \<and>
                  quantities c2 name =
                    Some (Q2\<lparr>centroid_values :=
                             map (\<lambda>(c, s). 1 / 4 * c + 3 / 4 * s)
                               (zip (centroid_values Q2) (centroid_backup_values Q2))\<rparr>) \<and>
                  quantities q3 name = Some Q3 \<and>
                  quantities c3 name =
                    Some (Q3\<lparr>centroid_values :=
                             map (\<lambda>(c, s). 2 / 3 * c + 1 / 3 * s)
                               (zip (centroid_values Q3) (centroid_backup_values Q3))\<rparr>) \<and>
                  (keeps_backup X \<longrightarrow>
                     centroid_backup_values Q2 = centroid_values Q \<and>
                     centroid_backup_values Q3 = centroid_values Q)"
      if name: "name \<in> set (conserved_quantities d)" for name
    proof -
      from r0 name obtain Q where Q: "quantities d name = Some Q"
        and S: "quantities s name = Some (Q\<lparr>centroid_backup_values := centroid_values Q\<rparr>)"
        by blast
      from r2 name obtain Q2 where Q2: "quantities q2 name = Some Q2"
        and C2: "quantities c2 name =
                    Some (Q2\<lparr>centroid_values :=
                             map (\<lambda>(c, s). 1 / 4 * c + 3 / 4 * s)
                               (zip (centroid_values Q2) (centroid_backup_values Q2))\<rparr>)"
        by blast
      from r3 name obtain Q3 where Q3: "quantities q3 name = Some Q3"
        and C3: "quantities c3 name =
                    Some (Q3\<lparr>centroid_values :=
                             map (\<lambda>(c, s). 2 / 3 * c + 1 / 3 * s)
                               (zip (centroid_values Q3) (centroid_backup_values Q3))\<rparr>)"
        by blast
      have "centroid_backup_values Q2 = centroid_values Q \<and>
          centroid_backup_values Q3 = centroid_values Q" if kb: "keeps_backup X"
      proof -
        from saved [OF kb] have "saved_values q2 name = saved_values s name"
          and "saved_values q3 name = saved_values s name" by simp_all
        with S Q2 Q3 show ?thesis by (simp add: saved_values_def)
      qed
      with Q S Q2 C2 Q3 C3 show ?thesis by blast
    qed
    from each r0 r2 r3 show ?thesis by blast
  qed
  from b A s1 B s2 C main show ?thesis by blast
qed


lemma evolve_one_rk3_step_calls:
  assumes "evolve_one_rk3_step X yieldstep tfinal d = Returns d'"
  shows "time d' = time d + timestep d' \<and>
         time d' \<le> yieldtime d' \<and> yieldtime d' = yieldtime d \<and>
         calls d' = calls d @
           [(Backup_conserved_quantities, time d),
            (Compute_fluxes, time d),
            (Compute_forcing_terms, time d),
            (Update_timestep, time d),
            (Update_conserved_quantities (timestep d'), time d),
            (Update_ghosts, time d),
            (Distribute_to_vertices_and_edges, time d + timestep d'),
            (Update_boundary, time d + timestep d'),
            (Compute_fluxes, time d + timestep d'),
            (Compute_forcing_terms, time d + timestep d'),
            (Update_conserved_quantities (timestep d'), time d + timestep d'),
            (Saxpy_conserved_quantities (1 / 4) (3 / 4), time d + timestep d'),
            (Update_ghosts, time d + timestep d'),
            (Distribute_to_vertices_and_edges, time d + timestep d' / 2),
            (Update_boundary, time d + timestep d' / 2),
            (Compute_fluxes, time d + timestep d' / 2),
            (Compute_forcing_terms, time d + timestep d' / 2),
            (Update_conserved_quantities (timestep d'), time d + timestep d' / 2),
            (Saxpy_conserved_quantities (2 / 3) (1 / 3), time d + timestep d' / 2),
            (Update_ghosts, time d + timestep d' / 2),
            (Distribute_to_vertices_and_edges, time d + timestep d'),
            (Update_boundary, time d + timestep d')]"
proof -
  let ?tail = "\<lambda>t0.
    [update_conserved_quantities X,
     update_ghosts,
     update_time,
     distribute_to_vertices_and_edges X,
     update_boundary X,
     compute_fluxes X,
     compute_forcing_terms X,
     update_conserved_quantities X,
     saxpy_conserved_quantities (1 / 4) (3 / 4),
     update_ghosts,
     (\<lambda>d1. set_substep_time (t0 + timestep d1 * (1 / 2)) d1),
     distribute_to_vertices_and_edges X,
     update_boundary X,
     compute_fluxes X,
     compute_forcing_terms X,
     update_conserved_quantities X,
     saxpy_conserved_quantities (2 / 3) (1 / 3),
     update_ghosts,
     (\<lambda>d1. set_substep_time (t0 + timestep d1) d1),
     distribute_to_vertices_and_edges X,
     update_boundary X]"
  let ?uc = "\<lambda>k. case k of (t, dt, yt, cp, cs) \<Rightarrow>
      (t, dt, yt :: real, cp :: bool, cs @ [(Update_conserved_quantities dt, t :: real)])"
  let ?effects = "\<lambda>t0.
    [?uc,
     recorded Update_ghosts,
     (\<lambda>k. case k of (t, dt, yt, cp, cs) \<Rightarrow> (t + dt, dt, yt, cp, cs)),
     recorded Distribute_to_vertices_and_edges,
     recorded Update_boundary,
     recorded Compute_fluxes,
     recorded Compute_forcing_terms,
     ?uc,
     recorded (Saxpy_conserved_quantities (1 / 4) (3 / 4)),
     recorded Update_ghosts,
     (\<lambda>k. case k of (t, dt, yt, cp, cs) \<Rightarrow> (t0 + dt * (1 / 2), dt, yt, cp, cs)),
     recorded Distribute_to_vertices_and_edges,
     recorded Update_boundary,
     recorded Compute_fluxes,
     recorded Compute_forcing_terms,
     ?uc,
     recorded (Saxpy_conserved_quantities (2 / 3) (1 / 3)),
     recorded Update_ghosts,
     (\<lambda>k. case k of (t, dt, yt, cp, cs) \<Rightarrow> (t0 + dt, dt, yt, cp, cs)),
     recorded Distribute_to_vertices_and_edges,
     recorded Update_boundary]"
  from assms obtain d0 d1 d2 d3 where
    b: "backup_conserved_quantities d = Returns d0"
    and f: "compute_fluxes X d0 = Returns d1"
    and g: "compute_forcing_terms X d1 = Returns d2"
    and u: "update_timestep X yieldstep tfinal d2 = Returns d3"
    and t: "in_sequence (?tail (time d0)) d3 = Returns d'"
    by (auto simp: evolve_one_rk3_step_def and_then_Returns Let_def)
  have k2: "clock d2 = (time d, timestep d, yieldtime d, checkpoint d,
      calls d @ [(Backup_conserved_quantities, time d), (Compute_fluxes, time d),
                 (Compute_forcing_terms, time d)])"
    using backup_conserved_quantities_clock [OF b] compute_fluxes_clock [OF f]
      compute_forcing_terms_clock [OF g]
    by (simp add: recorded_def clock_def)
  then have d2: "time d2 = time d" "yieldtime d2 = yieldtime d" "checkpoint d2 = checkpoint d"
    "calls d2 = calls d @ [(Backup_conserved_quantities, time d), (Compute_fluxes, time d),
                 (Compute_forcing_terms, time d)]"
    by (simp_all add: clock_def)
  have t0: "time d0 = time d"
    using backup_conserved_quantities_clock [OF b] by (simp add: recorded_def clock_def)
  from update_timestep_clock [OF u]
  have k3: "clock d3 = (time d, timestep d3, yieldtime d, checkpoint d,
      calls d @ [(Backup_conserved_quantities, time d), (Compute_fluxes, time d),
                 (Compute_forcing_terms, time d), (Update_timestep, time d)])"
    and fit: "time d + timestep d3 \<le> yieldtime d"
    by (simp_all add: d2)
  have "list_all2 (\<lambda>f F. \<forall>d d'. f d = Returns d' \<longrightarrow> clock d' = F (clock d))
      (?tail (time d)) (?effects (time d))"
    unfolding list_all2_Cons list_all2_Nil
    by (intro conjI allI impI; (rule refl | erule call_clocks))
  from in_sequence_clock [OF this t [unfolded t0]]
  have "clock d' = fold (\<lambda>F k. F k) (?effects (time d)) (clock d3)" .
  then have "clock d' = (time d + timestep d3, timestep d3, yieldtime d, checkpoint d,
      calls d @
           [(Backup_conserved_quantities, time d),
            (Compute_fluxes, time d),
            (Compute_forcing_terms, time d),
            (Update_timestep, time d),
            (Update_conserved_quantities (timestep d3), time d),
            (Update_ghosts, time d),
            (Distribute_to_vertices_and_edges, time d + timestep d3),
            (Update_boundary, time d + timestep d3),
            (Compute_fluxes, time d + timestep d3),
            (Compute_forcing_terms, time d + timestep d3),
            (Update_conserved_quantities (timestep d3), time d + timestep d3),
            (Saxpy_conserved_quantities (1 / 4) (3 / 4), time d + timestep d3),
            (Update_ghosts, time d + timestep d3),
            (Distribute_to_vertices_and_edges, time d + timestep d3 / 2),
            (Update_boundary, time d + timestep d3 / 2),
            (Compute_fluxes, time d + timestep d3 / 2),
            (Compute_forcing_terms, time d + timestep d3 / 2),
            (Update_conserved_quantities (timestep d3), time d + timestep d3 / 2),
            (Saxpy_conserved_quantities (2 / 3) (1 / 3), time d + timestep d3 / 2),
            (Update_ghosts, time d + timestep d3 / 2),
            (Distribute_to_vertices_and_edges, time d + timestep d3),
            (Update_boundary, time d + timestep d3)])"
    unfolding k3 by (simp add: recorded_def)
  then have "timestep d' = timestep d3" and "time d' = time d + timestep d3"
    and "yieldtime d' = yieldtime d"
    and "calls d' = calls d @
           [(Backup_conserved_quantities, time d),
            (Compute_fluxes, time d),
            (Compute_forcing_terms, time d),
            (Update_timestep, time d),
            (Update_conserved_quantities (timestep d3), time d),
            (Update_ghosts, time d),
            (Distribute_to_vertices_and_edges, time d + timestep d3),
            (Update_boundary, time d + timestep d3),
            (Compute_fluxes, time d + timestep d3),
            (Compute_forcing_terms, time d + timestep d3),
            (Update_conserved_quantities (timestep d3), time d + timestep d3),
            (Saxpy_conserved_quantities (1 / 4) (3 / 4), time d + timestep d3),
            (Update_ghosts, time d + timestep d3),
            (Distribute_to_vertices_and_edges, time d + timestep d3 / 2),
            (Update_boundary, time d + timestep d3 / 2),
            (Compute_fluxes, time d + timestep d3 / 2),
            (Compute_forcing_terms, time d + timestep d3 / 2),
            (Update_conserved_quantities (timestep d3), time d + timestep d3 / 2),
            (Saxpy_conserved_quantities (2 / 3) (1 / 3), time d + timestep d3 / 2),
            (Update_ghosts, time d + timestep d3 / 2),
            (Distribute_to_vertices_and_edges, time d + timestep d3),
            (Update_boundary, time d + timestep d3)]"
    by (simp_all add: clock_def)
  with fit show ?thesis by simp
qed


text \<open>
  C7. One RK3 step that returns normally, started at time \<open>t\<^sub>0\<close>, ends at time \<open>t\<^sub>0 + \<Delta>t\<close>,
  where \<open>\<Delta>t\<close> is the timestep left by the one call of \<^verbatim>\<open>update_timestep\<close>, in the first
  Euler sub-step. Its calls are, in this order: the backup; fluxes, forcing, the timestep,
  the update, ghosts, and (at time \<open>t\<^sub>0 + \<Delta>t\<close>) reconstruction and boundary; fluxes, forcing,
  the update with the same \<open>\<Delta>t\<close>, the combination with the factors 1/4 and 3/4, ghosts, and
  (at time \<open>t\<^sub>0 + \<Delta>t/2\<close>) reconstruction and boundary; fluxes, forcing, the update with the
  same \<open>\<Delta>t\<close>, the combination with the factors 2/3 and 1/3, ghosts, and (at time
  \<open>t\<^sub>0 + \<Delta>t\<close>) reconstruction and boundary.

  The step goes through the states \<open>s\<close> after the backup, \<open>q2\<close> after the update of the second
  sub-step, \<open>c2\<close> after the first combination, \<open>q3\<close> after the update of the third sub-step and
  \<open>c3\<close> after the second combination. When the names of the conserved quantities are
  distinct, for each of them: the backup has saved the centroid values of the start in \<open>s\<close>;
  the centroid values in \<open>c2\<close> are 1/4 of those in \<open>q2\<close> plus 3/4 of the values saved in \<open>q2\<close>;
  the centroid values in \<open>c3\<close> are 2/3 of those in \<open>q3\<close> plus 1/3 of the values saved in \<open>q3\<close>;
  and when the collaborators leave saved values alone, the values saved in \<open>q2\<close> and in \<open>q3\<close>
  are the centroid values of the start. The other quantities are not touched by the backup
  and the combinations.
\<close>

theorem rk3_step:
  assumes "evolve_one_rk3_step X yieldstep tfinal d = Returns d'"
  shows "time d' = time d + timestep d' \<and>
         time d' \<le> yieldtime d' \<and> yieldtime d' = yieldtime d \<and>
         calls d' = calls d @
           [(Backup_conserved_quantities, time d),
            (Compute_fluxes, time d),
            (Compute_forcing_terms, time d),
            (Update_timestep, time d),
            (Update_conserved_quantities (timestep d'), time d),
            (Update_ghosts, time d),
            (Distribute_to_vertices_and_edges, time d + timestep d'),
            (Update_boundary, time d + timestep d'),
            (Compute_fluxes, time d + timestep d'),
            (Compute_forcing_terms, time d + timestep d'),
            (Update_conserved_quantities (timestep d'), time d + timestep d'),
            (Saxpy_conserved_quantities (1 / 4) (3 / 4), time d + timestep d'),
            (Update_ghosts, time d + timestep d'),
            (Distribute_to_vertices_and_edges, time d + timestep d' / 2),
            (Update_boundary, time d + timestep d' / 2),
            (Compute_fluxes, time d + timestep d' / 2),
            (Compute_forcing_terms, time d + timestep d' / 2),
            (Update_conserved_quantities (timestep d'), time d + timestep d' / 2),
            (Saxpy_conserved_quantities (2 / 3) (1 / 3), time d + timestep d' / 2),
            (Update_ghosts, time d + timestep d' / 2),
            (Distribute_to_vertices_and_edges, time d + timestep d'),
            (Update_boundary, time d + timestep d')] \<and>
         (\<exists>s q2 c2 q3 c3.
           backup_conserved_quantities d = Returns s \<and>
           in_sequence
             [compute_fluxes X,
                compute_forcing_terms X,
                update_timestep X yieldstep tfinal,
                update_conserved_quantities X,
                update_ghosts,
                update_time,
                distribute_to_vertices_and_edges X,
                update_boundary X,
                compute_fluxes X,
                compute_forcing_terms X,
                update_conserved_quantities X] s = Returns q2 \<and>
           saxpy_conserved_quantities (1 / 4) (3 / 4) q2 = Returns c2 \<and>
           in_sequence
             [update_ghosts,
                (\<lambda>d1. set_substep_time (time d + timestep d1 * (1 / 2)) d1),
                distribute_to_vertices_and_edges X,
                update_boundary X,
                compute_fluxes X,
                compute_forcing_terms X,
                update_conserved_quantities X] c2 = Returns q3 \<and>
           saxpy_conserved_quantities (2 / 3) (1 / 3) q3 = Returns c3 \<and>
           in_sequence
             [update_ghosts,
                (\<lambda>d1. set_substep_time (time d + timestep d1) d1),
                distribute_to_vertices_and_edges X,
                update_boundary X] c3 = Returns d' \<and>
           (distinct (conserved_quantities d) \<longrightarrow>
              (\<forall>name \<in> set (conserved_quantities d).
                 \<exists>Q Q2 Q3.
                   quantities d name = Some Q \<and>
                   quantities s name = Some (Q\<lparr>centroid_backup_values := centroid_values Q\<rparr>) \<and>
                   quantities q2 name = Some Q2 \<and>
                   quantities c2 name =
                     Some (Q2\<lparr>centroid_values :=
                              map (\<lambda>(c, s). 1 / 4 * c + 3 / 4 * s)
                                (zip (centroid_values Q2) (centroid_backup_values Q2))\<rparr>) \<and>
                   quantities q3 name = Some Q3 \<and>
                   quantities c3 name =
                     Some (Q3\<lparr>centroid_values :=
                              map (\<lambda>(c, s). 2 / 3 * c + 1 / 3 * s)
                                (zip (centroid_values Q3) (centroid_backup_values Q3))\<rparr>) \<and>
                   (keeps_backup X \<longrightarrow>
                      centroid_backup_values Q2 = centroid_values Q \<and>
                      centroid_backup_values Q3 = centroid_values Q)) \<and>
              (\<forall>name. name \<notin> set (conserved_quantities d) \<longrightarrow>
                 quantities s name = quantities d name \<and>
                 quantities c2 name = quantities q2 name \<and>
                 quantities c3 name = quantities q3 name)))"
proof -
  note k = evolve_one_rk3_step_calls [OF assms]
  show ?thesis
    by (intro conjI k [THEN conjunct1] k [THEN conjunct2, THEN conjunct1]
        k [THEN conjunct2, THEN conjunct2, THEN conjunct1]
        k [THEN conjunct2, THEN conjunct2, THEN conjunct2]
        evolve_one_rk3_step_combines [OF assms])
qed

lemmas run_step =
  evolve_one_rk3_step_def evolve_one_rk2_step_def evolve_one_euler_step_def
  backup_conserved_quantities_def saxpy_conserved_quantities_def
  update_conserved_quantities_def update_ghosts_def distribute_to_vertices_and_edges_def
  update_boundary_def compute_fluxes_def compute_forcing_terms_def update_time_def
  set_substep_time_def run_update_timestep example_collaborators_def

theorem rk3_step_witness:
  "keeps_backup
     (example_collaborators\<lparr>quantity_update :=
        \<lambda>d dt Q. Q\<lparr>centroid_values := map (\<lambda>c. c + dt) (centroid_values Q)\<rparr>\<rparr>) \<and>
   distinct (conserved_quantities (example_domain\<lparr>boundary_objects := Some [], yieldtime := 1 / 2\<rparr>)) \<and>
   evolve_one_rk3_step
     (example_collaborators\<lparr>quantity_update :=
        \<lambda>d dt Q. Q\<lparr>centroid_values := map (\<lambda>c. c + dt) (centroid_values Q)\<rparr>\<rparr>)
     (1 / 2) (Some 12) (example_domain\<lparr>boundary_objects := Some [], yieldtime := 1 / 2\<rparr>) =
   Returns (state_of (evolve_one_rk3_step
     (example_collaborators\<lparr>quantity_update :=
        \<lambda>d dt Q. Q\<lparr>centroid_values := map (\<lambda>c. c + dt) (centroid_values Q)\<rparr>\<rparr>)
     (1 / 2) (Some 12) (example_domain\<lparr>boundary_objects := Some [], yieldtime := 1 / 2\<rparr>))) \<and>
   timestep (state_of (evolve_one_rk3_step
     (example_collaborators\<lparr>quantity_update :=
        \<lambda>d dt Q. Q\<lparr>centroid_values := map (\<lambda>c. c + dt) (centroid_values Q)\<rparr>\<rparr>)
     (1 / 2) (Some 12) (example_domain\<lparr>boundary_objects := Some [], yieldtime := 1 / 2\<rparr>))) = 1 / 2 \<and>
   time (state_of (evolve_one_rk3_step
     (example_collaborators\<lparr>quantity_update :=
        \<lambda>d dt Q. Q\<lparr>centroid_values := map (\<lambda>c. c + dt) (centroid_values Q)\<rparr>\<rparr>)
     (1 / 2) (Some 12) (example_domain\<lparr>boundary_objects := Some [], yieldtime := 1 / 2\<rparr>))) = 1 / 2 \<and>
   length (filter (\<lambda>c. fst c = Update_timestep)
     (calls (state_of (evolve_one_rk3_step
        (example_collaborators\<lparr>quantity_update :=
           \<lambda>d dt Q. Q\<lparr>centroid_values := map (\<lambda>c. c + dt) (centroid_values Q)\<rparr>\<rparr>)
        (1 / 2) (Some 12)
        (example_domain\<lparr>boundary_objects := Some [], yieldtime := 1 / 2\<rparr>))))) = 1 \<and>
   map_option centroid_values
     (quantities (state_of (evolve_one_rk3_step
        (example_collaborators\<lparr>quantity_update :=
           \<lambda>d dt Q. Q\<lparr>centroid_values := map (\<lambda>c. c + dt) (centroid_values Q)\<rparr>\<rparr>)
        (1 / 2) (Some 12)
        (example_domain\<lparr>boundary_objects := Some [], yieldtime := 1 / 2\<rparr>))) ''stage'') =
     Some [21 / 2, 21 / 2] \<and>
   (\<exists>q3 c3 Q3.
      saxpy_conserved_quantities (2 / 3) (1 / 3) q3 = Returns c3 \<and>
      quantities q3 ''stage'' = Some Q3 \<and>
      centroid_backup_values Q3 = [10, 10] \<and>
      quantities c3 ''stage'' =
        Some (Q3\<lparr>centroid_values :=
                 map (\<lambda>(c, s). 2 / 3 * c + 1 / 3 * s)
                   (zip (centroid_values Q3) (centroid_backup_values Q3))\<rparr>))"
proof -
  let ?X = "example_collaborators\<lparr>quantity_update :=
        \<lambda>d dt Q. Q\<lparr>centroid_values := map (\<lambda>c. c + dt) (centroid_values Q)\<rparr>\<rparr>"
  let ?d = "example_domain\<lparr>boundary_objects := Some [], yieldtime := 1 / 2\<rparr>"
  let ?r = "evolve_one_rk3_step ?X (1 / 2) (Some 12) ?d"
  have kb: "keeps_backup ?X"
    by (auto simp: keeps_backup_def example_collaborators_def saved_values_def)
  have ds: "distinct (conserved_quantities ?d)" and m: "''stage'' \<in> set (conserved_quantities ?d)"
    and q: "quantities ?d ''stage'' = Some (example_quantity 10)"
    by (simp_all add: example_domain_def)
  have n: "returns_normally ?r" by (simp add: run_step)
  then have r: "?r = Returns (state_of ?r)" by (rule returns_state)
  have dt: "timestep (state_of ?r) = 1 / 2" by (simp add: run_step)
  have cv: "map_option centroid_values (quantities (state_of ?r) ''stage'') = Some [21 / 2, 21 / 2]"
    by (simp add: run_step example_domain_def example_quantity_def saxpy_centroid_values_def
        backup_centroid_values_def)
  have t0: "time ?d = 0" "calls ?d = []" by (simp_all add: example_domain_def)
  note step = rk3_step [OF r]
  from step have "time (state_of ?r) = time ?d + timestep (state_of ?r)"
    and "length (filter (\<lambda>c. fst c = Update_timestep) (calls (state_of ?r))) = 1"
    by (simp_all add: t0)
  with dt t0 have tm: "time (state_of ?r) = 1 / 2"
    and one: "length (filter (\<lambda>c. fst c = Update_timestep) (calls (state_of ?r))) = 1"
    by simp_all
  from step [THEN conjunct2, THEN conjunct2, THEN conjunct2, THEN conjunct2]
  obtain s q2 c2 q3 c3 where all:
    "backup_conserved_quantities ?d = Returns s \<and>
          in_sequence
            [compute_fluxes ?X,
               compute_forcing_terms ?X,
               update_timestep ?X (1 / 2) (Some 12),
               update_conserved_quantities ?X,
               update_ghosts,
               update_time,
               distribute_to_vertices_and_edges ?X,
               update_boundary ?X,
               compute_fluxes ?X,
               compute_forcing_terms ?X,
               update_conserved_quantities ?X] s = Returns q2 \<and>
          saxpy_conserved_quantities (1 / 4) (3 / 4) q2 = Returns c2 \<and>
          in_sequence
            [update_ghosts,
               (\<lambda>d1. set_substep_time (time ?d + timestep d1 * (1 / 2)) d1),
               distribute_to_vertices_and_edges ?X,
               update_boundary ?X,
               compute_fluxes ?X,
               compute_forcing_terms ?X,
               update_conserved_quantities ?X] c2 = Returns q3 \<and>
          saxpy_conserved_quantities (2 / 3) (1 / 3) q3 = Returns c3 \<and>
          in_sequence
            [update_ghosts,
               (\<lambda>d1. set_substep_time (time ?d + timestep d1) d1),
               distribute_to_vertices_and_edges ?X,
               update_boundary ?X] c3 = Returns (state_of ?r) \<and>
          (distinct (conserved_quantities ?d) \<longrightarrow>
             (\<forall>name \<in> set (conserved_quantities ?d).
                \<exists>Q Q2 Q3.
                  quantities ?d name = Some Q \<and>
                  quantities s name = Some (Q\<lparr>centroid_backup_values := centroid_values Q\<rparr>) \<and>
                  quantities q2 name = Some Q2 \<and>
                  quantities c2 name =
                    Some (Q2\<lparr>centroid_values :=
                             map (\<lambda>(c, s). 1 / 4 * c + 3 / 4 * s)
                               (zip (centroid_values Q2) (centroid_backup_values Q2))\<rparr>) \<and>
                  quantities q3 name = Some Q3 \<and>
                  quantities c3 name =
                    Some (Q3\<lparr>centroid_values :=
                             map (\<lambda>(c, s). 2 / 3 * c + 1 / 3 * s)
                               (zip (centroid_values Q3) (centroid_backup_values Q3))\<rparr>) \<and>
                  (keeps_backup ?X \<longrightarrow>
                     centroid_backup_values Q2 = centroid_values Q \<and>
                     centroid_backup_values Q3 = centroid_values Q)) \<and>
             (\<forall>name. name \<notin> set (conserved_quantities ?d) \<longrightarrow>
                quantities s name = quantities ?d name \<and>
                quantities c2 name = quantities q2 name \<and>
                quantities c3 name = quantities q3 name))"
    by (elim exE) (erule that)
  note s2 = all [THEN conjunct2, THEN conjunct2, THEN conjunct2, THEN conjunct2, THEN conjunct1]
  note each = all [THEN conjunct2, THEN conjunct2, THEN conjunct2, THEN conjunct2,
      THEN conjunct2, THEN conjunct2, rule_format, OF ds, THEN conjunct1, rule_format, OF m]
  from each kb obtain Q Q3 where Q: "quantities ?d ''stage'' = Some Q"
    and Q3: "quantities q3 ''stage'' = Some Q3"
    and C3: "quantities c3 ''stage'' =
             Some (Q3\<lparr>centroid_values :=
                      map (\<lambda>(c, s). 2 / 3 * c + 1 / 3 * s)
                        (zip (centroid_values Q3) (centroid_backup_values Q3))\<rparr>)"
    and S3: "centroid_backup_values Q3 = centroid_values Q"
    by blast
  from q Q have "Q = example_quantity 10" by simp
  then have "centroid_values Q = [10, 10]" by (simp add: example_quantity_def)
  with S3 have "centroid_backup_values Q3 = [10, 10]" by simp
  with s2 Q3 C3 have ex: "\<exists>q3 c3 Q3.
      saxpy_conserved_quantities (2 / 3) (1 / 3) q3 = Returns c3 \<and>
      quantities q3 ''stage'' = Some Q3 \<and>
      centroid_backup_values Q3 = [10, 10] \<and>
      quantities c3 ''stage'' =
        Some (Q3\<lparr>centroid_values :=
                 map (\<lambda>(c, s). 2 / 3 * c + 1 / 3 * s)
                   (zip (centroid_values Q3) (centroid_backup_values Q3))\<rparr>)"
    by blast
  from kb ds r dt tm one cv ex show ?thesis by (intro conjI)
qed

subsection \<open>The evolve loop\<close>

















end
